(* ===== verification/Prelude.thy ===== *)
theory Prelude
  imports Main "HOL-Library.Word" "HOL-Library.Char_ord" "HOL-Library.List_Lexorder"
begin

text \<open>
  Shared vocabulary of the development: bytes and Go strings, the instants and
  durations of package time, errors and their wrapping, the byte-string helpers of
  package strings, and the part of the environment every operation reads (the clock and
  the random source).

  Conventions.  A Go string is a \<^typ>\<open>string\<close> (a list of 8-bit characters), a
  byte slice is a list of 8-bit words.  An instant is an \<^typ>\<open>int\<close>: nanoseconds since
  the Unix epoch.  A pair \<open>(T, error)\<close> that Go returns is a sum, the error on the left.
  A nil pointer is \<^const>\<open>None\<close>.
\<close>

named_theorems error_simps \<open>classification of wrapped errors\<close>
named_theorems world_simps \<open>what an operation leaves alone in the environment\<close>

section \<open>Bytes and strings\<close>

type_synonym byte = "8 word"
type_synonym bytes = "byte list"

definition byte_of_char :: "char \<Rightarrow> byte" where
  "byte_of_char c = of_nat (of_char c)"

definition char_of_byte :: "byte \<Rightarrow> char" where
  "char_of_byte b = char_of (unat b)"

definition bytes_of_string :: "string \<Rightarrow> bytes" where
  "bytes_of_string s = map byte_of_char s"

definition string_of_bytes :: "bytes \<Rightarrow> string" where
  "string_of_bytes bs = map char_of_byte bs"

lemma unat_byte_less [simp]: "unat (b :: byte) < 256"
  using unsigned_less [of b] by simp

lemma char_of_byte_of_char [simp]: "char_of_byte (byte_of_char c) = c"
proof -
  have "of_char c < (256 :: nat)"
    by simp
  then have "unat (of_nat (of_char c) :: byte) = of_char c"
    by (simp add: unat_of_nat)
  then show ?thesis
    by (simp add: byte_of_char_def char_of_byte_def)
qed

lemma byte_of_char_of_byte [simp]: "byte_of_char (char_of_byte b) = b"
  by (simp add: byte_of_char_def char_of_byte_def)

lemma string_of_bytes_of_string [simp]: "string_of_bytes (bytes_of_string s) = s"
  by (simp add: bytes_of_string_def string_of_bytes_def comp_def)

lemma bytes_of_string_of_bytes [simp]: "bytes_of_string (string_of_bytes b) = b"
  by (simp add: bytes_of_string_def string_of_bytes_def comp_def)

lemma bytes_of_string_inject [simp]: "bytes_of_string s = bytes_of_string t \<longleftrightarrow> s = t"
  using string_of_bytes_of_string by metis

lemma length_bytes_of_string [simp]: "length (bytes_of_string s) = length s"
  by (simp add: bytes_of_string_def)

lemma bytes_of_string_append [simp]:
  "bytes_of_string (s @ t) = bytes_of_string s @ bytes_of_string t"
  by (simp add: bytes_of_string_def)

subsection \<open>The helpers of package strings\<close>

definition is_digit :: "char \<Rightarrow> bool" where
  "is_digit c \<longleftrightarrow> (let n = of_char c :: nat in 48 \<le> n \<and> n \<le> 57)"

definition unhex :: "char \<Rightarrow> nat option" where
  "unhex c =
     (let n = of_char c :: nat in
      if 48 \<le> n \<and> n \<le> 57 then Some (n - 48)
      else if 97 \<le> n \<and> n \<le> 102 then Some (n - 87)
      else if 65 \<le> n \<and> n \<le> 70 then Some (n - 55)
      else None)"

definition HasPrefix :: "string \<Rightarrow> string \<Rightarrow> bool" where
  "HasPrefix s p \<longleftrightarrow> take (length p) s = p"

definition CutPrefix :: "string \<Rightarrow> string \<Rightarrow> string option" where
  "CutPrefix s p = (if HasPrefix s p then Some (drop (length p) s) else None)"

text \<open>\<open>strings.Cut\<close> with a one-character separator: the parts around its first
  occurrence, or \<^const>\<open>None\<close> where it does not occur.\<close>

fun Cut :: "string \<Rightarrow> char \<Rightarrow> (string \<times> string) option" where
  "Cut [] sep = None"
| "Cut (c # cs) sep =
     (if c = sep then Some ([], cs)
      else map_option (\<lambda>(a, b). (c # a, b)) (Cut cs sep))"

text \<open>\<open>strings.Trim\<close> with a one-character cutset.\<close>

definition Trim :: "string \<Rightarrow> char \<Rightarrow> string" where
  "Trim s c = rev (dropWhile (\<lambda>x. x = c) (rev (dropWhile (\<lambda>x. x = c) s)))"

text \<open>\<open>strconv.Itoa\<close> on a natural number.\<close>

fun Itoa :: "nat \<Rightarrow> string" where
  "Itoa n = (if n < 10 then [char_of (48 + n)] else Itoa (n div 10) @ [char_of (48 + n mod 10)])"

declare Itoa.simps [simp del]

lemma HasPrefix_append [simp]: "HasPrefix (p @ s) p"
  by (simp add: HasPrefix_def)

lemma HasPrefix_Nil [simp]: "HasPrefix s []"
  by (simp add: HasPrefix_def)

lemma HasPrefixE:
  assumes "HasPrefix s p"
  obtains r where "s = p @ r"
  using assms append_take_drop_id [of "length p" s] by (metis HasPrefix_def)

lemma CutPrefix_eq_Some: "CutPrefix s p = Some r \<longleftrightarrow> s = p @ r"
  by (auto simp: CutPrefix_def elim: HasPrefixE)

lemma Cut_append:
  "sep \<notin> set a \<Longrightarrow> Cut (a @ sep # b) sep = Some (a, b)"
  by (induction a) auto

lemma Cut_Some:
  "Cut s sep = Some (a, b) \<Longrightarrow> s = a @ sep # b \<and> sep \<notin> set a"
  by (induction s arbitrary: a) (auto split: if_splits)

lemma Cut_None: "Cut s sep = None \<longleftrightarrow> sep \<notin> set s"
  by (induction s) auto

section \<open>Instants and durations\<close>

type_synonym time = int
type_synonym duration = int

abbreviation Nanosecond :: duration where "Nanosecond \<equiv> 1"
abbreviation Millisecond :: duration where "Millisecond \<equiv> 1000000"
abbreviation Second :: duration where "Second \<equiv> 1000000000"
abbreviation Minute :: duration where "Minute \<equiv> 60 * Second"
abbreviation Hour :: duration where "Hour \<equiv> 60 * Minute"

text \<open>The zero \<open>time.Time\<close>: the first of January of the year 1, UTC.\<close>

definition zeroTime :: time where
  "zeroTime = - 62135596800 * Second"

abbreviation IsZero :: "time \<Rightarrow> bool" where
  "IsZero t \<equiv> t = zeroTime"

abbreviation maxDuration :: duration where "maxDuration \<equiv> 2 ^ 63 - 1"
abbreviation minDuration :: duration where "minDuration \<equiv> - (2 ^ 63)"

text \<open>\<open>Time.Sub\<close> saturates: a difference that does not fit in the 64-bit duration is
  the largest or the smallest one.\<close>

definition time_Sub :: "time \<Rightarrow> time \<Rightarrow> duration" where
  "time_Sub t u = max minDuration (min maxDuration (t - u))"

lemma time_Sub_less: "d \<le> maxDuration \<Longrightarrow> minDuration < d \<Longrightarrow> time_Sub t u < d \<longleftrightarrow> t - u < d"
  by (auto simp: time_Sub_def)

lemma time_Sub_greater: "d < maxDuration \<Longrightarrow> minDuration \<le> d \<Longrightarrow> time_Sub t u > d \<longleftrightarrow> t - u > d"
  by (auto simp: time_Sub_def)

section \<open>Errors\<close>

text \<open>The sentinel errors the code compares against with \<open>errors.Is\<close>.\<close>

datatype sentinel =
    ErrNoSession | ErrRefreshRejected
  | ErrNotSealed | ErrUnknownVersion | ErrUnknownKey | ErrWrongSessionKind | ErrAuthentication
  | ErrNoCookieKeyring | ErrSkipRender
  | ErrRefreshTimeout | ErrLeaseLost
  | ErrNoRows | ErrNoCookie | ErrContextDone

text \<open>A value of an interface type that the code hands on without looking at it.\<close>

datatype any = AnyInt int | AnyString string | AnyMap "(string \<times> any) list"

text \<open>\<open>TextLabel\<close>: a literal text, or a message to translate with its values and its plural count.
  Of a message the code sets its id and the text it has by default.\<close>

record i18n_Message =
  m_ID :: string
  m_Other :: string

record TextLabel =
  tl_Literal :: string
  tl_Message :: "i18n_Message option"
  tl_Values :: "any option"
  tl_PluralCount :: "int option"

definition zero_label :: TextLabel where
  "zero_label = \<lparr>tl_Literal = [], tl_Message = None, tl_Values = None, tl_PluralCount = None\<rparr>"

text \<open>An error: a sentinel, a plain \<open>errors.New\<close>, a \<open>fmt.Errorf\<close> or
  \<open>errors.Join\<close> wrapping the errors of its \<open>%w\<close> verbs, or an \<open>HTTPError\<close> with
  its message, code, label and cause.  The texts are those of the source without the values
  its other verbs interpolate, but for the key labels of the keyring's errors.\<close>

datatype go_error =
    Sentinel sentinel
  | New string
  | Errorf string "go_error list"
  | HTTPError string int TextLabel "go_error option"

type_synonym 'a result = "go_error + 'a"

text \<open>What a handler ends with: a value, or the run-time panic of a nil pointer it read
  through.\<close>

datatype 'a outcome = Value 'a | Panic

text \<open>\<open>errors.Is\<close> against a sentinel: somewhere in the tree of wrapped errors.\<close>

fun errors_Is :: "go_error \<Rightarrow> sentinel \<Rightarrow> bool" where
  "errors_Is (Sentinel s) t = (s = t)"
| "errors_Is (New m) t = False"
| "errors_Is (Errorf m es) t = list_ex (\<lambda>e. errors_Is e t) es"
| "errors_Is (HTTPError m c l (Some e)) t = errors_Is e t"
| "errors_Is (HTTPError m c l None) t = False"

declare errors_Is.simps [error_simps]

section \<open>The environment\<close>

text \<open>What every operation may read: the clock of the process, and the bytes the random
  source will hand out.  A store extends it with the storage it keeps.\<close>

record world =
  clock :: time
  rng :: bytes

text \<open>\<open>rand.Read\<close>: fills a buffer of \<open>n\<close> bytes, or fails where the source is
  exhausted.\<close>

definition rand_Read :: "nat \<Rightarrow> 'a world_scheme \<Rightarrow> bytes result \<times> 'a world_scheme" where
  "rand_Read n w =
     (if length (rng w) < n then (Inl (New ''read random bytes''), w)
      else (Inr (take n (rng w)), w\<lparr>rng := drop n (rng w)\<rparr>))"

lemma rand_Read_Inr:
  "rand_Read n w = (Inr b, w') \<longleftrightarrow>
     n \<le> length (rng w) \<and> b = take n (rng w) \<and> w' = w\<lparr>rng := drop n (rng w)\<rparr>"
  by (auto simp: rand_Read_def)

lemma rand_Read_length: "rand_Read n w = (Inr b, w') \<Longrightarrow> length b = n"
  by (simp add: rand_Read_Inr)

lemma clock_rand_Read [world_simps]: "clock (snd (rand_Read n w)) = clock w"
  by (simp add: rand_Read_def)

end
