(* ===== verification/Aead.thy ===== *)
theory Aead
  imports Prelude
begin

text \<open>
  The interface \<open>cipher.AEAD\<close> of the standard library and its Galois/Counter Mode
  (\<open>cipher.NewGCM\<close>, 12-byte nonces, 16-byte tags) over an arbitrary block cipher.
  The locale \<open>aead_contract\<close> holds what the envelope code relies on; it is interpreted
  on GCM for every block cipher, so nothing here rests on an assumption about AES.

  What no theorem can give is that a forged ciphertext is rejected: that is the
  computational promise of the mode.  Where a property needs it for two given inputs it
  says so as a hypothesis on those inputs.
\<close>

unbundle bit_operations_syntax

section \<open>The interface\<close>

text \<open>Arguments in the order of the Go methods: the nonce, the text, the additional
  authenticated data.\<close>

record aead =
  aead_Seal :: "bytes \<Rightarrow> bytes \<Rightarrow> bytes \<Rightarrow> bytes"
  aead_Open :: "bytes \<Rightarrow> bytes \<Rightarrow> bytes \<Rightarrow> bytes option"

locale aead_contract =
  fixes A :: aead
  assumes length_seal: "length n = 12 \<Longrightarrow> length (aead_Seal A n p ad) = length p + 16"
    and open_seal: "length n = 12 \<Longrightarrow> aead_Open A n (aead_Seal A n p ad) ad = Some p"
    and open_only_sealed:
      "length n = 12 \<Longrightarrow> aead_Open A n c ad = Some p \<Longrightarrow> c = aead_Seal A n p ad"
begin

lemma open_iff: "length n = 12 \<Longrightarrow> aead_Open A n c ad = Some p \<longleftrightarrow> c = aead_Seal A n p ad"
  using open_seal open_only_sealed by blast

lemma seal_inject: "length n = 12 \<Longrightarrow> aead_Seal A n p ad = aead_Seal A n q ad \<longleftrightarrow> p = q"
  using open_seal by (metis option.inject)

lemma open_length: "length n = 12 \<Longrightarrow> aead_Open A n c ad = Some p \<Longrightarrow> length c = length p + 16"
  using open_only_sealed length_seal by blast

end

section \<open>Galois/Counter Mode\<close>

type_synonym block = "128 word"

definition be_block :: "bytes \<Rightarrow> block" where
  "be_block bs = foldl (\<lambda>a b. push_bit 8 a OR ucast b) 0 bs"

definition block_bytes :: "block \<Rightarrow> bytes" where
  "block_bytes w = map (\<lambda>i. ucast (drop_bit (8 * (15 - i)) w)) [0..<16]"

text \<open>The counter is the last 32 bits of the block.\<close>

definition inc32 :: "block \<Rightarrow> block" where
  "inc32 w = push_bit 32 (drop_bit 32 w) OR ucast (ucast w + (1 :: 32 word))"

definition xor_bytes :: "bytes \<Rightarrow> bytes \<Rightarrow> bytes" where
  "xor_bytes a b = map (\<lambda>(x, y). x XOR y) (zip a b)"

function gctr :: "(block \<Rightarrow> block) \<Rightarrow> block \<Rightarrow> bytes \<Rightarrow> bytes" where
  "gctr E icb bs =
     (if bs = [] then []
      else xor_bytes (take 16 bs) (block_bytes (E icb)) @ gctr E (inc32 icb) (drop 16 bs))"
  by pat_completeness auto
termination
  by (relation "measure (\<lambda>(E, icb, bs). length bs)") auto

declare gctr.simps [simp del]

text \<open>Multiplication in the field of the authentication tag: bit 0 of the field element is
  the most significant bit of the block.\<close>

fun gf_mult_loop :: "nat \<Rightarrow> block \<Rightarrow> block \<Rightarrow> block \<Rightarrow> block" where
  "gf_mult_loop 0 x v z = z"
| "gf_mult_loop (Suc n) x v z =
     gf_mult_loop n x
       (if bit v 0 then drop_bit 1 v XOR push_bit 120 0xE1 else drop_bit 1 v)
       (if bit x n then z XOR v else z)"

definition gf_mult :: "block \<Rightarrow> block \<Rightarrow> block" where
  "gf_mult x y = gf_mult_loop 128 x y 0"

definition pad16 :: "bytes \<Rightarrow> bytes" where
  "pad16 bs = bs @ replicate ((16 - length bs mod 16) mod 16) 0"

fun blocks16 :: "nat \<Rightarrow> bytes \<Rightarrow> block list" where
  "blocks16 0 bs = []"
| "blocks16 (Suc n) bs = be_block (take 16 bs) # blocks16 n (drop 16 bs)"

definition ghash :: "block \<Rightarrow> bytes \<Rightarrow> block" where
  "ghash h bs = foldl (\<lambda>y x. gf_mult (y XOR x) h) 0 (blocks16 (length bs div 16) bs)"

definition len64 :: "bytes \<Rightarrow> block" where
  "len64 bs = of_nat (8 * length bs)"

definition gcm_tag :: "(block \<Rightarrow> block) \<Rightarrow> block \<Rightarrow> bytes \<Rightarrow> bytes \<Rightarrow> bytes" where
  "gcm_tag E j0 ad c =
     block_bytes (E j0 XOR
       ghash (E 0) (pad16 ad @ pad16 c @ block_bytes (push_bit 64 (len64 ad) OR len64 c)))"

definition gcm_j0 :: "bytes \<Rightarrow> block" where
  "gcm_j0 nonce = be_block (nonce @ [0, 0, 0, 1])"

definition gcm_seal :: "(block \<Rightarrow> block) \<Rightarrow> bytes \<Rightarrow> bytes \<Rightarrow> bytes \<Rightarrow> bytes" where
  "gcm_seal E nonce p ad =
     (let j0 = gcm_j0 nonce; c = gctr E (inc32 j0) p in c @ gcm_tag E j0 ad c)"

definition gcm_open :: "(block \<Rightarrow> block) \<Rightarrow> bytes \<Rightarrow> bytes \<Rightarrow> bytes \<Rightarrow> bytes option" where
  "gcm_open E nonce ct ad =
     (if length ct < 16 then None
      else let j0 = gcm_j0 nonce;
               c = take (length ct - 16) ct;
               tag = drop (length ct - 16) ct
           in if gcm_tag E j0 ad c = tag then Some (gctr E (inc32 j0) c) else None)"

definition NewGCM :: "(block \<Rightarrow> block) \<Rightarrow> aead" where
  "NewGCM E = \<lparr>aead_Seal = gcm_seal E, aead_Open = gcm_open E\<rparr>"

lemma length_block_bytes [simp]: "length (block_bytes w) = 16"
  by (simp add: block_bytes_def)

lemma length_xor_bytes [simp]: "length (xor_bytes a b) = min (length a) (length b)"
  by (simp add: xor_bytes_def)

lemma xor_bytes_twice: "length a \<le> length k \<Longrightarrow> xor_bytes (xor_bytes a k) k = a"
proof (induction a arbitrary: k)
  case (Cons x xs)
  then obtain y ys where "k = y # ys" by (cases k) auto
  with Cons show ?case by (simp add: xor_bytes_def xor.assoc)
qed (simp add: xor_bytes_def)

lemma length_gctr [simp]: "length (gctr E icb bs) = length bs"
proof (induction E icb bs rule: gctr.induct)
  case (1 E icb bs)
  then show ?case by (subst gctr.simps) auto
qed

lemma gctr_Cons_block:
  assumes "x @ r \<noteq> []" and "length x \<le> 16" and "length x = 16 \<or> r = []"
  shows "gctr E icb (x @ r) = xor_bytes x (block_bytes (E icb)) @ gctr E (inc32 icb) r"
proof -
  have "take 16 (x @ r) = x" "drop 16 (x @ r) = r"
    using assms by auto
  then show ?thesis
    using assms(1) gctr.simps [of E icb "x @ r"] by (simp only: if_False)
qed

lemma gctr_gctr: "gctr E icb (gctr E icb bs) = bs"
proof (induction E icb bs rule: gctr.induct)
  case (1 E icb bs)
  show ?case
  proof (cases "bs = []")
    case True
    then show ?thesis by (simp add: gctr.simps)
  next
    case False
    let ?k = "block_bytes (E icb)"
    let ?x = "xor_bytes (take 16 bs) ?k"
    let ?r = "gctr E (inc32 icb) (drop 16 bs)"
    have eq: "gctr E icb bs = ?x @ ?r"
      using False gctr.simps [of E icb bs] by (simp only: if_False)
    have len: "length ?x = min (length bs) 16" "length ?r = length bs - 16"
      by simp_all
    have "?x @ ?r \<noteq> []"
      using False len(1) by (metis append_is_Nil_conv length_0_conv min_0L min.commute zero_neq_numeral min_def)
    moreover have "length ?x \<le> 16" "length ?x = 16 \<or> ?r = []"
      using len by (auto simp flip: length_0_conv simp del: length_gctr length_xor_bytes)
    ultimately have "gctr E icb (?x @ ?r) = xor_bytes ?x ?k @ gctr E (inc32 icb) ?r"
      by (rule gctr_Cons_block)
    moreover have "xor_bytes ?x ?k = take 16 bs"
      by (rule xor_bytes_twice) simp
    moreover have "gctr E (inc32 icb) ?r = drop 16 bs"
      by (rule 1 [OF False])
    ultimately show ?thesis
      by (simp add: eq)
  qed
qed

lemma length_gcm_tag [simp]: "length (gcm_tag E j0 ad c) = 16"
  by (simp add: gcm_tag_def)

interpretation gcm: aead_contract "NewGCM E" for E
proof
  fix n p ad c :: bytes
  show "length (aead_Seal (NewGCM E) n p ad) = length p + 16"
    by (simp add: NewGCM_def gcm_seal_def Let_def)
  show "aead_Open (NewGCM E) n (aead_Seal (NewGCM E) n p ad) ad = Some p"
    by (simp add: NewGCM_def gcm_seal_def gcm_open_def Let_def gctr_gctr)
  show "aead_Open (NewGCM E) n c ad = Some p \<Longrightarrow> c = aead_Seal (NewGCM E) n p ad"
    by (auto simp: NewGCM_def gcm_seal_def gcm_open_def Let_def gctr_gctr split: if_splits)
qed

end
