(* ===== verification/Primitives.thy ===== *)
theory Primitives
  imports Aead
begin

text \<open>
  The two cryptographic primitives of the standard library the keyring is built from:
  \<open>crypto/sha256\<close> and \<open>crypto/aes\<close> with its Galois/Counter Mode.  Both are executable.

  The record \<open>crypto\<close> is what the keyring takes from them, and the locale
  \<open>crypto_contract\<close> what it relies on; \<open>std_crypto\<close> is the standard library's, and
  interprets the locale.
\<close>

unbundle bit_operations_syntax

section \<open>SHA-256\<close>

definition sha256_K :: "32 word list" where
  "sha256_K = [
     1116352408, 1899447441, 3049323471, 3921009573, 961987163, 1508970993, 2453635748, 2870763221,
     3624381080, 310598401, 607225278, 1426881987, 1925078388, 2162078206, 2614888103, 3248222580,
     3835390401, 4022224774, 264347078, 604807628, 770255983, 1249150122, 1555081692, 1996064986,
     2554220882, 2821834349, 2952996808, 3210313671, 3336571891, 3584528711, 113926993, 338241895,
     666307205, 773529912, 1294757372, 1396182291, 1695183700, 1986661051, 2177026350, 2456956037,
     2730485921, 2820302411, 3259730800, 3345764771, 3516065817, 3600352804, 4094571909, 275423344,
     430227734, 506948616, 659060556, 883997877, 958139571, 1322822218, 1537002063, 1747873779,
     1955562222, 2024104815, 2227730452, 2361852424, 2428436474, 2756734187, 3204031479, 3329325298]"

definition sha256_init :: "32 word list" where
  "sha256_init = [0x6a09e667, 0xbb67ae85, 0x3c6ef372, 0xa54ff53a,
     0x510e527f, 0x9b05688c, 0x1f83d9ab, 0x5be0cd19]"

definition be_word32 :: "bytes \<Rightarrow> 32 word" where
  "be_word32 bs = foldl (\<lambda>a b. push_bit 8 a OR ucast b) 0 bs"

definition word32_bytes :: "32 word \<Rightarrow> bytes" where
  "word32_bytes w = map (\<lambda>i. ucast (drop_bit (8 * (3 - i)) w)) [0..<4]"

definition rotr :: "nat \<Rightarrow> 32 word \<Rightarrow> 32 word" where
  "rotr n w = drop_bit n w OR push_bit (32 - n) w"

text \<open>The message schedule, kept latest word first.\<close>

fun sha256_schedule :: "nat \<Rightarrow> 32 word list \<Rightarrow> 32 word list" where
  "sha256_schedule 0 w = w"
| "sha256_schedule (Suc n) w =
     (let a = w ! 1; b = w ! 6; c = w ! 14; d = w ! 15;
          s1 = rotr 17 a XOR rotr 19 a XOR drop_bit 10 a;
          s0 = rotr 7 c XOR rotr 18 c XOR drop_bit 3 c
      in sha256_schedule n ((s1 + b + s0 + d) # w))"

fun sha256_round :: "32 word list \<Rightarrow> 32 word \<times> 32 word \<Rightarrow> 32 word list" where
  "sha256_round [a, b, c, d, e, f, g, h] (k, w) =
     (let t1 = h + (rotr 6 e XOR rotr 11 e XOR rotr 25 e) + ((e AND f) XOR (NOT e AND g)) + k + w;
          t2 = (rotr 2 a XOR rotr 13 a XOR rotr 22 a) + ((a AND b) XOR (a AND c) XOR (b AND c))
      in [t1 + t2, a, b, c, d + t1, e, f, g])"
| "sha256_round st kw = st"

fun chunks :: "nat \<Rightarrow> nat \<Rightarrow> bytes \<Rightarrow> bytes list" where
  "chunks k 0 bs = []"
| "chunks k (Suc n) bs = take k bs # chunks k n (drop k bs)"

definition sha256_block :: "32 word list \<Rightarrow> bytes \<Rightarrow> 32 word list" where
  "sha256_block h bs =
     (let w = rev (sha256_schedule 48 (rev (map be_word32 (chunks 4 16 bs))))
      in map2 (+) h (foldl sha256_round h (zip sha256_K w)))"

definition sha256_pad :: "bytes \<Rightarrow> bytes" where
  "sha256_pad bs =
     (let n = length bs; z = (119 - n mod 64) mod 64
      in bs @ 0x80 # replicate z 0 @
         map (\<lambda>i. ucast (drop_bit (8 * (7 - i)) (of_nat (8 * n) :: 64 word))) [0..<8])"

definition sha256_Sum256 :: "bytes \<Rightarrow> bytes" where
  "sha256_Sum256 bs =
     (let p = sha256_pad bs
      in concat (map word32_bytes (foldl sha256_block sha256_init (chunks 64 (length p div 64) p))))"

section \<open>AES\<close>

definition xtime :: "byte \<Rightarrow> byte" where
  "xtime b = push_bit 1 b XOR (if bit b 7 then 0x1B else 0)"

fun gf8_mult :: "nat \<Rightarrow> byte \<Rightarrow> byte \<Rightarrow> byte" where
  "gf8_mult 0 a b = 0"
| "gf8_mult (Suc n) a b = (if bit b 0 then a else 0) XOR gf8_mult n (xtime a) (drop_bit 1 b)"

definition gmul :: "byte \<Rightarrow> byte \<Rightarrow> byte" where
  "gmul a b = gf8_mult 8 a b"

text \<open>The inverse in the field is the 254th power, here as a product of squares.\<close>

definition gf8_inv :: "byte \<Rightarrow> byte" where
  "gf8_inv a =
     (let sq = (\<lambda>x. gmul x x);
          a2 = sq a; a4 = sq a2; a8 = sq a4; a16 = sq a8; a32 = sq a16; a64 = sq a32; a128 = sq a64
      in gmul a2 (gmul a4 (gmul a8 (gmul a16 (gmul a32 (gmul a64 a128))))))"

definition rotl8 :: "nat \<Rightarrow> byte \<Rightarrow> byte" where
  "rotl8 n b = push_bit n b OR drop_bit (8 - n) b"

definition SubByte :: "byte \<Rightarrow> byte" where
  "SubByte a = (let x = gf8_inv a
     in x XOR rotl8 1 x XOR rotl8 2 x XOR rotl8 3 x XOR rotl8 4 x XOR 0x63)"

text \<open>Key expansion, words of four bytes kept latest first.\<close>

fun aes_expand :: "nat \<Rightarrow> nat \<Rightarrow> nat \<Rightarrow> byte \<Rightarrow> bytes list \<Rightarrow> bytes list" where
  "aes_expand nk 0 i rc ws = ws"
| "aes_expand nk (Suc n) i rc ws =
     (let t = hd ws;
          t' = (if i mod nk = 0 then
                  xor_bytes (map SubByte (rotate1 t)) [rc, 0, 0, 0]
                else if 6 < nk \<and> i mod nk = 4 then map SubByte t else t);
          rc' = (if i mod nk = 0 then xtime rc else rc)
      in aes_expand nk n (Suc i) rc' (xor_bytes (ws ! (nk - 1)) t' # ws))"

definition aes_round_keys :: "bytes \<Rightarrow> bytes list" where
  "aes_round_keys key =
     (let nk = length key div 4; nr = nk + 6;
          ws = rev (aes_expand nk (4 * (nr + 1) - nk) nk 1 (rev (chunks 4 nk key)))
      in chunks 16 (nr + 1) (concat ws))"

definition ShiftRows :: "bytes \<Rightarrow> bytes" where
  "ShiftRows s = map (\<lambda>i. s ! i) [0, 5, 10, 15, 4, 9, 14, 3, 8, 13, 2, 7, 12, 1, 6, 11]"

fun MixColumn :: "bytes \<Rightarrow> bytes" where
  "MixColumn [a, b, c, d] =
     [xtime a XOR (xtime b XOR b) XOR c XOR d,
      a XOR xtime b XOR (xtime c XOR c) XOR d,
      a XOR b XOR xtime c XOR (xtime d XOR d),
      (xtime a XOR a) XOR b XOR c XOR xtime d]"
| "MixColumn s = s"

definition MixColumns :: "bytes \<Rightarrow> bytes" where
  "MixColumns s = concat (map MixColumn (chunks 4 4 s))"

definition aes_round :: "bytes \<Rightarrow> bytes \<Rightarrow> bytes" where
  "aes_round s k = xor_bytes (MixColumns (ShiftRows (map SubByte s))) k"

definition aes_encrypt :: "bytes list \<Rightarrow> block \<Rightarrow> block" where
  "aes_encrypt ks b =
     be_block (xor_bytes (ShiftRows (map SubByte
       (foldl aes_round (xor_bytes (block_bytes b) (hd ks)) (butlast (tl ks))))) (last ks))"

text \<open>\<open>aes.NewCipher\<close> takes a key of 16, 24 or 32 bytes.\<close>

definition aes_NewCipher :: "bytes \<Rightarrow> (block \<Rightarrow> block) result" where
  "aes_NewCipher key =
     (if length key \<in> {16, 24, 32} then Inr (aes_encrypt (aes_round_keys key))
      else Inl (New ''crypto/aes: invalid key size''))"

section \<open>What the keyring takes from them\<close>

record crypto =
  Sum256 :: "bytes \<Rightarrow> bytes"
  NewCipherGCM :: "bytes \<Rightarrow> aead result"

text \<open>\<open>aes.NewCipher\<close> followed by \<open>cipher.NewGCM\<close>.\<close>

definition std_crypto :: crypto where
  "std_crypto =
     \<lparr>Sum256 = sha256_Sum256,
      NewCipherGCM = (\<lambda>key. case aes_NewCipher key of Inl e \<Rightarrow> Inl e | Inr E \<Rightarrow> Inr (NewGCM E))\<rparr>"

locale crypto_contract =
  fixes C :: crypto
  assumes length_Sum256: "length (Sum256 C bs) = 32"
    and cipher_32: "length key = 32 \<Longrightarrow> \<exists>A. NewCipherGCM C key = Inr A"
    and cipher_contract: "NewCipherGCM C key = Inr A \<Longrightarrow> aead_contract A"

lemma length_word32_bytes [simp]: "length (word32_bytes w) = 4"
  by (simp add: word32_bytes_def)

lemma length_sha256_round: "length (sha256_round st kw) = length st"
  by (induction st kw rule: sha256_round.induct) (simp_all add: Let_def)

lemma length_sha256_rounds: "length (foldl sha256_round st kws) = length st"
  by (induction kws arbitrary: st) (simp_all add: length_sha256_round)

lemma length_sha256_block: "length (sha256_block h bs) = length h"
  by (simp add: sha256_block_def length_sha256_rounds)

lemma length_sha256_blocks: "length (foldl sha256_block h bss) = length h"
  by (induction bss arbitrary: h) (simp_all add: length_sha256_block)

lemma length_concat_word32: "length (concat (map word32_bytes ws)) = 4 * length ws"
  by (induction ws) simp_all

lemma length_sha256: "length (sha256_Sum256 bs) = 32"
  by (simp add: sha256_Sum256_def Let_def length_concat_word32 length_sha256_blocks sha256_init_def)

interpretation std: crypto_contract std_crypto
proof (rule crypto_contract.intro, goal_cases)
  case (1 bs)
  show ?case by (simp add: std_crypto_def length_sha256)
next
  case (2 key)
  then show ?case by (simp add: std_crypto_def aes_NewCipher_def)
next
  case (3 key A)
  then show ?case
    by (auto simp: std_crypto_def intro: gcm.aead_contract_axioms split: sum.splits)
qed

section \<open>A cheap instance\<close>

text \<open>The concrete inputs of the witnesses are evaluated by the kernel, where SHA-256 and AES are
  slow.  They use this instance of the same interface instead: the digest drops the label the
  key ids are derived with and takes the first 32 bytes of what is left; the cipher adds the
  first byte of the key, and its tag is the end of the additional data.\<close>

definition sample_tag :: "bytes \<Rightarrow> bytes" where
  "sample_tag ad = take 16 (rev ad @ replicate 16 0)"

definition sample_aead :: "byte \<Rightarrow> aead" where
  "sample_aead b =
     \<lparr>aead_Seal = (\<lambda>n p ad. map (\<lambda>x. x XOR b) p @ sample_tag ad),
      aead_Open = (\<lambda>n c ad.
        if length c < 16 \<or> drop (length c - 16) c \<noteq> sample_tag ad then None
        else Some (map (\<lambda>x. x XOR b) (take (length c - 16) c)))\<rparr>"

definition sample_crypto :: crypto where
  "sample_crypto =
     \<lparr>Sum256 = (\<lambda>bs. take 32 (drop 20 bs @ replicate 32 0)),
      NewCipherGCM = (\<lambda>key. Inr (sample_aead (case key of [] \<Rightarrow> 0 | b # bs \<Rightarrow> b)))\<rparr>"

lemma length_sample_tag [simp]: "length (sample_tag ad) = 16"
  by (simp add: sample_tag_def)

lemma map_xor_twice [simp]: "map ((\<lambda>x :: byte. x XOR b) \<circ> (\<lambda>x. x XOR b)) p = p"
  by (simp add: comp_def xor.assoc)

interpretation sample_cipher: aead_contract "sample_aead b" for b
proof (standard, goal_cases)
  case (3 n c ad p)
  then have "drop (length c - 16) c = sample_tag ad"
    by (simp add: sample_aead_def split: if_splits)
  then have "c = take (length c - 16) c @ sample_tag ad"
    by (metis append_take_drop_id)
  moreover from 3 have "p = map (\<lambda>x. x XOR b) (take (length c - 16) c)"
    by (simp add: sample_aead_def split: if_splits)
  ultimately show ?case
    by (simp add: sample_aead_def)
qed (simp_all add: sample_aead_def)

interpretation sample: crypto_contract sample_crypto
proof (rule crypto_contract.intro, goal_cases)
  case (3 key A)
  then show ?case by (auto simp: sample_crypto_def intro: sample_cipher.aead_contract_axioms)
qed (simp_all add: sample_crypto_def)

end
