(* ===== verification/Encoding.thy ===== *)
theory Encoding
  imports Prelude
begin

text \<open>
  The two text encodings the code uses from the standard library: \<open>encoding/hex\<close>
  (key ids, row ids in domain strings) and \<open>encoding/base64\<close> in its \<open>RawURLEncoding\<close>
  (cookie values, random state) and \<open>StdEncoding\<close> (the secrets of the environment).
  The decoder is the standard library's non-strict one: line breaks are skipped and the
  unused bits of a last group are ignored.
\<close>

section \<open>Hexadecimal\<close>

definition hexdigits :: string where
  "hexdigits = ''0123456789abcdef''"

definition hex_byte :: "byte \<Rightarrow> string" where
  "hex_byte b = [hexdigits ! (unat b div 16), hexdigits ! (unat b mod 16)]"

definition hex_EncodeToString :: "bytes \<Rightarrow> string" where
  "hex_EncodeToString bs = concat (map hex_byte bs)"

lemma hexdigits_distinct: "distinct hexdigits" "length hexdigits = 16"
  by (simp_all add: hexdigits_def)

lemma hexdigits_nth_inject:
  "i < 16 \<Longrightarrow> j < 16 \<Longrightarrow> hexdigits ! i = hexdigits ! j \<longleftrightarrow> i = j"
  using hexdigits_distinct by (simp add: nth_eq_iff_index_eq)

lemma unsigned_word_eqI: "unat (a :: byte) = unat b \<Longrightarrow> a = b"
  by (simp add: word_unat_eq_iff)

lemma hex_byte_inject: "hex_byte a = hex_byte b \<longleftrightarrow> a = b"
proof
  assume eq: "hex_byte a = hex_byte b"
  have lt: "unat c div 16 < 16" for c :: byte
    using unat_byte_less [of c] by (simp add: div_less_iff_less_mult)
  from eq have "unat a div 16 = unat b div 16" and "unat a mod 16 = unat b mod 16"
    by (simp_all add: hex_byte_def hexdigits_nth_inject lt)
  then have "unat a = unat b"
    by (metis div_mult_mod_eq)
  then show "a = b" by (rule unsigned_word_eqI)
qed simp

lemma length_hex_byte [simp]: "length (hex_byte b) = 2"
  by (simp add: hex_byte_def)

lemma hex_EncodeToString_inject: "hex_EncodeToString a = hex_EncodeToString b \<longleftrightarrow> a = b"
proof
  show "hex_EncodeToString a = hex_EncodeToString b \<Longrightarrow> a = b"
  proof (induction a arbitrary: b)
    case Nil
    then show ?case by (cases b) (auto simp: hex_EncodeToString_def hex_byte_def)
  next
    case (Cons x xs)
    then obtain y ys where b: "b = y # ys"
      by (cases b) (auto simp: hex_EncodeToString_def hex_byte_def)
    with Cons.prems have "hex_byte x @ hex_EncodeToString xs = hex_byte y @ hex_EncodeToString ys"
      by (simp add: hex_EncodeToString_def)
    then have "hex_byte x = hex_byte y" "hex_EncodeToString xs = hex_EncodeToString ys"
      by (simp_all add: append_eq_append_conv)
    with Cons.IH b show ?case by (simp add: hex_byte_inject)
  qed
qed simp

section \<open>Base64\<close>

definition base64_std :: string where
  "base64_std = ''ABCDEFGHIJKLMNOPQRSTUVWXYZabcdefghijklmnopqrstuvwxyz0123456789+/''"

definition base64_url :: string where
  "base64_url = ''ABCDEFGHIJKLMNOPQRSTUVWXYZabcdefghijklmnopqrstuvwxyz0123456789-_''"

record base64_encoding =
  alphabet :: string
  padded :: bool

definition RawURLEncoding :: base64_encoding where
  "RawURLEncoding = \<lparr>alphabet = base64_url, padded = False\<rparr>"

definition StdEncoding :: base64_encoding where
  "StdEncoding = \<lparr>alphabet = base64_std, padded = True\<rparr>"

text \<open>Encoding, three bytes to four characters.\<close>

fun base64_groups :: "base64_encoding \<Rightarrow> nat list \<Rightarrow> string" where
  "base64_groups e (a # b # c # r) =
     alphabet e ! (a div 4) # alphabet e ! (a mod 4 * 16 + b div 16) #
     alphabet e ! (b mod 16 * 4 + c div 64) # alphabet e ! (c mod 64) # base64_groups e r"
| "base64_groups e [a, b] =
     [alphabet e ! (a div 4), alphabet e ! (a mod 4 * 16 + b div 16), alphabet e ! (b mod 16 * 4)]
     @ (if padded e then ''='' else [])"
| "base64_groups e [a] =
     [alphabet e ! (a div 4), alphabet e ! (a mod 4 * 16)] @ (if padded e then ''=='' else [])"
| "base64_groups e [] = []"

definition base64_EncodeToString :: "base64_encoding \<Rightarrow> bytes \<Rightarrow> string" where
  "base64_EncodeToString e bs = base64_groups e (map unat bs)"

text \<open>Decoding.  \<open>base64_index\<close> is the decode map: the value of a character, or
  \<^const>\<open>None\<close> for one outside the alphabet.\<close>

fun list_index :: "'a \<Rightarrow> 'a list \<Rightarrow> nat option" where
  "list_index x [] = None"
| "list_index x (y # ys) = (if x = y then Some 0 else map_option Suc (list_index x ys))"

definition base64_index :: "base64_encoding \<Rightarrow> char \<Rightarrow> nat option" where
  "base64_index e c = list_index c (alphabet e)"

text \<open>What is left when fewer than four characters of the alphabet precede the end or the
  padding: nothing, two characters for one byte, or three for two.\<close>

definition base64_tail :: "base64_encoding \<Rightarrow> nat list \<Rightarrow> nat list option" where
  "base64_tail e vs =
     (case vs of
        [] \<Rightarrow> Some []
      | [a, b] \<Rightarrow> Some [(a * 4 + b div 16) mod 256]
      | [a, b, c] \<Rightarrow> Some [(a * 4 + b div 16) mod 256, (b mod 16 * 16 + c div 4) mod 256]
      | _ \<Rightarrow> None)"

fun base64_quanta :: "base64_encoding \<Rightarrow> string \<Rightarrow> nat list option" where
  "base64_quanta e (c0 # c1 # c2 # c3 # r) =
     (case (base64_index e c0, base64_index e c1, base64_index e c2, base64_index e c3) of
        (Some a, Some b, Some c, Some d) \<Rightarrow>
          map_option (\<lambda>vs. (a * 4 + b div 16) mod 256 # (b mod 16 * 16 + c div 4) mod 256 #
            (c mod 4 * 64 + d) mod 256 # vs) (base64_quanta e r)
      | (Some a, Some b, Some c, None) \<Rightarrow>
          if padded e \<and> c3 = CHR ''='' \<and> r = [] then base64_tail e [a, b, c] else None
      | (Some a, Some b, None, None) \<Rightarrow>
          if padded e \<and> c2 = CHR ''='' \<and> c3 = CHR ''='' \<and> r = [] then base64_tail e [a, b] else None
      | _ \<Rightarrow> None)"
| "base64_quanta e s =
     (case those (map (base64_index e) s) of
        None \<Rightarrow> None
      | Some vs \<Rightarrow> if padded e \<and> vs \<noteq> [] then None else base64_tail e vs)"

definition base64_DecodeString :: "base64_encoding \<Rightarrow> string \<Rightarrow> bytes option" where
  "base64_DecodeString e s =
     map_option (map of_nat)
       (base64_quanta e (filter (\<lambda>c. c \<noteq> CHR 0x0A \<and> c \<noteq> CHR 0x0D) s))"

subsection \<open>What is encoded decodes to itself\<close>

definition base64_ok :: "base64_encoding \<Rightarrow> bool" where
  "base64_ok e \<longleftrightarrow> length (alphabet e) = 64 \<and> distinct (alphabet e) \<and>
     CHR 0x0A \<notin> set (alphabet e) \<and> CHR 0x0D \<notin> set (alphabet e) \<and> CHR ''='' \<notin> set (alphabet e)"

lemma base64_ok_RawURL [simp]: "base64_ok RawURLEncoding"
  by (simp add: base64_ok_def RawURLEncoding_def base64_url_def)

lemma base64_ok_Std [simp]: "base64_ok StdEncoding"
  by (simp add: base64_ok_def StdEncoding_def base64_std_def)

lemma list_index_nth: "distinct xs \<Longrightarrow> i < length xs \<Longrightarrow> list_index (xs ! i) xs = Some i"
  by (induction xs arbitrary: i) (auto simp: nth_Cons' less_Suc_eq_0_disj split: nat.splits)

lemma list_index_None: "list_index x xs = None \<longleftrightarrow> x \<notin> set xs"
  by (induction xs) auto

lemma list_index_less: "list_index x xs = Some i \<Longrightarrow> i < length xs"
  by (induction xs arbitrary: i) (auto split: if_splits)

lemma base64_index_nth: "base64_ok e \<Longrightarrow> i < 64 \<Longrightarrow> base64_index e (alphabet e ! i) = Some i"
  by (simp add: base64_index_def base64_ok_def list_index_nth)

lemma base64_index_pad: "base64_ok e \<Longrightarrow> base64_index e CHR ''='' = None"
  by (simp add: base64_index_def base64_ok_def list_index_None)

lemma sextet0_less: "(a :: nat) < 256 \<Longrightarrow> a div 4 < 64"
  by (simp add: div_less_iff_less_mult)

lemma sextet1_less: "(b :: nat) < 256 \<Longrightarrow> a mod 4 * 16 + b div 16 < 64"
  using sextet0_less [of "b div 4"] by linarith

lemma sextet2_less: "(c :: nat) < 256 \<Longrightarrow> b mod 16 * 4 + c div 64 < 64"
  by linarith

lemma sextet3_less: "(a :: nat) mod 64 < 64"
  by simp

lemmas sextets_less = sextet0_less sextet1_less sextet1_less [where b = 0, simplified]
  sextet2_less sextet2_less [where c = 0, simplified] sextet3_less

lemma byte_div_div: "(b :: nat) < 256 \<Longrightarrow> b div 16 div 16 = 0" "(b :: nat) < 256 \<Longrightarrow> b div 64 div 4 = 0"
  by (simp_all add: div_mult2_eq [symmetric])

lemma byte_div_mod: "(b :: nat) < 256 \<Longrightarrow> b div 16 mod 16 = b div 16"
    "(b :: nat) < 256 \<Longrightarrow> b div 64 mod 4 = b div 64"
  by (simp_all add: div_less_iff_less_mult)

lemmas base64_byte_simps = byte_div_div byte_div_mod

lemma base64_quanta_groups:
  assumes "base64_ok e" and "\<forall>v \<in> set vs. v < 256"
  shows "base64_quanta e (base64_groups e vs) = Some vs"
  using assms
  by (induction e vs rule: base64_groups.induct)
     (simp_all add: base64_index_nth base64_index_pad sextets_less base64_byte_simps
        base64_tail_def)

lemma set_base64_groups:
  assumes "base64_ok e" and "\<forall>v \<in> set vs. v < 256"
  shows "set (base64_groups e vs) \<subseteq> set (alphabet e) \<union> {CHR ''=''}"
  using assms
  by (induction e vs rule: base64_groups.induct)
     (auto simp: base64_ok_def sextets_less intro!: nth_mem)

lemma map_of_nat_unat [simp]: "map (of_nat \<circ> unat) (bs :: bytes) = bs"
  by (induction bs) simp_all

lemma base64_Decode_Encode:
  assumes e: "base64_ok e"
  shows "base64_DecodeString e (base64_EncodeToString e bs) = Some bs"
proof -
  let ?vs = "map unat bs"
  have lt: "\<forall>v \<in> set ?vs. v < 256" by auto
  have "filter (\<lambda>c. c \<noteq> CHR 0x0A \<and> c \<noteq> CHR 0x0D) (base64_groups e ?vs) = base64_groups e ?vs"
    using set_base64_groups [OF e lt] e by (auto simp: base64_ok_def filter_id_conv)
  then show ?thesis
    using base64_quanta_groups [OF e lt]
    by (simp add: base64_DecodeString_def base64_EncodeToString_def)
qed

text \<open>The encoded text of the raw encoding has four characters for every three bytes.\<close>

lemma length_base64_groups_raw:
  "\<not> padded e \<Longrightarrow> length (base64_groups e vs) = (4 * length vs + 2) div 3"
  by (induction e vs rule: base64_groups.induct) auto

lemma length_base64_Encode_raw:
  "length (base64_EncodeToString RawURLEncoding bs) = (4 * length bs + 2) div 3"
  by (simp add: base64_EncodeToString_def length_base64_groups_raw RawURLEncoding_def)

end
