(* ===== verification/Rfc3339.thy ===== *)
theory Rfc3339
  imports Prelude "HOL-Library.Monad_Syntax"
begin

text \<open>
  What the source uses of package time: the civil calendar, \<open>AddDate\<close> by years, and RFC 3339, as
  \<open>time.Parse\<close> reads it and as the JSON of a \<open>time.Time\<close> writes it, to the nanosecond and in the
  time zone of the value.  What is written is read back as the same instant.
\<close>

section \<open>The calendar\<close>

text \<open>A year begins on the 1st of March here, and the calendar repeats in eras of 146097 days: four
  centuries of 36524 days and one day more, of 25 cycles of 1461 days each but for the last day of
  all centuries but the fourth, of four years of 365 days and one day more.\<close>

definition days_from_civil :: "int \<Rightarrow> int \<Rightarrow> int \<Rightarrow> int" where
  "days_from_civil y m d =
     (let y = (if m \<le> 2 then y - 1 else y); era = y div 400; yoe = y mod 400;
          doy = (153 * (if m > 2 then m - 3 else m + 9) + 2) div 5 + d - 1
      in era * 146097 + yoe * 365 + yoe div 4 - yoe div 100 + doy - 719468)"

definition civil_from_days :: "int \<Rightarrow> int \<times> int \<times> int" where
  "civil_from_days z =
     (let z = z + 719468; era = z div 146097; doe = z mod 146097;
          c = min 3 (doe div 36524); doc = doe - 36524 * c;
          q = doc div 1461; doq = doc mod 1461;
          y = min 3 (doq div 365); doy = doq - 365 * y;
          mp = (5 * doy + 2) div 153;
          d = doy - (153 * mp + 2) div 5 + 1;
          m = (if mp < 10 then mp + 3 else mp - 9)
      in (era * 400 + 100 * c + 4 * q + y + (if m \<le> 2 then 1 else 0), m, d))"

definition leap_year :: "int \<Rightarrow> bool" where
  "leap_year y \<longleftrightarrow> y mod 4 = 0 \<and> (y mod 100 \<noteq> 0 \<or> y mod 400 = 0)"

definition daysIn :: "int \<Rightarrow> int \<Rightarrow> int" where
  "daysIn m y =
     (if m = 2 then (if leap_year y then 29 else 28)
      else if m \<in> {4, 6, 9, 11} then 30 else 31)"

abbreviation Day :: duration where "Day \<equiv> 24 * Hour"

text \<open>\<open>Time.AddDate\<close> by years, in UTC: the same month, day and time of day of another year, where a
  29th of February that year does not have is the 1st of March.\<close>

definition AddYears :: "int \<Rightarrow> time \<Rightarrow> time" where
  "AddYears n t =
     (case civil_from_days (t div Day) of
        (y, m, d) \<Rightarrow> days_from_civil (y + n) m d * Day + t mod Day)"

section \<open>Reading\<close>

definition digit :: "char \<Rightarrow> nat option" where
  "digit c = (let n = of_char c :: nat in if 48 \<le> n \<and> n \<le> 57 then Some (n - 48) else None)"

definition digits_value :: "string \<Rightarrow> nat" where
  "digits_value s = foldl (\<lambda>a c. 10 * a + the (digit c)) 0 s"

text \<open>\<open>getnum\<close>: two digits, or one where that is allowed.\<close>

fun getnum :: "string \<Rightarrow> bool \<Rightarrow> (nat \<times> string) option" where
  "getnum [] fixed = None"
| "getnum (a # s) fixed =
     (case digit a of
        None \<Rightarrow> None
      | Some x \<Rightarrow>
          (case s of
             [] \<Rightarrow> if fixed then None else Some (x, [])
           | b # r \<Rightarrow>
               (case digit b of
                  Some y \<Rightarrow> Some (10 * x + y, r)
                | None \<Rightarrow> if fixed then None else Some (x, s))))"

definition getyear :: "string \<Rightarrow> (nat \<times> string) option" where
  "getyear s =
     (if length s < 4 \<or> \<not> list_all (\<lambda>c. digit c \<noteq> None) (take 4 s) then None
      else Some (digits_value (take 4 s), drop 4 s))"

fun skip :: "char \<Rightarrow> string \<Rightarrow> string option" where
  "skip c [] = None"
| "skip c (x # s) = (if x = c then Some s else None)"

text \<open>A fraction after the seconds, of which the first nine digits count.\<close>

definition getfrac :: "string \<Rightarrow> nat \<times> string" where
  "getfrac s =
     (case s of
        c # ds \<Rightarrow>
          if c \<in> {CHR ''.'', CHR '',''} \<and> ds \<noteq> [] \<and> digit (hd ds) \<noteq> None then
            let f = take 9 (takeWhile (\<lambda>c. digit c \<noteq> None) ds)
            in (digits_value f * 10 ^ (9 - length f), dropWhile (\<lambda>c. digit c \<noteq> None) ds)
          else (0, s)
      | [] \<Rightarrow> (0, s))"

text \<open>The offset of a zone in minutes.\<close>

definition getzone :: "string \<Rightarrow> (int \<times> string) option" where
  "getzone s =
     (if s \<noteq> [] \<and> hd s = CHR ''Z'' then Some (0, tl s)
      else if length s < 6 \<or> s ! 3 \<noteq> CHR '':'' then None
      else do {
        (hr, _) \<leftarrow> getnum (take 2 (drop 1 s)) True;
        (mm, _) \<leftarrow> getnum (take 2 (drop 4 s)) True;
        if hr > 24 \<or> mm > 60 then None
        else if hd s = CHR ''+'' then Some (int (60 * hr + mm), drop 6 s)
        else if hd s = CHR ''-'' then Some (- int (60 * hr + mm), drop 6 s)
        else None
      })"

text \<open>\<open>time.Parse(time.RFC3339, _)\<close>, or nothing where it is an error.\<close>

definition parse_RFC3339 :: "string \<Rightarrow> time option" where
  "parse_RFC3339 s = do {
     (year, s) \<leftarrow> getyear s;
     s \<leftarrow> skip CHR ''-'' s;
     (month, s) \<leftarrow> getnum s True;
     s \<leftarrow> skip CHR ''-'' s;
     (day, s) \<leftarrow> getnum s True;
     s \<leftarrow> skip CHR ''T'' s;
     (hour, s) \<leftarrow> getnum s False;
     s \<leftarrow> skip CHR '':'' s;
     (min, s) \<leftarrow> getnum s True;
     s \<leftarrow> skip CHR '':'' s;
     (sec, s) \<leftarrow> getnum s True;
     let (nsec, s) = getfrac s in do {
       (zone, s) \<leftarrow> getzone s;
       if s \<noteq> [] \<or> month < 1 \<or> 12 < month \<or> day < 1 \<or> daysIn (int month) (int year) < int day \<or>
          24 \<le> hour \<or> 60 \<le> min \<or> 60 \<le> sec then None
       else Some (days_from_civil (int year) (int month) (int day) * Day + int hour * Hour +
              int min * Minute + int sec * Second + int nsec - zone * Minute)
     }
   }"

section \<open>Writing\<close>

fun dec :: "nat \<Rightarrow> nat \<Rightarrow> string" where
  "dec 0 n = []"
| "dec (Suc w) n = dec w (n div 10) @ [char_of (48 + n mod 10)]"

definition trim_zeros :: "string \<Rightarrow> string" where
  "trim_zeros s = rev (dropWhile (\<lambda>c. c = CHR ''0'') (rev s))"

definition frac :: "nat \<Rightarrow> string" where
  "frac ns = (if ns = 0 then [] else CHR ''.'' # trim_zeros (dec 9 ns))"

definition zone_text :: "int \<Rightarrow> string" where
  "zone_text z =
     (if z = 0 then ''Z''
      else (if z < 0 then ''-'' else ''+'') @ dec 2 (nat (\<bar>z\<bar> div 60)) @ '':'' @ dec 2 (nat (\<bar>z\<bar> mod 60)))"

text \<open>The text of an instant in a zone \<open>z\<close> minutes east of UTC, as \<open>MarshalJSON\<close> has it: the year has
  four digits, and the zone is less than a day.\<close>

definition format_RFC3339 :: "int \<Rightarrow> time \<Rightarrow> string result" where
  "format_RFC3339 z t =
     (let l = t + z * Minute in
      case civil_from_days (l div Day) of
        (y, m, d) \<Rightarrow>
          if y < 0 \<or> 9999 < y then Inl (New ''year outside of range [0,9999]'')
          else if 24 * 60 \<le> \<bar>z\<bar> then Inl (New ''timezone hour outside of range [0,23]'')
          else let s = l mod Day in
            Inr (dec 4 (nat y) @ ''-'' @ dec 2 (nat m) @ ''-'' @ dec 2 (nat d) @ ''T'' @
              dec 2 (nat (s div Hour)) @ '':'' @ dec 2 (nat (s div Minute mod 60)) @ '':'' @
              dec 2 (nat (s div Second mod 60)) @ frac (nat (s mod Second)) @ zone_text z))"

section \<open>The days of the calendar\<close>

lemma month_of_day:
  fixes doy :: int
  assumes "0 \<le> doy" "doy \<le> 365"
  defines "mp \<equiv> (5 * doy + 2) div 153"
  defines "d \<equiv> doy - (153 * mp + 2) div 5 + 1" and "m \<equiv> (if mp < 10 then mp + 3 else mp - 9)"
  shows "1 \<le> m" "m \<le> 12" "(if m > 2 then m - 3 else m + 9) = mp" "1 \<le> d"
    "d \<le> (if m = 2 then (if doy = 365 then 29 else 28) else if m \<in> {4, 6, 9, 11} then 30 else 31)"
proof -
  have mp: "153 * mp \<le> 5 * doy + 2" "5 * doy + 2 < 153 * mp + 153" "0 \<le> mp"
    using assms(1) unfolding mp_def by (auto simp: pos_imp_zdiv_nonneg_iff) 
  moreover have "mp \<le> 11"
    using mp(1) assms(2) by linarith
  ultimately have "mp = int (nat mp)" "nat mp < 12"
    by simp_all
  then obtain k where k: "mp = int k" "k < 12"
    by blast
  then have "k = 0 \<or> k = 1 \<or> k = 2 \<or> k = 3 \<or> k = 4 \<or> k = 5 \<or> k = 6 \<or> k = 7 \<or> k = 8 \<or> k = 9 \<or>
      k = 10 \<or> k = 11"
    by (auto simp: less_Suc_eq numeral_eq_Suc)
  then have "mp = 0 \<or> mp = 1 \<or> mp = 2 \<or> mp = 3 \<or> mp = 4 \<or> mp = 5 \<or> mp = 6 \<or> mp = 7 \<or>
      mp = 8 \<or> mp = 9 \<or> mp = 10 \<or> mp = 11"
    unfolding k(1) by (elim disjE) simp_all
  then show "1 \<le> m" "m \<le> 12" "(if m > 2 then m - 3 else m + 9) = mp" "1 \<le> d"
    "d \<le> (if m = 2 then (if doy = 365 then 29 else 28) else if m \<in> {4, 6, 9, 11} then 30 else 31)"
    using mp(1,2) assms(1,2) unfolding m_def d_def by auto
qed

lemma year_of_day:
  fixes doe :: int
  assumes "0 \<le> doe" "doe < 146097"
  defines "c \<equiv> min 3 (doe div 36524)"
  defines "doc \<equiv> doe - 36524 * c"
  defines "q \<equiv> doc div 1461" and "doq \<equiv> doc mod 1461"
  defines "y \<equiv> min 3 (doq div 365)"
  defines "doy \<equiv> doq - 365 * y" and "yoe \<equiv> 100 * c + 4 * q + y"
  shows "0 \<le> yoe" "yoe < 400" "0 \<le> doy" "doy \<le> 365"
    "doe = yoe * 365 + yoe div 4 - yoe div 100 + doy" "doy = 365 \<Longrightarrow> leap_year (yoe + 1)"
proof -
  have c: "0 \<le> c" "c \<le> 3" "0 \<le> doc" "c < 3 \<Longrightarrow> doc < 36524" "doc \<le> 36524"
    using assms(1,2) unfolding c_def doc_def by (auto simp: min_def)
  have q: "0 \<le> q" "q \<le> 24" "doc = 1461 * q + doq" "0 \<le> doq" "doq < 1461" 
    using c unfolding q_def doq_def by auto
  have y: "0 \<le> y" "y \<le> 3" "0 \<le> doy" "doy \<le> 365" "doy = 365 \<Longrightarrow> y = 3"
  proof -
    have "doq = 365 * (doq div 365) + doq mod 365" "0 \<le> doq mod 365" "doq mod 365 < 365" "0 \<le> doq div 365"
      using q(4) by (simp_all add: pos_imp_zdiv_nonneg_iff)
    then show "0 \<le> y" "y \<le> 3" "0 \<le> doy" "doy \<le> 365" "doy = 365 \<Longrightarrow> y = 3"
      using q(5) unfolding y_def doy_def by (auto simp: min_def split: if_splits)
  qed
  show "0 \<le> yoe" "yoe < 400" "0 \<le> doy" "doy \<le> 365"
    using c q y unfolding yoe_def by auto
  have "yoe div 4 = 25 * c + q" "yoe div 100 = c"
    using c q y unfolding yoe_def by auto
  then show "doe = yoe * 365 + yoe div 4 - yoe div 100 + doy"
    using q(3) doc_def doy_def yoe_def by simp
  show "leap_year (yoe + 1)" if "doy = 365"
  proof -
    have "y = 3" "doq = 1460" using y(5) that doy_def by auto
    moreover have "q = 24 \<Longrightarrow> c = 3"
      using q(3) c \<open>doq = 1460\<close> by force
    moreover have "(100 * c + (4 * q + 4)) mod 100 = 4 * q + 4" if "q \<noteq> 24"
      using q(1,2) that by (simp add: mod_pos_pos_trivial)
    moreover have "(100 * c + (4 * q + 4)) mod 4 = 0"
      by presburger
    ultimately show ?thesis
      using q(1) unfolding yoe_def leap_year_def by (cases "q = 24") (simp_all add: add.assoc)
  qed
qed

lemma leap_year_era: "leap_year (k * 400 + n) = leap_year n"
  unfolding leap_year_def
  using mod_mult_self3 [of "k * 4" 100 n] mod_mult_self3 [of "k * 100" 4 n] by (simp add: mult.assoc)

theorem days_from_civil_from_days:
  assumes "civil_from_days z = (y, m, d)"
  shows "days_from_civil y m d = z" and "1 \<le> m" and "m \<le> 12" and "1 \<le> d" and "d \<le> daysIn m y"
proof -
  define era doe where "era = (z + 719468) div 146097" and "doe = (z + 719468) mod 146097"
  define c where "c = min 3 (doe div 36524)"
  define doc where "doc = doe - 36524 * c"
  define q doq where "q = doc div 1461" and "doq = doc mod 1461"
  define y0 where "y0 = min 3 (doq div 365)"
  define doy yoe where "doy = doq - 365 * y0" and "yoe = 100 * c + 4 * q + y0"
  define mp where "mp = (5 * doy + 2) div 153"
  have doe: "0 \<le> doe" "doe < 146097" and z: "z = era * 146097 + doe - 719468"
    by (simp_all add: doe_def era_def)
  note year = year_of_day [OF doe, folded c_def, folded doc_def, folded q_def doq_def, folded y0_def,
      folded doy_def yoe_def]
  note month = month_of_day [OF year(3,4), folded mp_def]
  have md: "m = (if mp < 10 then mp + 3 else mp - 9)" "d = doy - (153 * mp + 2) div 5 + 1"
    and y: "y = era * 400 + yoe + (if m \<le> 2 then 1 else 0)"
    using assms unfolding civil_from_days_def Let_def era_def [symmetric] doe_def [symmetric] c_def [symmetric]
      doc_def [symmetric] q_def [symmetric] doq_def [symmetric] y0_def [symmetric] doy_def [symmetric] mp_def [symmetric]
    by (auto simp: yoe_def)
  show m: "1 \<le> m" "m \<le> 12" and "1 \<le> d"
    using month(1,2,4) unfolding md .
  have "(if m \<le> 2 then y - 1 else y) = era * 400 + yoe"
    by (simp add: y)
  moreover have "(era * 400 + yoe) div 400 = era" "(era * 400 + yoe) mod 400 = yoe"
    using year(1,2) by simp_all
  moreover have "(if m > 2 then m - 3 else m + 9) = mp"
    using month(3) unfolding md(1) .
  ultimately show "days_from_civil y m d = z"
    unfolding days_from_civil_def Let_def using year(5) z md(2) by simp
  have "leap_year y" if "doy = 365" "m = 2"
  proof -
    have "y = era * 400 + (yoe + 1)" using y that(2) by simp
    then have "leap_year y = leap_year (yoe + 1)"
      using leap_year_era by simp
    then show ?thesis using year(6) [OF that(1)] by simp
  qed
  then show "d \<le> daysIn m y"
    using month(5) unfolding md [symmetric] daysIn_def by (cases "m = 2"; cases "doy = 365") simp_all
qed

section \<open>What is written is read back\<close>

lemma digit_digit [simp]: "n < 10 \<Longrightarrow> digit (char_of (48 + n)) = Some n"
  by (simp add: digit_def Let_def)

lemma digit_other [simp]:
  "digit CHR ''-'' = None" "digit CHR '':'' = None" "digit CHR ''T'' = None" "digit CHR ''Z'' = None"
  "digit CHR ''+'' = None" "digit CHR ''.'' = None" "digit CHR ''0'' = Some 0"
  by (simp_all add: digit_def)

lemma length_dec [simp]: "length (dec w n) = w"
  by (induction w arbitrary: n) simp_all

lemma dec_digits: "c \<in> set (dec w n) \<Longrightarrow> digit c \<noteq> None"
  by (induction w arbitrary: n) (auto simp: digit_digit)

lemma digits_value_snoc: "digits_value (s @ [c]) = 10 * digits_value s + the (digit c)"
  by (simp add: digits_value_def)

lemma digits_value_dec [simp]: "n < 10 ^ w \<Longrightarrow> digits_value (dec w n) = n"
  by (induction w arbitrary: n) (simp_all add: digits_value_snoc, simp add: digits_value_def)

lemma digits_value_zeros: "digits_value (s @ replicate k CHR ''0'') = digits_value s * 10 ^ k"
  by (induction k) (simp_all add: replicate_append_same [symmetric] digits_value_snoc flip: append_assoc)

lemma getnum_dec [simp]: "n < 100 \<Longrightarrow> getnum (dec 2 n @ r) fixed = Some (n, r)"
  by (simp add: numeral_2_eq_2)

lemma getyear_dec [simp]: "n < 10000 \<Longrightarrow> getyear (dec 4 n @ r) = Some (n, r)"
  using dec_digits by (auto simp: getyear_def list_all_iff)

lemma trim_zeros_append: "\<exists>k. s = trim_zeros s @ replicate k CHR ''0''"
proof -
  let ?z = "takeWhile (\<lambda>c. c = CHR ''0'') (rev s)"
  have "?z = replicate (length ?z) CHR ''0''"
    by (metis (full_types) replicate_length_same set_takeWhileD)
  moreover have "s = trim_zeros s @ rev ?z"
    unfolding trim_zeros_def by (metis rev_append rev_rev_ident takeWhile_dropWhile_id)
  ultimately show ?thesis
    by (metis rev_replicate)
qed

lemma getfrac_frac:
  assumes "ns < 10 ^ 9" and "r = [] \<or> digit (hd r) = None \<and> hd r \<notin> {CHR ''.'', CHR '',''}"
  shows "getfrac (frac ns @ r) = (ns, r)"
proof (cases "ns = 0")
  case True
  then show ?thesis
    using assms(2) by (cases r) (auto simp: frac_def getfrac_def)
next
  case False
  define f where "f = trim_zeros (dec 9 ns)"
  obtain k where k: "dec 9 ns = f @ replicate k CHR ''0''"
    using trim_zeros_append unfolding f_def by blast
  then have len: "length f + k = 9"
    by (metis length_append length_dec length_replicate)
  have "ns = digits_value f * 10 ^ k"
    using digits_value_dec [OF assms(1)] unfolding k digits_value_zeros by simp
  then have val: "digits_value f * 10 ^ (9 - length f) = ns" and "f \<noteq> []"
    using len False by (auto simp: digits_value_def)
  have digits: "\<forall>c \<in> set f. digit c \<noteq> None"
    using dec_digits [of _ 9 ns] unfolding k by auto
  then have "takeWhile (\<lambda>c. digit c \<noteq> None) (f @ r) = f" "dropWhile (\<lambda>c. digit c \<noteq> None) (f @ r) = r"
    using assms(2) by (cases r; auto)+
  moreover have "frac ns @ r = CHR ''.'' # f @ r"
    using False by (simp add: frac_def f_def)
  ultimately show ?thesis
    using val \<open>f \<noteq> []\<close> digits len by (auto simp: getfrac_def Let_def)
qed

lemma getzone_text:
  assumes "\<bar>z\<bar> < 24 * 60"
  shows "getzone (zone_text z) = Some (z, [])"
proof (cases "z = 0")
  case False
  define a b where "a = nat (\<bar>z\<bar> div 60)" and "b = nat (\<bar>z\<bar> mod 60)"
  have "0 \<le> \<bar>z\<bar> div 60"
    by (rule pos_imp_zdiv_nonneg_iff [THEN iffD2]) simp_all
  then have ab: "int a = \<bar>z\<bar> div 60" "int b = \<bar>z\<bar> mod 60"
    unfolding a_def b_def by (simp_all only: nat_0_le pos_mod_sign zero_less_numeral)
  then have n: "a < 24" "b < 60" and sum: "int (60 * a + b) = \<bar>z\<bar>"
    using assms div_mult_mod_eq [of "\<bar>z\<bar>" 60] pos_mod_bound [of 60 "\<bar>z\<bar>"] by linarith+
  have "getnum (dec 2 a) True = Some (a, [])" "getnum (dec 2 b) True = Some (b, [])"
    using getnum_dec [of a "[]"] getnum_dec [of b "[]"] n by simp_all
  moreover obtain p q u v where "dec 2 a = [p, q]" "dec 2 b = [u, v]"
    by (simp add: numeral_2_eq_2)
  moreover have "z = (if z < 0 then - int (60 * a + b) else int (60 * a + b))"
    unfolding sum by simp
  ultimately show ?thesis
    using False n unfolding zone_text_def getzone_def a_def [symmetric] b_def [symmetric]
    by (cases "z < 0") (simp_all split: if_splits)
qed (simp add: zone_text_def getzone_def)

lemma hd_zone: "hd (zone_text z) \<in> {CHR ''Z'', CHR ''+'', CHR ''-''}" "zone_text z \<noteq> []"
  by (simp_all add: zone_text_def)

lemma digit_zone: "digit (hd (zone_text z)) = None" "hd (zone_text z) \<notin> {CHR ''.'', CHR '',''}"
  using hd_zone(1) [of z] by auto

lemma clock_of_day:
  assumes "0 \<le> s" "s < Day"
  shows "s div Hour * Hour + s div Minute mod 60 * Minute + s div Second mod 60 * Second + s mod Second = s"
    "0 \<le> s div Hour" "s div Hour < 24"
proof -
  have "s div Minute = s div Second div 60" "s div Hour = s div Second div 60 div 60"
    by (simp_all add: zdiv_zmult2_eq [symmetric])
  moreover have "s div Second div 60 div 60 * 3600 + s div Second div 60 mod 60 * 60 + s div Second mod 60 = s div Second"
    using div_mult_mod_eq [of "s div Second" 60] div_mult_mod_eq [of "s div Second div 60" 60] by linarith
  ultimately have "s div Hour * 3600 + s div Minute mod 60 * 60 + s div Second mod 60 = s div Second"
    by metis
  moreover have "s div Second * Second + s mod Second = s"
    by (rule div_mult_mod_eq)
  ultimately show "s div Hour * Hour + s div Minute mod 60 * Minute + s div Second mod 60 * Second + s mod Second = s"
    by linarith
  show "0 \<le> s div Hour" "s div Hour < 24"
    using assms by (simp_all add: pos_imp_zdiv_nonneg_iff)
qed

lemma parse_text:
  assumes "y < 10000" "1 \<le> m" "m \<le> 12" "1 \<le> d" "int d \<le> daysIn (int m) (int y)" "h < 24" "mi < 60" "sec < 60"
    "ns < 10 ^ 9" "\<bar>z\<bar> < 24 * 60"
  shows "parse_RFC3339 (dec 4 y @ ''-'' @ dec 2 m @ ''-'' @ dec 2 d @ ''T'' @ dec 2 h @ '':'' @ dec 2 mi @ '':'' @
        dec 2 sec @ frac ns @ zone_text z) =
      Some (days_from_civil (int y) (int m) (int d) * Day + int h * Hour + int mi * Minute + int sec * Second +
        int ns - z * Minute)"
proof -
  have "d < 100" "m < 100" "h < 100" "mi < 100" "sec < 100"
    using assms by (auto simp: daysIn_def split: if_splits)
  moreover have "getfrac (frac ns @ zone_text z) = (ns, zone_text z)"
    using getfrac_frac [OF assms(9)] digit_zone by blast
  ultimately show ?thesis
    using assms(1-8) getzone_text [OF assms(10)] by (simp add: parse_RFC3339_def)
qed

theorem parse_format_RFC3339:
  assumes "format_RFC3339 z t = Inr s"
  shows "parse_RFC3339 s = Some t"
proof -
  define l where "l = t + z * Minute"
  define sod where "sod = l mod Day"
  obtain y m d where ymd: "civil_from_days (l div Day) = (y, m, d)"
    by (metis prod_cases3)
  note cal = days_from_civil_from_days [OF ymd]
  have y: "0 \<le> y" "y \<le> 9999" and z: "\<bar>z\<bar> < 24 * 60"
    and s: "s = dec 4 (nat y) @ ''-'' @ dec 2 (nat m) @ ''-'' @ dec 2 (nat d) @ ''T'' @
              dec 2 (nat (sod div Hour)) @ '':'' @ dec 2 (nat (sod div Minute mod 60)) @ '':'' @
              dec 2 (nat (sod div Second mod 60)) @ frac (nat (sod mod Second)) @ zone_text z"
    using assms unfolding format_RFC3339_def Let_def l_def [symmetric] sod_def [symmetric] ymd prod.case
    by (simp_all split: if_splits)
  have sod: "0 \<le> sod" "sod < Day"
    unfolding sod_def by simp_all
  define H Mi S N where "H = sod div Hour" and "Mi = sod div Minute mod 60" and "S = sod div Second mod 60"
    and "N = sod mod Second"
  note clock = clock_of_day [OF sod, folded H_def Mi_def S_def N_def]
  have clock': "0 \<le> Mi" "Mi < 60" "0 \<le> S" "S < 60" "0 \<le> N" "N < Second"
    by (simp_all add: Mi_def S_def N_def)
  have "l = days_from_civil y m d * Day + sod"
    using cal(1) by (simp add: sod_def)
  then have t: "t = days_from_civil y m d * Day + H * Hour + Mi * Minute + S * Second + N - z * Minute"
    using clock(1) l_def by linarith
  have "nat y < 10000" "1 \<le> nat m" "nat m \<le> 12" "1 \<le> nat d" "int (nat d) \<le> daysIn (int (nat m)) (int (nat y))"
      "nat H < 24" "nat Mi < 60" "nat S < 60" "nat N < 10 ^ 9"
    using y cal(2-5) clock clock' by simp_all
  from parse_text [OF this z] show ?thesis
    unfolding s H_def [symmetric] Mi_def [symmetric] S_def [symmetric] N_def [symmetric] t
    using y cal(2,4) clock clock' by simp
qed
lemma set_trim_zeros: "set (trim_zeros s) \<subseteq> set s"
  unfolding trim_zeros_def by (auto dest: set_dropWhileD)

lemma set_frac: "c \<in> set (frac ns) \<Longrightarrow> c = CHR ''.'' \<or> digit c \<noteq> None"
  using set_trim_zeros [of "dec 9 ns"] dec_digits by (auto simp: frac_def split: if_splits)

lemma set_zone_text: "c \<in> set (zone_text z) \<Longrightarrow> c \<in> set ''Z+-:'' \<or> digit c \<noteq> None"
  using dec_digits by (auto simp: zone_text_def split: if_splits)

text \<open>The characters of a time are those of a number and a few signs.\<close>

definition time_char :: "char \<Rightarrow> bool" where
  "time_char c \<longleftrightarrow> digit c \<noteq> None \<or> c \<in> set ''Z+-:T.''"

lemma format_RFC3339_chars:
  assumes "format_RFC3339 z t = Inr s"
  shows "list_all time_char s"
proof -
  have "list_all time_char (dec w n)" "list_all time_char (frac n)" "list_all time_char (zone_text z)" for w n
    using dec_digits set_frac set_zone_text by (fastforce simp: list_all_iff time_char_def)+
  then show ?thesis
    using assms unfolding format_RFC3339_def Let_def
    by (auto simp: time_char_def split: prod.splits if_splits)
qed

end
