(* ===== verification/Keyring.thy ===== *)
theory Keyring
  imports Primitives Encoding Rfc3339 "HOL-Library.AList" "HOL-Library.Multiset"
begin

text \<open>
  \<open>cookie_keyring.go\<close>: the keys that seal cookie values.  The construction of a
  keyring with its startup errors, the choice of the sealing key (made again at every
  call, by the clock), and the keyring read from the environment.  The invariant
  \<open>keyring_inv\<close> is what every constructed keyring satisfies and what the envelope
  theory relies on.
\<close>

section \<open>Keys and keyrings\<close>

definition cookieKeySecretLength :: nat where
  "cookieKeySecretLength = 32"

definition cookieKeyIDLength :: nat where
  "cookieKeyIDLength = 8"

definition cookieKeyIDLabel :: string where
  "cookieKeyIDLabel = ''howdah-cookie-key-v1''"

definition DefaultCookieKeyPrefix :: string where
  "DefaultCookieKeyPrefix = ''COOKIE_KEY_''"

record CookieKey =
  UseAfter :: time
  Secret :: bytes

record cookieKey =
  kid :: bytes
  useAfter :: time
  key_aead :: aead

text \<open>The map from key ids to keys is an association list; \<open>byUseAfter\<close> holds every key,
  latest first.\<close>

record CookieKeyring =
  kr_keys :: "(bytes \<times> cookieKey) list"
  byUseAfter :: "cookieKey list"

record cookieKeyInstant =
  seconds :: int
  nanoseconds :: int

definition newCookieKeyInstant :: "time \<Rightarrow> cookieKeyInstant" where
  "newCookieKeyInstant t = \<lparr>seconds = t div Second, nanoseconds = t mod Second\<rparr>"

definition cookieKeyID :: "crypto \<Rightarrow> bytes \<Rightarrow> bytes" where
  "cookieKeyID C secret =
     take cookieKeyIDLength (Sum256 C (bytes_of_string cookieKeyIDLabel @ secret))"

section \<open>The sealing key\<close>

text \<open>A nil keyring has no sealing key; otherwise it is the first key of the sorted list whose
  time has come.\<close>

definition sealingKey :: "CookieKeyring option \<Rightarrow> time \<Rightarrow> cookieKey option" where
  "sealingKey k now =
     (case k of
        None \<Rightarrow> None
      | Some kr \<Rightarrow> find (\<lambda>key. \<not> useAfter key > now) (byUseAfter kr))"

definition SealingKey :: "CookieKeyring option \<Rightarrow> time \<Rightarrow> string \<times> time" where
  "SealingKey k now =
     (case sealingKey k now of
        None \<Rightarrow> ([], zeroTime)
      | Some key \<Rightarrow> (hex_EncodeToString (kid key), useAfter key))"

section \<open>Construction\<close>

text \<open>The loop over the labelled keys.  The two maps remember which label a key id and a
  use-after instant came from.\<close>

fun newCookieKeyring_loop ::
  "crypto \<Rightarrow> (CookieKey \<times> string) list \<Rightarrow> CookieKeyring \<Rightarrow>
   (bytes \<rightharpoonup> string) \<Rightarrow> (cookieKeyInstant \<rightharpoonup> string) \<Rightarrow> CookieKeyring result" where
  "newCookieKeyring_loop C [] k kidLabels useAfterLabels = Inr k"
| "newCookieKeyring_loop C ((key, label) # rest) k kidLabels useAfterLabels =
     (if length (Secret key) \<noteq> cookieKeySecretLength then
        Inl (New (label @ '': secret must be 32 bytes, got '' @ Itoa (length (Secret key))))
      else case NewCipherGCM C (Secret key) of
        Inl e \<Rightarrow> Inl (Errorf (label @ '': create cipher'') [e])
      | Inr A \<Rightarrow>
          let entry = \<lparr>kid = cookieKeyID C (Secret key), useAfter = UseAfter key, key_aead = A\<rparr>;
              instant = newCookieKeyInstant (UseAfter key)
          in case kidLabels (kid entry) of
               Some other \<Rightarrow> Inl (New (other @ '' and '' @ label @ '' hold the same secret, key id ''
                 @ hex_EncodeToString (kid entry)))
             | None \<Rightarrow>
               (case useAfterLabels instant of
                  Some other \<Rightarrow> Inl (New (other @ '' and '' @ label @
                    '' share the use-after, so the sealing key would be a coin flip''))
                | None \<Rightarrow>
                    newCookieKeyring_loop C rest
                      \<lparr>kr_keys = AList.update (kid entry) entry (kr_keys k),
                       byUseAfter = byUseAfter k @ [entry]\<rparr>
                      (kidLabels(kid entry \<mapsto> label)) (useAfterLabels(instant \<mapsto> label))))"

declare newCookieKeyring_loop.simps(2) [simp del]

text \<open>The options of a keyring: the prefix of its variables, and the logger, where none at all means
  the default one.\<close>

datatype logger = DefaultLogger | AppLogger string

record cookieKeyringConf =
  conf_prefix :: string
  conf_logger :: "logger option"

type_synonym CookieKeyringOption = "cookieKeyringConf \<Rightarrow> cookieKeyringConf"

definition resolveCookieKeyringConf :: "CookieKeyringOption list \<Rightarrow> cookieKeyringConf" where
  "resolveCookieKeyringConf opts =
     (let conf = foldl (\<lambda>conf opt. opt conf)
        \<lparr>conf_prefix = DefaultCookieKeyPrefix, conf_logger = Some DefaultLogger\<rparr> opts
      in if conf_logger conf = None then conf\<lparr>conf_logger := Some DefaultLogger\<rparr> else conf)"

definition WithCookieKeyPrefix :: "string \<Rightarrow> CookieKeyringOption" where
  "WithCookieKeyPrefix prefix = (\<lambda>conf. conf\<lparr>conf_prefix := prefix\<rparr>)"

definition WithCookieKeyLogger :: "logger option \<Rightarrow> CookieKeyringOption" where
  "WithCookieKeyLogger logger = (\<lambda>conf. conf\<lparr>conf_logger := logger\<rparr>)"

text \<open>The line logged once a sealing key is selected: who logs it, the key's id and its use-after, the
  size of the keyring, and the key that takes over next.\<close>

record sealing_log =
  log_logger :: "logger option"
  log_kid :: string
  log_use_after :: time
  log_keyring_size :: nat
  log_next :: "(string \<times> time) option"

definition newCookieKeyring ::
  "crypto \<Rightarrow> time \<Rightarrow> CookieKey list \<Rightarrow> string list \<Rightarrow> cookieKeyringConf \<Rightarrow>
   (CookieKeyring \<times> sealing_log) result" where
  "newCookieKeyring C now keys labels conf =
     (if keys = [] then Inl (New ''no cookie keys configured'')
      else case newCookieKeyring_loop C (zip keys labels) \<lparr>kr_keys = [], byUseAfter = []\<rparr>
                  Map.empty Map.empty of
        Inl e \<Rightarrow> Inl e
      | Inr k0 \<Rightarrow>
          let k = k0\<lparr>byUseAfter := sort_key (\<lambda>e. - useAfter e) (byUseAfter k0)\<rparr>
          in case sealingKey (Some k) now of
               None \<Rightarrow> Inl (New (''no cookie key is eligible for sealing: ''
                        @ ''every configured key is dated in the future''))
             | Some sealWith \<Rightarrow>
                 Inr (k,
                   \<lparr>log_logger = conf_logger conf, log_kid = hex_EncodeToString (kid sealWith),
                    log_use_after = useAfter sealWith,
                    log_keyring_size = length (kr_keys k),
                    log_next =
                      (case list_index (kid sealWith) (map kid (byUseAfter k)) of
                         Some i \<Rightarrow> if i > 0 then
                             let next = byUseAfter k ! (i - 1)
                             in Some (hex_EncodeToString (kid next), useAfter next)
                           else None
                       | None \<Rightarrow> None)\<rparr>))"

definition NewCookieKeyring ::
  "crypto \<Rightarrow> time \<Rightarrow> CookieKey list \<Rightarrow> CookieKeyringOption list \<Rightarrow> (CookieKeyring \<times> sealing_log) result" where
  "NewCookieKeyring C now keys opts =
     newCookieKeyring C now keys
       (map (\<lambda>i. ''cookie key '' @ Itoa (i + 1)) [0..<length keys]) (resolveCookieKeyringConf opts)"

section \<open>The keyring of the environment\<close>

definition parseCookieKey :: "string \<Rightarrow> CookieKey result" where
  "parseCookieKey value =
     (case Cut value CHR ''_'' of
        None \<Rightarrow> Inl (New (''expected an RFC 3339 timestamp and a base64 secret ''
                  @ ''separated by an underscore''))
      | Some (timestamp, secret) \<Rightarrow>
          (case parse_RFC3339 timestamp of
             None \<Rightarrow> Inl (New ''parse use-after timestamp'')
           | Some t \<Rightarrow>
               (case base64_DecodeString StdEncoding secret of
                  None \<Rightarrow> Inl (New ''decode secret'')
                | Some data \<Rightarrow>
                    if length data \<noteq> cookieKeySecretLength then
                      Inl (New (''secret must be 32 bytes, got '' @ Itoa (length data)))
                    else Inr \<lparr>UseAfter = t, Secret = data\<rparr>)))"

text \<open>The environment is the list of its \<open>name=value\<close> strings.\<close>

definition env_name :: "string \<Rightarrow> string" where
  "env_name kv = (case Cut kv CHR ''='' of None \<Rightarrow> kv | Some (name, v) \<Rightarrow> name)"

definition Getenv :: "string list \<Rightarrow> string \<Rightarrow> string" where
  "Getenv environ name =
     (case find (\<lambda>kv. env_name kv = name) environ of
        None \<Rightarrow> []
      | Some kv \<Rightarrow> (case Cut kv CHR ''='' of None \<Rightarrow> [] | Some (n, v) \<Rightarrow> v))"

fun parseCookieKeys ::
  "string list \<Rightarrow> string list \<Rightarrow> CookieKey list result" where
  "parseCookieKeys environ [] = Inr []"
| "parseCookieKeys environ (name # names) =
     (case parseCookieKey (Getenv environ name) of
        Inl e \<Rightarrow> Inl (Errorf name [e])
      | Inr key \<Rightarrow>
          (case parseCookieKeys environ names of
             Inl e \<Rightarrow> Inl e
           | Inr keys \<Rightarrow> Inr (key # keys)))"

definition cookieKeyNames :: "string list \<Rightarrow> string \<Rightarrow> string list" where
  "cookieKeyNames environ prefix =
     sort (filter (\<lambda>name. HasPrefix name prefix \<and> length name > length prefix)
       (map env_name environ))"

definition CookieKeyringFromEnv ::
  "crypto \<Rightarrow> time \<Rightarrow> string list \<Rightarrow> CookieKeyringOption list \<Rightarrow>
   (CookieKeyring \<times> sealing_log) result" where
  "CookieKeyringFromEnv C now environ opts =
     (let conf = resolveCookieKeyringConf opts; prefix = conf_prefix conf in
      if prefix = [] then Inl (New ''the cookie key environment prefix must not be empty'')
      else let names = cookieKeyNames environ prefix in
        if names = [] then
          Inl (New (''no cookie keys configured, expected at least one '' @ prefix @
                ''* environment variable''))
        else case parseCookieKeys environ names of
            Inl e \<Rightarrow> Inl e
          | Inr keys \<Rightarrow> newCookieKeyring C now keys names conf)"

definition GenerateCookieKey :: "'a world_scheme \<Rightarrow> string result \<times> 'a world_scheme" where
  "GenerateCookieKey w =
     (case rand_Read cookieKeySecretLength w of
        (Inl e, w') \<Rightarrow> (Inl (Errorf ''read random bytes'' [e]), w')
      | (Inr secret, w') \<Rightarrow> (Inr (base64_EncodeToString StdEncoding secret), w'))"

section \<open>The invariant of a constructed keyring\<close>

definition keyring_inv :: "CookieKeyring \<Rightarrow> bool" where
  "keyring_inv k \<longleftrightarrow>
     sorted_wrt (\<lambda>a b. useAfter a > useAfter b) (byUseAfter k) \<and>
     distinct (map kid (byUseAfter k)) \<and>
     (\<forall>i e. map_of (kr_keys k) i = Some e \<longleftrightarrow> e \<in> set (byUseAfter k) \<and> kid e = i) \<and>
     (\<forall>e \<in> set (byUseAfter k). length (kid e) = cookieKeyIDLength \<and> aead_contract (key_aead e))"

lemma keyring_invD:
  assumes "keyring_inv k" and "e \<in> set (byUseAfter k)"
  shows "map_of (kr_keys k) (kid e) = Some e" "length (kid e) = cookieKeyIDLength"
    "aead_contract (key_aead e)"
  using assms by (auto simp: keyring_inv_def)

lemma keyring_inv_lookup:
  "keyring_inv k \<Longrightarrow> map_of (kr_keys k) i = Some e \<Longrightarrow> e \<in> set (byUseAfter k) \<and> kid e = i"
  by (auto simp: keyring_inv_def)

text \<open>The entry the loop makes of a key.\<close>

definition mk_entry :: "crypto \<Rightarrow> CookieKey \<Rightarrow> cookieKey" where
  "mk_entry C key = \<lparr>kid = cookieKeyID C (Secret key), useAfter = UseAfter key,
     key_aead = projr (NewCipherGCM C (Secret key))\<rparr>"

definition valid_key :: "crypto \<Rightarrow> CookieKey \<Rightarrow> bool" where
  "valid_key C key \<longleftrightarrow> length (Secret key) = cookieKeySecretLength \<and>
     (\<exists>A. NewCipherGCM C (Secret key) = Inr A)"

lemma newCookieKeyInstant_inject: "newCookieKeyInstant s = newCookieKeyInstant t \<longleftrightarrow> s = t"
proof
  assume "newCookieKeyInstant s = newCookieKeyInstant t"
  then have "s div Second = t div Second" "s mod Second = t mod Second"
    by (simp_all add: newCookieKeyInstant_def)
  then show "s = t" by (metis div_mult_mod_eq)
qed simp

lemma newCookieKeyring_loop_Inr:
  "newCookieKeyring_loop C kls k kl ul = Inr k' \<longleftrightarrow>
     (\<forall>key \<in> fst ` set kls. valid_key C key) \<and>
     distinct (map (kid \<circ> mk_entry C \<circ> fst) kls) \<and>
     (\<forall>key \<in> fst ` set kls. kl (kid (mk_entry C key)) = None) \<and>
     distinct (map (UseAfter \<circ> fst) kls) \<and>
     (\<forall>key \<in> fst ` set kls. ul (newCookieKeyInstant (UseAfter key)) = None) \<and>
     k' = \<lparr>kr_keys = fold (\<lambda>e. AList.update (kid e) e) (map (mk_entry C \<circ> fst) kls) (kr_keys k),
           byUseAfter = byUseAfter k @ map (mk_entry C \<circ> fst) kls\<rparr>"
proof (induction kls arbitrary: k kl ul)
  case Nil
  then show ?case by auto
next
  case (Cons kl0 rest)
  obtain key label where kl0: "kl0 = (key, label)" by (cases kl0)
  show ?case
  proof (cases "valid_key C key \<and> kl (kid (mk_entry C key)) = None \<and>
      ul (newCookieKeyInstant (UseAfter key)) = None")
    case False
    then show ?thesis
      by (auto simp: kl0 newCookieKeyring_loop.simps(2) valid_key_def mk_entry_def Let_def
          split: sum.splits option.splits)
  next
    case True
    then obtain A where A: "NewCipherGCM C (Secret key) = Inr A"
      and len: "length (Secret key) = cookieKeySecretLength"
      by (auto simp: valid_key_def)
    have e: "\<lparr>kid = cookieKeyID C (Secret key), useAfter = UseAfter key, key_aead = A\<rparr> = mk_entry C key"
      by (simp add: mk_entry_def A)
    have kid_e: "cookieKeyID C (Secret key) = kid (mk_entry C key)"
      by (simp add: mk_entry_def)
    show ?thesis
      using True
      by (auto simp: kl0 newCookieKeyring_loop.simps(2) Let_def A len e Cons.IH
          newCookieKeyInstant_inject image_iff simp flip: kid_e split: if_splits)
  qed
qed

lemma map_of_fold_update:
  "distinct (map kid es) \<Longrightarrow>
     map_of (fold (\<lambda>e. AList.update (kid e) e) es m) =
     map_of m ++ map_of (map (\<lambda>e. (kid e, e)) es)"
proof (induction es arbitrary: m)
  case (Cons e es)
  then have "kid e \<notin> dom (map_of (map (\<lambda>e. (kid e, e)) es))"
    by (auto simp: dom_map_of_conv_image_fst)
  with Cons show ?case
    by (simp add: AList.update_conv' map_add_upd_left)
       (rule ext, simp add: map_add_def map_of_eq_None_iff split: option.split)
qed simp

lemma map_of_kids:
  "distinct (map kid es) \<Longrightarrow>
     map_of (map (\<lambda>e. (kid e, e)) es) i = Some e \<longleftrightarrow> e \<in> set es \<and> kid e = i"
  by (induction es) (auto simp: image_iff)

lemma sort_key_desc:
  fixes f :: "'a \<Rightarrow> int"
  assumes "distinct (map f es)"
  shows "sorted_wrt (\<lambda>a b. f a > f b) (sort_key (\<lambda>e. - f e) es)"
proof -
  let ?s = "sort_key (\<lambda>e. - f e) es"
  have "sorted (map (\<lambda>e. - f e) ?s)"
    by simp
  moreover have "distinct (map (\<lambda>e. - f e) ?s)"
  proof -
    have "inj_on (\<lambda>e. - f e) (set es)" "distinct es"
      using assms by (auto simp: distinct_map inj_on_def)
    then show ?thesis by (simp add: distinct_map)
  qed
  ultimately have "sorted_wrt (<) (map (\<lambda>e. - f e) ?s)"
    by (simp add: strict_sorted_iff)
  then show ?thesis
    by (simp add: sorted_wrt_map)
qed

lemma distinct_map_sort_key: "distinct (map f (sort_key g es)) = distinct (map f es)"
  by (simp add: distinct_map)

lemma find_Some_sorted:
  "find P xs = Some x \<Longrightarrow> x \<in> set xs \<and> P x"
  by (induction xs) (auto split: if_splits)

text \<open>On a sorted list the walk stops at the latest key whose time has come.\<close>

lemma find_latest:
  assumes "sorted_wrt (\<lambda>a b. useAfter a > useAfter b) ks"
  shows "find (\<lambda>key. \<not> useAfter key > now) ks = Some e \<longleftrightarrow>
    e \<in> set ks \<and> useAfter e \<le> now \<and> (\<forall>e' \<in> set ks. useAfter e' \<le> now \<longrightarrow> useAfter e' \<le> useAfter e)"
  using assms by (induction ks) (auto simp: not_less)

lemma find_eq_None: "find P ks = None \<longleftrightarrow> (\<forall>e \<in> set ks. \<not> P e)"
  by (simp add: find_None_iff2 [symmetric] find_None_iff Ball_def)

lemma sealingKey_Some_in: "sealingKey (Some k) now = Some e \<Longrightarrow> e \<in> set (byUseAfter k)"
  by (auto simp: sealingKey_def dest: find_Some_sorted)

lemma sealingKey_None: "sealingKey (Some k) now = None \<longleftrightarrow> (\<forall>e \<in> set (byUseAfter k). now < useAfter e)"
  by (auto simp: sealingKey_def find_eq_None)

lemma newCookieKeyring_loop_inv:
  assumes C: "crypto_contract C"
    and loop: "newCookieKeyring_loop C kls \<lparr>kr_keys = [], byUseAfter = []\<rparr> Map.empty Map.empty = Inr k0"
  shows "keyring_inv (k0\<lparr>byUseAfter := sort_key (\<lambda>e. - useAfter e) (byUseAfter k0)\<rparr>)"
proof -
  let ?es = "map (mk_entry C \<circ> fst) kls"
  have valid: "\<forall>key \<in> fst ` set kls. valid_key C key"
    and kids: "distinct (map kid ?es)" and instants: "distinct (map useAfter ?es)"
    and k0: "k0 = \<lparr>kr_keys = fold (\<lambda>e. AList.update (kid e) e) ?es [], byUseAfter = ?es\<rparr>"
    using loop by (simp_all add: newCookieKeyring_loop_Inr comp_def mk_entry_def)
  have len: "length (kid (mk_entry C key)) = cookieKeyIDLength" for key
    using crypto_contract.length_Sum256 [OF C]
    by (simp add: mk_entry_def cookieKeyID_def cookieKeyIDLength_def)
  have aead: "aead_contract (key_aead (mk_entry C key))" if "key \<in> fst ` set kls" for key
    using valid that crypto_contract.cipher_contract [OF C]
    by (auto simp: valid_key_def mk_entry_def)
  have "map_of (kr_keys k0) i = Some e \<longleftrightarrow> e \<in> set ?es \<and> kid e = i" for i e
    using map_of_fold_update [OF kids, of "[]"] map_of_kids [OF kids] by (simp add: k0)
  moreover have "\<forall>e \<in> set ?es. length (kid e) = cookieKeyIDLength \<and> aead_contract (key_aead e)"
    using len aead by auto
  ultimately show ?thesis
    using sort_key_desc [OF instants] kids
    by (simp add: keyring_inv_def k0 distinct_map_sort_key del: map_map)
qed

lemma newCookieKeyring_Inr:
  "newCookieKeyring C now keys labels conf = Inr (k, l) \<Longrightarrow>
     \<exists>k0 e. newCookieKeyring_loop C (zip keys labels) \<lparr>kr_keys = [], byUseAfter = []\<rparr>
               Map.empty Map.empty = Inr k0 \<and>
           k = k0\<lparr>byUseAfter := sort_key (\<lambda>e. - useAfter e) (byUseAfter k0)\<rparr> \<and>
           sealingKey (Some k) now = Some e"
  by (auto simp: newCookieKeyring_def Let_def split: if_splits sum.splits option.splits)

lemma find_latest_key:
  assumes "keyring_inv k"
  shows "sealingKey (Some k) now = Some e \<longleftrightarrow>
    e \<in> set (byUseAfter k) \<and> useAfter e \<le> now \<and>
    (\<forall>e' \<in> set (byUseAfter k). useAfter e' \<le> now \<longrightarrow> useAfter e' \<le> useAfter e)"
  using assms by (simp add: sealingKey_def keyring_inv_def find_latest)

lemma sealingKey_monotone_fact:
  assumes k: "keyring_inv k" and a: "sealingKey (Some k) now = Some a" and "now \<le> now'"
  shows "\<exists>b. sealingKey (Some k) now' = Some b \<and> useAfter a \<le> useAfter b"
proof -
  have a': "a \<in> set (byUseAfter k)" "useAfter a \<le> now'"
    using a assms(3) by (auto simp: find_latest_key [OF k])
  then have "sealingKey (Some k) now' \<noteq> None"
    unfolding sealingKey_None by (meson not_le)
  then obtain b where "sealingKey (Some k) now' = Some b"
    by blast
  then show ?thesis
    using a' by (auto simp: find_latest_key [OF k])
qed

text \<open>What the loop over the keys accepts, and the keyring it builds.\<close>

definition entries :: "crypto \<Rightarrow> CookieKey list \<Rightarrow> cookieKey list" where
  "entries C keys = map (mk_entry C) keys"

lemma newCookieKeyring_loop_all:
  assumes C: "crypto_contract C" and labels: "length labels = length keys"
  shows "newCookieKeyring_loop C (zip keys labels) \<lparr>kr_keys = [], byUseAfter = []\<rparr> Map.empty Map.empty = Inr k \<longleftrightarrow>
    (\<forall>key \<in> set keys. length (Secret key) = 32) \<and> distinct (map (cookieKeyID C \<circ> Secret) keys) \<and>
    distinct (map UseAfter keys) \<and>
    k = \<lparr>kr_keys = fold (\<lambda>e. AList.update (kid e) e) (entries C keys) [], byUseAfter = entries C keys\<rparr>"
proof -
  have fst: "map fst (zip keys labels) = keys"
    using labels by simp
  have map_fst: "map (f \<circ> fst) (zip keys labels) = map f keys" for f :: "CookieKey \<Rightarrow> 'b"
    by (metis fst map_map)
  have es: "map (mk_entry C \<circ> fst) (zip keys labels) = entries C keys"
    by (simp only: map_fst entries_def)
  have ua: "map (UseAfter \<circ> fst) (zip keys labels) = map UseAfter keys"
    by (simp only: map_fst)
  have kids: "map (kid \<circ> mk_entry C \<circ> fst) (zip keys labels) = map (cookieKeyID C \<circ> Secret) keys"
    by (simp only: map_fst) (simp add: mk_entry_def)
  have set_fst: "fst ` set (zip keys labels) = set keys"
    by (metis fst list.set_map)
  have "valid_key C key \<longleftrightarrow> length (Secret key) = 32" for key
    using crypto_contract.cipher_32 [OF C] by (auto simp: valid_key_def cookieKeySecretLength_def)
  then show ?thesis
    by (simp add: newCookieKeyring_loop_Inr set_fst ua kids es)
qed

section \<open>Properties\<close>

text \<open>C22. A keyring is built exactly when there is a key, every secret is 32 bytes, no two
  keys have the same id and no two the same use-after, and the time of at least one of them
  has come; every other configuration is a startup error.\<close>

theorem newCookieKeyring_iff:
  assumes C: "crypto_contract C" and labels: "length labels = length keys"
  shows "(\<exists>k l. newCookieKeyring C now keys labels conf = Inr (k, l)) \<longleftrightarrow>
    keys \<noteq> [] \<and> (\<forall>key \<in> set keys. length (Secret key) = 32) \<and>
    distinct (map (cookieKeyID C \<circ> Secret) keys) \<and> distinct (map UseAfter keys) \<and>
    (\<exists>key \<in> set keys. UseAfter key \<le> now)"
    (is "?built \<longleftrightarrow> ?conf")
proof -
  let ?k = "\<lparr>kr_keys = [], byUseAfter = []\<rparr>"
  let ?k' = "\<lparr>kr_keys = fold (\<lambda>e. AList.update (kid e) e) (entries C keys) [], byUseAfter = entries C keys\<rparr>"
  note loop = newCookieKeyring_loop_all [OF C labels]
  have eligible: "sealingKey (Some (?k'\<lparr>byUseAfter := sort_key (\<lambda>e. - useAfter e) (entries C keys)\<rparr>)) now = None
      \<longleftrightarrow> \<not> (\<exists>key \<in> set keys. UseAfter key \<le> now)"
    by (auto simp: sealingKey_None entries_def mk_entry_def not_le)
  show ?thesis
  proof
    assume ?built
    then have "keys \<noteq> []"
      by (auto simp: newCookieKeyring_def)
    moreover from \<open>?built\<close> obtain k0 e where
      "newCookieKeyring_loop C (zip keys labels) ?k Map.empty Map.empty = Inr k0"
      "sealingKey (Some (k0\<lparr>byUseAfter := sort_key (\<lambda>e. - useAfter e) (byUseAfter k0)\<rparr>)) now = Some e"
      using newCookieKeyring_Inr by blast
    moreover from this(1) have k0: "k0 = ?k'" and
      conf: "\<forall>key \<in> set keys. length (Secret key) = 32"
        "distinct (map (cookieKeyID C \<circ> Secret) keys)" "distinct (map UseAfter keys)"
      unfolding loop by simp_all
    ultimately have "\<exists>key \<in> set keys. UseAfter key \<le> now"
      using eligible by (simp only: CookieKeyring.simps k0) (metis option.distinct(1))
    then show ?conf
      using conf \<open>keys \<noteq> []\<close> by blast
  next
    assume ?conf
    then have "newCookieKeyring_loop C (zip keys labels) ?k Map.empty Map.empty = Inr ?k'"
      using loop by blast
    then show ?built
      using \<open>?conf\<close> eligible by (auto simp: newCookieKeyring_def Let_def split: option.splits)
  qed
qed

definition sample_keys :: "CookieKey list" where
  "sample_keys = [\<lparr>UseAfter = 100, Secret = replicate 32 1\<rparr>, \<lparr>UseAfter = 200, Secret = replicate 32 2\<rparr>]"

lemma cookieKeyID_sample:
  "length s = 32 \<Longrightarrow> cookieKeyID sample_crypto s = take 8 s"
  by (simp add: cookieKeyID_def sample_crypto_def cookieKeyIDLabel_def cookieKeyIDLength_def)

definition sample_entry :: "byte \<Rightarrow> time \<Rightarrow> cookieKey" where
  "sample_entry n t = \<lparr>kid = replicate 8 n, useAfter = t,
     key_aead = sample_aead n\<rparr>"

definition sample_keyring :: CookieKeyring where
  "sample_keyring =
     \<lparr>kr_keys = [(replicate 8 1, sample_entry 1 100), (replicate 8 2, sample_entry 2 200)],
      byUseAfter = [sample_entry 2 200, sample_entry 1 100]\<rparr>"

lemma mk_entry_sample: "mk_entry sample_crypto \<lparr>UseAfter = t, Secret = replicate 32 n\<rparr> = sample_entry n t"
  by (simp add: mk_entry_def cookieKeyID_sample sample_entry_def) (simp add: sample_crypto_def numeral_eq_Suc)

lemma kid_sample_entry [simp]: "kid (sample_entry n t) = replicate 8 n"
  and useAfter_sample_entry [simp]: "useAfter (sample_entry n t) = t"
  and aead_sample_entry [simp]: "key_aead (sample_entry n t) = sample_aead n"
  by (simp_all add: sample_entry_def)

lemma sample_keyring_loop:
  "newCookieKeyring_loop sample_crypto (zip sample_keys [''a'', ''b''])
     \<lparr>kr_keys = [], byUseAfter = []\<rparr> Map.empty Map.empty =
   Inr \<lparr>kr_keys = kr_keys sample_keyring, byUseAfter = rev (byUseAfter sample_keyring)\<rparr>"
proof -
  have "\<exists>A. NewCipherGCM sample_crypto s = Inr A" for s
    by (simp add: sample_crypto_def)
  then show ?thesis
    by (simp add: newCookieKeyring_loop_Inr sample_keys_def mk_entry_sample sample_keyring_def
        valid_key_def cookieKeySecretLength_def replicate_eq_replicate)
qed

lemma newCookieKeyring_sample:
  "\<exists>l. newCookieKeyring sample_crypto 150 sample_keys [''a'', ''b''] (resolveCookieKeyringConf []) = Inr (sample_keyring, l)"
proof -
  have "sort_key (\<lambda>e. - useAfter e) (rev (byUseAfter sample_keyring)) = byUseAfter sample_keyring"
    by (simp add: sample_keyring_def)
  moreover have "sample_keys \<noteq> []"
    by (simp add: sample_keys_def)
  moreover have "sealingKey (Some \<lparr>kr_keys = kr_keys sample_keyring,
      byUseAfter = byUseAfter sample_keyring\<rparr>) 150 = Some (sample_entry 1 100)"
    by (simp add: sealingKey_def sample_keyring_def)
  ultimately show ?thesis
    by (simp add: newCookieKeyring_def sample_keyring_loop Let_def)
qed

lemma newCookieKeyring_iff_witness:
  "\<exists>k l. newCookieKeyring sample_crypto 150 sample_keys [''a'', ''b''] (resolveCookieKeyringConf []) = Inr (k, l)"
  using newCookieKeyring_iff [OF sample.crypto_contract_axioms, of "[''a'', ''b'']" sample_keys 150]
  by (simp add: sample_keys_def cookieKeyID_sample replicate_eq_replicate)

text \<open>A constructed keyring satisfies its invariant: the list is strictly sorted, latest
  first, and holds each key once; the map finds exactly its keys, by their ids; ids are eight
  bytes; every cipher is a proper AEAD.  It has a sealing key at the time it is built.\<close>

theorem newCookieKeyring_inv:
  assumes "crypto_contract C" and "newCookieKeyring C now keys labels conf = Inr (k, l)"
  shows "keyring_inv k \<and> sealingKey (Some k) now \<noteq> None"
  using newCookieKeyring_Inr [OF assms(2)] newCookieKeyring_loop_inv [OF assms(1)] by fastforce

lemma newCookieKeyring_inv_witness:
  "keyring_inv sample_keyring \<and> sealingKey (Some sample_keyring) 150 \<noteq> None"
proof -
  obtain l where "newCookieKeyring sample_crypto 150 sample_keys [''a'', ''b''] (resolveCookieKeyringConf []) = Inr (sample_keyring, l)"
    using newCookieKeyring_sample by blast
  then show ?thesis
    by (rule newCookieKeyring_inv [OF sample.crypto_contract_axioms])
qed

lemma keyring_inv_sample: "keyring_inv sample_keyring"
  using sample_cipher.aead_contract_axioms
  by (auto simp: keyring_inv_def sample_keyring_def cookieKeyIDLength_def replicate_eq_replicate)

lemma sealingKey_sample:
  "sealingKey (Some sample_keyring) 150 = Some (sample_entry 1 100)"
  "sealingKey (Some sample_keyring) 250 = Some (sample_entry 2 200)"
  by (simp_all add: sealingKey_def sample_keyring_def)

text \<open>C31. The sealing key is the one with the latest use-after of those whose time has come.\<close>

theorem sealingKey_latest:
  assumes "keyring_inv k"
  shows "sealingKey (Some k) now = Some e \<longleftrightarrow>
    e \<in> set (byUseAfter k) \<and> useAfter e \<le> now \<and>
    (\<forall>e' \<in> set (byUseAfter k). useAfter e' \<le> now \<longrightarrow> useAfter e' \<le> useAfter e)"
  using assms by (rule find_latest_key)

lemma sealingKey_latest_witness:
  "sealingKey (Some sample_keyring) 250 = Some (sample_entry 2 200)"
  using sealingKey_latest [OF keyring_inv_sample, of 250 "sample_entry 2 200"]
  by (simp add: sample_keyring_def)

text \<open>As time passes the sealing key only moves forward, and a keyring that could seal once
  can always seal.\<close>

theorem sealingKey_monotone:
  assumes "keyring_inv k" and "sealingKey (Some k) now = Some a" and "now \<le> now'"
  shows "\<exists>b. sealingKey (Some k) now' = Some b \<and> useAfter a \<le> useAfter b"
  using assms by (rule sealingKey_monotone_fact)

lemma sealingKey_monotone_witness:
  "\<exists>b. sealingKey (Some sample_keyring) 250 = Some b \<and> 100 \<le> useAfter b"
  using sealingKey_monotone [OF keyring_inv_sample sealingKey_sample(1), of 250] by simp

text \<open>A value of a key variable is accepted exactly when it is a timestamp without an
  underscore, an underscore, and the standard base64 of 32 bytes.\<close>

theorem parseCookieKey_iff:
  "parseCookieKey value = Inr key \<longleftrightarrow>
     (\<exists>ts secret. value = ts @ CHR ''_'' # secret \<and> CHR ''_'' \<notin> set ts \<and>
        parse_RFC3339 ts = Some (UseAfter key) \<and>
        base64_DecodeString StdEncoding secret = Some (Secret key) \<and> length (Secret key) = 32)"
proof
  assume "parseCookieKey value = Inr key"
  then obtain ts secret where "Cut value CHR ''_'' = Some (ts, secret)"
    and "parse_RFC3339 ts = Some (UseAfter key)" "length (Secret key) = 32"
    and "base64_DecodeString StdEncoding secret = Some (Secret key)"
    by (auto simp: parseCookieKey_def cookieKeySecretLength_def split: option.splits if_splits)
  moreover from this(1) have "value = ts @ CHR ''_'' # secret" "CHR ''_'' \<notin> set ts"
    using Cut_Some by blast+
  ultimately show "\<exists>ts secret. value = ts @ CHR ''_'' # secret \<and> CHR ''_'' \<notin> set ts \<and>
        parse_RFC3339 ts = Some (UseAfter key) \<and>
        base64_DecodeString StdEncoding secret = Some (Secret key) \<and> length (Secret key) = 32"
    by blast
qed (auto simp: parseCookieKey_def Cut_append cookieKeySecretLength_def)

text \<open>C35. A secret made by GenerateCookieKey, behind the RFC 3339 text of an instant in
  any zone, is a key variable that parses to that instant and to the 32 bytes drawn.\<close>

theorem parse_GenerateCookieKey:
  assumes "GenerateCookieKey w = (Inr secret, w')"
    and "format_RFC3339 z t = Inr ts"
  shows "parseCookieKey (ts @ CHR ''_'' # secret) =
    Inr \<lparr>UseAfter = t, Secret = take 32 (rng w)\<rparr>"
proof -
  from assms(1) have "32 \<le> length (rng w)"
    and "secret = base64_EncodeToString StdEncoding (take 32 (rng w))"
    by (auto simp: GenerateCookieKey_def cookieKeySecretLength_def rand_Read_def split: if_splits)
  moreover have "CHR ''_'' \<notin> set ts"
    using format_RFC3339_chars [OF assms(2)] by (auto simp: list_all_iff time_char_def digit_def)
  ultimately show ?thesis
    using parse_format_RFC3339 [OF assms(2)] \<open>CHR ''_'' \<notin> set ts\<close>
    by (simp add: parseCookieKey_def Cut_append base64_Decode_Encode cookieKeySecretLength_def)
qed

lemma parse_GenerateCookieKey_witness:
  "parseCookieKey (''1970-01-01T01:30:00.000000005+01:30'' @ CHR ''_'' #
      base64_EncodeToString StdEncoding (replicate 32 7)) =
   Inr \<lparr>UseAfter = 5, Secret = replicate 32 7\<rparr>"
proof -
  have "format_RFC3339 90 5 = Inr ''1970-01-01T01:30:00.000000005+01:30''"
    by code_simp
  from parse_GenerateCookieKey [of "\<lparr>clock = 0, rng = replicate 40 7\<rparr>"
      "base64_EncodeToString StdEncoding (replicate 32 7)" "\<lparr>clock = 0, rng = replicate 8 7\<rparr>", OF _ this]
  show ?thesis
    by (simp add: GenerateCookieKey_def rand_Read_def cookieKeySecretLength_def)
qed

lemma find_unique:
  "distinct (map f xs) \<Longrightarrow> find (\<lambda>x. f x = n) xs = Some x \<longleftrightarrow> x \<in> set xs \<and> f x = n"
  by (induction xs) (auto simp: image_iff)

lemma find_permuted:
  assumes "distinct (map f xs)" and "mset ys = mset xs"
  shows "find (\<lambda>x. f x = n) ys = find (\<lambda>x. f x = n) xs"
proof -
  have "distinct (map f ys)"
    using assms by (metis mset_eq_imp_distinct_iff mset_map)
  moreover have "set ys = set xs"
    using assms(2) by (metis set_mset_mset)
  ultimately have "find (\<lambda>x. f x = n) ys = Some x \<longleftrightarrow> find (\<lambda>x. f x = n) xs = Some x" for x
    using assms(1) by (simp add: find_unique)
  then show ?thesis
    by (metis option.exhaust)
qed

lemma cookieKeyNames_permuted:
  assumes "mset environ' = mset environ"
  shows "cookieKeyNames environ' prefix = cookieKeyNames environ prefix"
proof -
  have "mset (filter P (map env_name environ')) = mset (filter P (map env_name environ))" for P
    using assms by (simp add: mset_filter)
  then show ?thesis
    unfolding cookieKeyNames_def by (intro properties_for_sort) simp_all
qed

lemma Getenv_permuted:
  assumes "distinct (map env_name environ)" and "mset environ' = mset environ"
  shows "Getenv environ' name = Getenv environ name"
  by (simp add: Getenv_def find_permuted [OF assms])

lemma parseCookieKeys_cong:
  "(\<And>name. Getenv environ' name = Getenv environ name) \<Longrightarrow>
     parseCookieKeys environ' names = parseCookieKeys environ names"
  by (induction names) (auto split: sum.split)

text \<open>The keyring of the environment does not depend on the order the environment lists
  its variables in, so that every replica builds the same one.\<close>

theorem CookieKeyringFromEnv_order:
  assumes "distinct (map env_name environ)" and "mset environ' = mset environ"
  shows "CookieKeyringFromEnv C now environ' opts =
    CookieKeyringFromEnv C now environ opts"
  using parseCookieKeys_cong [of environ' environ] Getenv_permuted [OF assms]
  by (simp add: CookieKeyringFromEnv_def cookieKeyNames_permuted [OF assms(2)] Let_def split: sum.split)

lemma CookieKeyringFromEnv_order_witness:
  "CookieKeyringFromEnv sample_crypto 5 [''K1=a'', ''K0=b''] [WithCookieKeyPrefix ''K''] =
   CookieKeyringFromEnv sample_crypto 5 [''K0=b'', ''K1=a''] [WithCookieKeyPrefix ''K'']"
  by (rule CookieKeyringFromEnv_order) (simp_all add: env_name_def)

end
