(* ===== verification/Envelope.thy ===== *)
theory Envelope
  imports Keyring
begin

text \<open>
  \<open>cookie_crypto.go\<close>: the sealed cookie envelope (version, kind, key id, nonce,
  ciphertext and tag), its writer and reader with the five ways a value can fail to open,
  the additional authenticated data, and the domain strings a value is bound to.
\<close>

section \<open>Layout\<close>

definition cookieEnvelopeV1 :: byte where "cookieEnvelopeV1 = 1"
definition cookieEnvelopeMaxVersion :: byte where "cookieEnvelopeMaxVersion = 16"
definition cookieNonceLength :: nat where "cookieNonceLength = 12"
definition cookieTagLength :: nat where "cookieTagLength = 16"

definition cookieEnvelopeHeaderLength :: nat where
  "cookieEnvelopeHeaderLength = 1 + 1 + cookieKeyIDLength + cookieNonceLength"

lemmas envelope_lengths = cookieKeyIDLength_def cookieNonceLength_def cookieTagLength_def
  cookieEnvelopeHeaderLength_def

lemmas envelope_versions = cookieEnvelopeV1_def cookieEnvelopeMaxVersion_def

type_synonym sessionKind = byte

definition sessionKindPayload :: sessionKind where "sessionKindPayload = 1"
definition sessionKindHandle :: sessionKind where "sessionKindHandle = 2"

definition sessionKind_String :: "sessionKind \<Rightarrow> string" where
  "sessionKind_String k =
     (if k = sessionKindPayload then ''payload''
      else if k = sessionKindHandle then ''handle''
      else ''kind '' @ Itoa (unat k))"

definition sessionKind_valid :: "sessionKind \<Rightarrow> bool" where
  "sessionKind_valid k \<longleftrightarrow> k = sessionKindPayload \<or> k = sessionKindHandle"

lemmas session_kinds = sessionKindPayload_def sessionKindHandle_def sessionKind_valid_def

definition cookieEnvelopeAAD :: "byte \<Rightarrow> sessionKind \<Rightarrow> bytes \<Rightarrow> string \<Rightarrow> bytes" where
  "cookieEnvelopeAAD version kind kd domain = [version, kind] @ kd @ bytes_of_string domain"

section \<open>Writer\<close>

text \<open>The binary envelope and the id of the key it is sealed under.\<close>

definition sealKindRaw ::
  "CookieKeyring option \<Rightarrow> sessionKind \<Rightarrow> string \<Rightarrow> bytes \<Rightarrow> 'a world_scheme \<Rightarrow>
   (bytes \<times> bytes) result \<times> 'a world_scheme" where
  "sealKindRaw k kind domain plaintext w =
     (case sealingKey k (clock w) of
        None \<Rightarrow> (Inl (Sentinel ErrNoCookieKeyring), w)
      | Some key \<Rightarrow>
          (case rand_Read cookieNonceLength w of
             (Inl e, w') \<Rightarrow> (Inl (Errorf ''generate nonce'' [e]), w')
           | (Inr nonce, w') \<Rightarrow>
               let header = [cookieEnvelopeV1, kind] @ kid key @ nonce
               in (Inr (header @ aead_Seal (key_aead key) nonce plaintext
                          (cookieEnvelopeAAD cookieEnvelopeV1 kind (kid key) domain), kid key), w')))"

definition sealKind ::
  "CookieKeyring option \<Rightarrow> sessionKind \<Rightarrow> string \<Rightarrow> bytes \<Rightarrow> 'a world_scheme \<Rightarrow>
   string result \<times> 'a world_scheme" where
  "sealKind k kind domain plaintext w =
     (case sealKindRaw k kind domain plaintext w of
        (Inl e, w') \<Rightarrow> (Inl e, w')
      | (Inr (sealed, kd), w') \<Rightarrow> (Inr (base64_EncodeToString RawURLEncoding sealed), w'))"

section \<open>Reader\<close>

text \<open>The reader returns the key id beside an error too: it is zero until it has been read from
  the envelope.\<close>

definition noKID :: bytes where
  "noKID = replicate cookieKeyIDLength 0"

definition openKindRaw ::
  "CookieKeyring option \<Rightarrow> time \<Rightarrow> sessionKind \<Rightarrow> string \<Rightarrow> bytes \<Rightarrow>
   go_error \<times> bytes + bytes \<times> bytes \<times> bool" where
  "openKindRaw k now kind domain raw =
     (case (k, sealingKey k now) of
        (Some kr, Some sealWith) \<Rightarrow>
          if length raw < cookieEnvelopeHeaderLength + cookieTagLength \<or>
             raw ! 0 = 0 \<or> raw ! 0 > cookieEnvelopeMaxVersion \<or> \<not> sessionKind_valid (raw ! 1)
          then Inl (Sentinel ErrNotSealed, noKID)
          else if raw ! 0 \<noteq> cookieEnvelopeV1
          then Inl (Errorf ''version'' [Sentinel ErrUnknownVersion], noKID)
          else if raw ! 1 \<noteq> kind
          then Inl (Errorf (''expected '' @ sessionKind_String kind @ '', got '' @
                 sessionKind_String (raw ! 1)) [Sentinel ErrWrongSessionKind], noKID)
          else let kd = take cookieKeyIDLength (drop 2 raw) in
            (case map_of (kr_keys kr) kd of
               None \<Rightarrow> Inl (Errorf (''key '' @ hex_EncodeToString kd) [Sentinel ErrUnknownKey], kd)
             | Some key \<Rightarrow>
                 let nonce = take cookieNonceLength (drop (2 + cookieKeyIDLength) raw) in
                 (case aead_Open (key_aead key) nonce (drop cookieEnvelopeHeaderLength raw)
                         (cookieEnvelopeAAD (raw ! 0) kind kd domain) of
                    None \<Rightarrow> Inl (Errorf (''key '' @ hex_EncodeToString kd)
                              [Sentinel ErrAuthentication], kd)
                  | Some plaintext \<Rightarrow> Inr (plaintext, kd, kd = kid sealWith)))
      | _ \<Rightarrow> Inl (Sentinel ErrNoCookieKeyring, noKID))"

definition openKind ::
  "CookieKeyring option \<Rightarrow> time \<Rightarrow> sessionKind \<Rightarrow> string \<Rightarrow> string \<Rightarrow> (bytes \<times> bool) result" where
  "openKind k now kind domain value =
     (case base64_DecodeString RawURLEncoding value of
        None \<Rightarrow> Inl (Sentinel ErrNotSealed)
      | Some raw \<Rightarrow>
          (case openKindRaw k now kind domain raw of
             Inl (e, kd) \<Rightarrow> Inl e
           | Inr (plaintext, kd, current) \<Rightarrow> Inr (plaintext, current)))"

text \<open>\<open>seal\<close> and \<open>open\<close>, for payloads.\<close>

definition seal_payload ::
  "CookieKeyring option \<Rightarrow> string \<Rightarrow> bytes \<Rightarrow> 'a world_scheme \<Rightarrow> string result \<times> 'a world_scheme" where
  "seal_payload k domain plaintext w = sealKind k sessionKindPayload domain plaintext w"

definition open_payload ::
  "CookieKeyring option \<Rightarrow> time \<Rightarrow> string \<Rightarrow> string \<Rightarrow> (bytes \<times> bool) result" where
  "open_payload k now domain value = openKind k now sessionKindPayload domain value"

section \<open>Domains\<close>

definition cookieDomainSession :: string where
  "cookieDomainSession = ''cookie:''"

definition cookieDomainAuthRedirect :: string where
  "cookieDomainAuthRedirect = ''cookie:auth_redir:''"

definition cookieDomainStore :: string where
  "cookieDomainStore = ''store:''"

definition cookieNameSeparators :: string where
  "cookieNameSeparators = CHR 0x22 # ''(),/:;<=>?@['' @ CHR 0x5C # '']{}''"

definition validCookieName :: "string \<Rightarrow> bool" where
  "validCookieName name \<longleftrightarrow>
     name \<noteq> [] \<and>
     (\<forall>c \<in> set name. \<not> (of_char c \<le> (0x20 :: nat) \<or> of_char c \<ge> (0x7f :: nat) \<or>
        c \<in> set cookieNameSeparators))"

definition cookieDomain :: "string \<Rightarrow> string \<Rightarrow> string result" where
  "cookieDomain purpose name =
     (if \<not> validCookieName name then
        Inl (New (name @ '' is not a valid cookie name: expected a non-empty HTTP token''))
      else Inr (purpose @ name))"

section \<open>The envelope in one equation\<close>

definition envelope :: "cookieKey \<Rightarrow> sessionKind \<Rightarrow> string \<Rightarrow> bytes \<Rightarrow> bytes \<Rightarrow> bytes" where
  "envelope key kind domain nonce plaintext =
     [cookieEnvelopeV1, kind] @ kid key @ nonce @
     aead_Seal (key_aead key) nonce plaintext
       (cookieEnvelopeAAD cookieEnvelopeV1 kind (kid key) domain)"

lemma sealKindRaw_Inr:
  "sealKindRaw k kind domain p w = (Inr (raw, kd), w') \<longleftrightarrow>
     (\<exists>key. sealingKey k (clock w) = Some key \<and> 12 \<le> length (rng w) \<and> kd = kid key \<and>
        raw = envelope key kind domain (take 12 (rng w)) p \<and> w' = w\<lparr>rng := drop 12 (rng w)\<rparr>)"
  by (auto simp: sealKindRaw_def rand_Read_def envelope_def cookieNonceLength_def Let_def
      split: option.splits)

lemma sealKind_Inr:
  "sealKind k kind domain p w = (Inr v, w') \<longleftrightarrow>
     (\<exists>key. sealingKey k (clock w) = Some key \<and> 12 \<le> length (rng w) \<and>
        v = base64_EncodeToString RawURLEncoding (envelope key kind domain (take 12 (rng w)) p) \<and>
        w' = w\<lparr>rng := drop 12 (rng w)\<rparr>)"
proof -
  have "sealKind k kind domain p w = (Inr v, w') \<longleftrightarrow>
      (\<exists>raw kd. sealKindRaw k kind domain p w = (Inr (raw, kd), w') \<and>
         v = base64_EncodeToString RawURLEncoding raw)"
    by (auto simp: sealKind_def split: prod.splits sum.splits)
  then show ?thesis
    by (auto simp: sealKindRaw_Inr)
qed

lemma envelope_parts:
  assumes "length (kid key) = 8" and "length nonce = 12" and "aead_contract (key_aead key)"
  shows "length (envelope key kind d nonce p) = length p + 38"
    "envelope key kind d nonce p ! 0 = 1" "envelope key kind d nonce p ! 1 = kind"
    "take 8 (drop 2 (envelope key kind d nonce p)) = kid key"
    "take 12 (drop 10 (envelope key kind d nonce p)) = nonce"
    "drop 22 (envelope key kind d nonce p) =
       aead_Seal (key_aead key) nonce p (cookieEnvelopeAAD 1 kind (kid key) d)"
  using assms aead_contract.length_seal [OF assms(3), of nonce]
  by (simp_all add: envelope_def cookieEnvelopeV1_def)

text \<open>What the reader does with an envelope of a key, whatever the domain and the keyring it is
  read with.\<close>

lemma openKindRaw_envelope:
  assumes "length (kid key) = 8" and "length nonce = 12" and "aead_contract (key_aead key)"
    and "sessionKind_valid kind'" and "sealingKey (Some kr) now = Some sealWith"
  shows "openKindRaw (Some kr) now kind d (envelope key kind' d' nonce p) =
    (if kind' \<noteq> kind then
       Inl (Errorf (''expected '' @ sessionKind_String kind @ '', got '' @ sessionKind_String kind')
         [Sentinel ErrWrongSessionKind], noKID)
     else case map_of (kr_keys kr) (kid key) of
       None \<Rightarrow> Inl (Errorf (''key '' @ hex_EncodeToString (kid key)) [Sentinel ErrUnknownKey], kid key)
     | Some key' \<Rightarrow>
        (case aead_Open (key_aead key') nonce
                (aead_Seal (key_aead key) nonce p (cookieEnvelopeAAD 1 kind' (kid key) d'))
                (cookieEnvelopeAAD 1 kind (kid key) d) of
           None \<Rightarrow> Inl (Errorf (''key '' @ hex_EncodeToString (kid key))
             [Sentinel ErrAuthentication], kid key)
         | Some q \<Rightarrow> Inr (q, kid key, kid key = kid sealWith)))"
proof (cases "kind' = kind")
  case True
  then show ?thesis
    using envelope_parts [OF assms(1-3), of kind d' p] assms(4,5)
    unfolding openKindRaw_def envelope_lengths envelope_versions Let_def
    by (auto split: option.split)
next
  case False
  then show ?thesis
    using envelope_parts(1-3) [OF assms(1-3), of kind' d' p] assms(4,5)
    unfolding openKindRaw_def envelope_lengths envelope_versions Let_def by simp
qed

lemma openKind_base64:
  "openKind k now kind d (base64_EncodeToString RawURLEncoding raw) =
     (case openKindRaw k now kind d raw of
        Inl (e, kd) \<Rightarrow> Inl e | Inr (p, kd, current) \<Rightarrow> Inr (p, current))"
  by (simp add: openKind_def base64_Decode_Encode)

lemma sealed_key:
  assumes "keyring_inv kr" and "sealingKey (Some kr) t = Some key"
  shows "length (kid key) = 8" "aead_contract (key_aead key)" "map_of (kr_keys kr) (kid key) = Some key"
proof -
  note inv = keyring_invD [OF assms(1) sealingKey_Some_in [OF assms(2)]]
  show "length (kid key) = 8"
    using inv(2) by (simp only: cookieKeyIDLength_def)
  show "aead_contract (key_aead key)" "map_of (kr_keys kr) (kid key) = Some key"
    by (fact inv)+
qed

text \<open>How long a sealed value is: the header, the nonce and the tag beside the value, in base64.\<close>

lemma length_sealKind:
  assumes "keyring_inv kr" and "sealKind (Some kr) kind d p w = (Inr v, w')"
  shows "length v = (4 * (length p + 38) + 2) div 3"
proof -
  obtain key where key: "sealingKey (Some kr) (clock w) = Some key" and rng: "12 \<le> length (rng w)"
    and v: "v = base64_EncodeToString RawURLEncoding (envelope key kind d (take 12 (rng w)) p)"
    using assms(2) by (auto simp: sealKind_Inr)
  have "length (take 12 (rng w)) = 12"
    using rng by simp
  from envelope_parts(1) [OF sealed_key(1) [OF assms(1) key] this sealed_key(2) [OF assms(1) key]]
  show ?thesis by (simp only: v length_base64_Encode_raw)
qed

lemma same_kid:
  assumes "keyring_inv kr" and "sealingKey (Some kr) t = Some a" and "sealingKey (Some kr) u = Some b"
  shows "kid a = kid b \<longleftrightarrow> a = b"
  using sealed_key(3) [OF assms(1,2)] sealed_key(3) [OF assms(1,3)]
  by (metis option.inject)

text \<open>The two facts the properties of the envelope and of the sealer share: what was sealed opens,
  and it does not open with other additional data.\<close>

lemma open_sealKind_fact:
  assumes kr: "keyring_inv kr" and kind: "sessionKind_valid kind"
    and sealed: "sealKind (Some kr) kind d p w = (Inr v, w')" and later: "clock w \<le> now"
  shows "openKind (Some kr) now kind d v =
    Inr (p, sealingKey (Some kr) now = sealingKey (Some kr) (clock w))"
proof -
  obtain key where key: "sealingKey (Some kr) (clock w) = Some key" and rng: "12 \<le> length (rng w)"
    and v: "v = base64_EncodeToString RawURLEncoding (envelope key kind d (take 12 (rng w)) p)"
    using sealed by (auto simp: sealKind_Inr)
  obtain key' where key': "sealingKey (Some kr) now = Some key'"
    using sealingKey_monotone_fact [OF kr key later] by blast
  note k = sealed_key [OF kr key]
  have nonce: "length (take 12 (rng w)) = 12"
    using rng by simp
  show ?thesis
    using same_kid [OF kr key key'] aead_contract.open_seal [OF k(2) nonce]
    by (simp add: v openKind_base64 openKindRaw_envelope [OF k(1) nonce k(2) kind key'] k(3) key key'
        eq_commute)
qed

lemma openKindRaw_wrong_aad:
  assumes kr: "keyring_inv kr" and key: "sealingKey (Some kr) t = Some key" and later: "t \<le> now"
    and nonce: "length nonce = 12" and kind: "sessionKind_valid kind"
    and no_forgery: "\<And>q. aead_Seal (key_aead key) nonce q
        (cookieEnvelopeAAD cookieEnvelopeV1 kind (kid key) d') \<noteq>
      aead_Seal (key_aead key) nonce p (cookieEnvelopeAAD cookieEnvelopeV1 kind (kid key) d)"
  shows "openKindRaw (Some kr) now kind d' (envelope key kind d nonce p) =
    Inl (Errorf (''key '' @ hex_EncodeToString (kid key)) [Sentinel ErrAuthentication], kid key)"
proof -
  obtain s where s: "sealingKey (Some kr) now = Some s"
    using sealingKey_monotone_fact [OF kr key later] by blast
  note k = sealed_key [OF kr key]
  have "aead_Open (key_aead key) nonce
      (aead_Seal (key_aead key) nonce p (cookieEnvelopeAAD 1 kind (kid key) d))
      (cookieEnvelopeAAD 1 kind (kid key) d') = None"
    using no_forgery aead_contract.open_only_sealed [OF k(2) nonce]
    by (metis cookieEnvelopeV1_def not_None_eq)
  then show ?thesis
    by (simp add: openKindRaw_envelope [OF k(1) nonce k(2) kind s] k(3))
qed

lemma openKind_kind_fact:
  assumes kr: "keyring_inv kr" and sealed: "sealKind (Some kr) kind' d' p w = (Inr v, w')"
    and "sessionKind_valid kind'" and "kind \<noteq> kind'" and "sealingKey (Some other) now \<noteq> None"
  shows "\<exists>e. openKind (Some other) now kind d v = Inl e \<and> errors_Is e ErrWrongSessionKind"
proof -
  obtain key where key: "sealingKey (Some kr) (clock w) = Some key" and rng: "12 \<le> length (rng w)"
    and v: "v = base64_EncodeToString RawURLEncoding (envelope key kind' d' (take 12 (rng w)) p)"
    using sealed by (auto simp: sealKind_Inr)
  obtain s where s: "sealingKey (Some other) now = Some s"
    using assms(5) by blast
  have nonce: "length (take 12 (rng w)) = 12"
    using rng by simp
  show ?thesis
    using assms(4) by (simp add: v openKind_base64 error_simps
        openKindRaw_envelope [OF sealed_key(1) [OF kr key] nonce sealed_key(2) [OF kr key] assms(3) s])
qed

section \<open>Properties\<close>

text \<open>C14. What is sealed opens: a value sealed for a kind and a domain opens for them, at any
  later time, to the plaintext; and it is reported current exactly when the keyring would
  still seal with the same key.\<close>

theorem open_sealKind:
  assumes kr: "keyring_inv kr" and kind: "sessionKind_valid kind"
    and sealed: "sealKind (Some kr) kind d p w = (Inr v, w')" and later: "clock w \<le> now"
  shows "openKind (Some kr) now kind d v =
    Inr (p, sealingKey (Some kr) now = sealingKey (Some kr) (clock w))"
  by (rule open_sealKind_fact [OF assms])

lemma sample_value_opens:
  "\<exists>v. openKind (Some sample_keyring) 250 sessionKindHandle ''cookie:s'' v = Inr ([1, 2], False)"
proof -
  let ?n = "replicate 12 (9 :: byte)"
  have k: "length (kid (sample_entry 1 100)) = 8" "length ?n = 12"
      "aead_contract (key_aead (sample_entry 1 100))"
    using sample_cipher.aead_contract_axioms by simp_all
  have "openKind (Some sample_keyring) 250 sessionKindHandle ''cookie:s''
      (base64_EncodeToString RawURLEncoding
        (envelope (sample_entry 1 100) sessionKindHandle ''cookie:s'' ?n [1, 2])) = Inr ([1, 2], False)"
    unfolding openKind_base64
    by (subst openKindRaw_envelope [OF k _ sealingKey_sample(2)])
       (simp_all add: session_kinds sample_cipher.open_seal sample_keyring_def replicate_eq_replicate)
  then show ?thesis by blast
qed

lemma open_sealKind_witness:
  "\<exists>v. fst (sealKind (Some sample_keyring) sessionKindHandle ''cookie:s'' [1, 2]
          \<lparr>clock = 150, rng = replicate 20 9\<rparr>) = Inr v \<and>
     openKind (Some sample_keyring) 250 sessionKindHandle ''cookie:s'' v = Inr ([1, 2], False)"
proof -
  let ?w = "\<lparr>clock = 150, rng = replicate 20 (9 :: byte)\<rparr>"
  obtain v w' where v: "sealKind (Some sample_keyring) sessionKindHandle ''cookie:s'' [1, 2] ?w = (Inr v, w')"
    by (auto simp: sealKind_Inr sealingKey_sample)
  have "openKind (Some sample_keyring) 250 sessionKindHandle ''cookie:s'' v =
      Inr ([1, 2], sealingKey (Some sample_keyring) 250 = sealingKey (Some sample_keyring) (clock ?w))"
    by (rule open_sealKind [OF keyring_inv_sample _ v]) (simp_all add: session_kinds)
  then show ?thesis
    using v by (simp add: sealingKey_sample sample_entry_def)
qed

text \<open>C15. Only what a key of the keyring sealed for that kind and domain opens: the decoded
  value is byte for byte the envelope the writer makes of the plaintext, under one of the
  keyring's keys and some nonce.\<close>

theorem openKind_only_sealed:
  assumes kr: "keyring_inv kr" and opened: "openKind (Some kr) now kind d v = Inr (p, current)"
  shows "\<exists>key \<in> set (byUseAfter kr). \<exists>nonce. length nonce = 12 \<and>
    base64_DecodeString RawURLEncoding v = Some (envelope key kind d nonce p) \<and>
    (current \<longleftrightarrow> sealingKey (Some kr) now = Some key)"
proof -
  obtain raw kd where raw: "base64_DecodeString RawURLEncoding v = Some raw"
    and o: "openKindRaw (Some kr) now kind d raw = Inr (p, kd, current)"
    using opened by (auto simp: openKind_def split: option.splits sum.splits prod.splits)
  let ?n = "take 12 (drop 10 raw)"
  obtain sealWith key where sealWith: "sealingKey (Some kr) now = Some sealWith"
    and len: "38 \<le> length raw" and hd: "raw ! 0 = 1" "raw ! 1 = kind"
    and kd: "kd = take 8 (drop 2 raw)" and key: "map_of (kr_keys kr) kd = Some key"
    and plain: "aead_Open (key_aead key) ?n (drop 22 raw) (cookieEnvelopeAAD 1 kind kd d) = Some p"
    and current: "current \<longleftrightarrow> kd = kid sealWith"
    using o by (auto simp: openKindRaw_def envelope_lengths envelope_versions Let_def
        split: option.splits if_splits)
  have key': "key \<in> set (byUseAfter kr)" "kid key = kd"
    using keyring_inv_lookup [OF kr key] by auto
  have n: "length ?n = 12"
    using len by simp
  have "drop 22 raw = aead_Seal (key_aead key) ?n p (cookieEnvelopeAAD 1 kind (kid key) d)"
    using aead_contract.open_only_sealed [OF keyring_invD(3) [OF kr key'(1)] n plain] key'(2) by simp
  moreover have "raw = [raw ! 0, raw ! 1] @ take 8 (drop 2 raw) @ ?n @ drop 22 raw"
  proof -
    have "raw = take 2 raw @ take 8 (drop 2 raw) @ take 12 (drop 8 (drop 2 raw)) @
        drop 12 (drop 8 (drop 2 raw))"
      by (simp only: append_take_drop_id)
    moreover have "take 2 raw = [raw ! 0, raw ! 1]"
      by (rule nth_equalityI) (use len in \<open>auto simp: less_2_cases_iff\<close>)
    ultimately show ?thesis
      by (simp only: drop_drop) simp
  qed
  ultimately have "raw = envelope key kind d ?n p"
    using hd kd key'(2) by (simp add: envelope_def cookieEnvelopeV1_def)
  moreover have "current \<longleftrightarrow> sealingKey (Some kr) now = Some key"
    using current sealWith key key'(2) sealed_key(3) [OF kr sealWith] by (metis option.inject)
  ultimately show ?thesis
    using key'(1) n raw by metis
qed

lemma openKind_only_sealed_witness:
  "\<exists>v. \<exists>key \<in> set (byUseAfter sample_keyring). \<exists>nonce. length nonce = 12 \<and>
     base64_DecodeString RawURLEncoding v =
       Some (envelope key sessionKindHandle ''cookie:s'' nonce [1, 2]) \<and>
     (False \<longleftrightarrow> sealingKey (Some sample_keyring) 250 = Some key)"
proof -
  obtain v where "openKind (Some sample_keyring) 250 sessionKindHandle ''cookie:s'' v = Inr ([1, 2], False)"
    using sample_value_opens by blast
  then show ?thesis
    using openKind_only_sealed [OF keyring_inv_sample, of 250 sessionKindHandle "''cookie:s''" v] by metis
qed

text \<open>The five ways a value can fail to open.\<close>

definition taxonomy :: "sentinel set" where
  "taxonomy = {ErrNotSealed, ErrUnknownVersion, ErrUnknownKey, ErrWrongSessionKind, ErrAuthentication}"

lemma openKindRaw_error:
  "openKindRaw k now kind d raw = Inl (e, kd) \<Longrightarrow> sealingKey k now \<noteq> None \<Longrightarrow>
     \<exists>s \<in> taxonomy. e = Sentinel s \<or> (\<exists>m. e = Errorf m [Sentinel s])"
  by (cases k) (auto simp: openKindRaw_def taxonomy_def sealingKey_def Let_def
      split: option.splits if_splits)

text \<open>C21. Every failure of a keyring that can seal is exactly one of the five of the taxonomy.\<close>

theorem openKind_taxonomy:
  assumes "openKind k now kind d v = Inl e" and "sealingKey k now \<noteq> None"
  shows "\<exists>!s. s \<in> taxonomy \<and> errors_Is e s"
proof -
  have "\<exists>s \<in> taxonomy. e = Sentinel s \<or> (\<exists>m. e = Errorf m [Sentinel s])"
  proof (cases "base64_DecodeString RawURLEncoding v")
    case None
    with assms(1) show ?thesis by (auto simp: openKind_def taxonomy_def)
  next
    case (Some raw)
    with assms(1) obtain kd where "openKindRaw k now kind d raw = Inl (e, kd)"
      by (auto simp: openKind_def split: sum.splits prod.splits)
    then show ?thesis
      using assms(2) openKindRaw_error by blast
  qed
  then show ?thesis
    by (auto simp: error_simps)
qed

lemma openKind_taxonomy_witness:
  "\<exists>e. openKind (Some sample_keyring) 250 sessionKindHandle ''cookie:s'' ''!'' = Inl e \<and>
     (\<exists>!s. s \<in> taxonomy \<and> errors_Is e s)"
proof -
  have e: "openKind (Some sample_keyring) 250 sessionKindHandle ''cookie:s'' ''!'' =
      Inl (Sentinel ErrNotSealed)"
    by (simp add: openKind_def base64_DecodeString_def base64_index_def RawURLEncoding_def base64_url_def)
  show ?thesis
    using openKind_taxonomy [OF e] e by (simp add: sealingKey_sample)
qed

text \<open>A well-formed envelope of the other kind is refused as such before any key is looked
  up: whatever keyring sealed it and whatever keyring reads it.\<close>

theorem openKind_other_kind:
  assumes kr: "keyring_inv kr" and sealed: "sealKind (Some kr) kind' d' p w = (Inr v, w')"
    and "sessionKind_valid kind'" and "kind \<noteq> kind'" and "sealingKey (Some other) now \<noteq> None"
  shows "\<exists>e. openKind (Some other) now kind d v = Inl e \<and> errors_Is e ErrWrongSessionKind"
  by (rule openKind_kind_fact [OF assms])

lemma openKind_other_kind_witness:
  "\<exists>v e. openKind (Some sample_keyring) 250 sessionKindPayload ''cookie:t'' v = Inl e \<and>
     errors_Is e ErrWrongSessionKind"
proof -
  obtain v w' where v: "sealKind (Some sample_keyring) sessionKindHandle ''cookie:s'' [1, 2]
      \<lparr>clock = 150, rng = replicate 20 (9 :: byte)\<rparr> = (Inr v, w')"
    by (auto simp: sealKind_Inr sealingKey_sample)
  show ?thesis
    using openKind_other_kind [OF keyring_inv_sample v, of sessionKindPayload sample_keyring 250
        "''cookie:t''"] by (auto simp: session_kinds sealingKey_sample)
qed

text \<open>After its key has been retired, a value is refused with the routine unknown-key error,
  and never as an authentication failure.\<close>

theorem openKind_retired_key:
  assumes kr: "keyring_inv kr" and sealed: "sealKind (Some kr) kind d p w = (Inr v, w')"
    and "sessionKind_valid kind" and "sealingKey (Some other) now \<noteq> None"
    and key: "sealingKey (Some kr) (clock w) = Some key" and "map_of (kr_keys other) (kid key) = None"
  shows "\<exists>e. openKind (Some other) now kind d v = Inl e \<and>
    errors_Is e ErrUnknownKey \<and> \<not> errors_Is e ErrAuthentication"
proof -
  have rng: "12 \<le> length (rng w)"
    and v: "v = base64_EncodeToString RawURLEncoding (envelope key kind d (take 12 (rng w)) p)"
    using sealed key by (auto simp: sealKind_Inr)
  obtain s where s: "sealingKey (Some other) now = Some s"
    using assms(4) by blast
  have nonce: "length (take 12 (rng w)) = 12"
    using rng by simp
  show ?thesis
    using assms(6) by (simp add: v openKind_base64 error_simps
        openKindRaw_envelope [OF sealed_key(1) [OF kr key] nonce sealed_key(2) [OF kr key] assms(3) s])
qed

lemma openKind_retired_key_witness:
  "\<exists>v e. openKind (Some \<lparr>kr_keys = [(replicate 8 2, sample_entry 2 200)],
                      byUseAfter = [sample_entry 2 200]\<rparr>) 250 sessionKindHandle ''cookie:s'' v = Inl e \<and>
     errors_Is e ErrUnknownKey \<and> \<not> errors_Is e ErrAuthentication"
proof -
  obtain v w' where v: "sealKind (Some sample_keyring) sessionKindHandle ''cookie:s'' [1, 2]
      \<lparr>clock = 150, rng = replicate 20 (9 :: byte)\<rparr> = (Inr v, w')"
    by (auto simp: sealKind_Inr sealingKey_sample)
  show ?thesis
    using openKind_retired_key [OF keyring_inv_sample v, of
        "\<lparr>kr_keys = [(replicate 8 2, sample_entry 2 200)], byUseAfter = [sample_entry 2 200]\<rparr>" 250
        "sample_entry 1 100"]
    by (auto simp: session_kinds sealingKey_sample sealingKey_def [of "Some \<lparr>kr_keys = _, byUseAfter = _\<rparr>"]
        replicate_eq_replicate)
qed

text \<open>The additional authenticated data determines every field of it: two equal ones, over
  key ids of the same length, have the same version, kind, key id and domain.\<close>

theorem cookieEnvelopeAAD_inject:
  assumes "length kd = length kd'"
  shows "cookieEnvelopeAAD ver kind kd d = cookieEnvelopeAAD ver' kind' kd' d' \<longleftrightarrow>
    ver = ver' \<and> kind = kind' \<and> kd = kd' \<and> d = d'"
  using assms by (simp add: cookieEnvelopeAAD_def)

lemma cookieEnvelopeAAD_inject_witness:
  "cookieEnvelopeAAD 1 2 (replicate 8 0) ''cookie:a'' \<noteq> cookieEnvelopeAAD 1 2 (replicate 8 0) ''cookie:b''"
  using cookieEnvelopeAAD_inject [of "replicate 8 0" "replicate 8 0" 1 2 "''cookie:a''" 1 2 "''cookie:b''"]
  by simp

definition purposes :: "string set" where
  "purposes = {cookieDomainSession, cookieDomainAuthRedirect, cookieDomainStore}"

lemma colon_separator: "CHR '':'' \<in> set cookieNameSeparators"
  by (simp add: cookieNameSeparators_def)

lemma validCookieName_no_colon: "validCookieName n \<Longrightarrow> CHR '':'' \<notin> set n"
  using colon_separator by (auto simp: validCookieName_def)

lemma last_separator:
  assumes "c \<notin> set n" and "c \<notin> set n'"
  shows "xs @ c # n = ys @ c # n' \<longleftrightarrow> xs = ys \<and> n = n'"
proof -
  have tail: "takeWhile (\<lambda>x. x \<noteq> c) (rev (zs @ c # m)) = rev m" if "c \<notin> set m" for zs m
  proof -
    have "takeWhile (\<lambda>x. x \<noteq> c) (rev m @ c # rev zs) = rev m @ takeWhile (\<lambda>x. x \<noteq> c) (c # rev zs)"
      using that by (intro takeWhile_append2) auto
    then show ?thesis by simp
  qed
  have "n = n'" if "xs @ c # n = ys @ c # n'"
    using tail [OF assms(1), of xs] tail [OF assms(2), of ys] that by (metis rev_rev_ident)
  then show ?thesis by auto
qed

text \<open>Domain strings do not collide: two cookies, of whatever purposes and names, have the
  same domain only if they have the same purpose and the same name.\<close>

theorem cookieDomain_inject:
  assumes "cookieDomain p n = Inr d" and "cookieDomain p' n' = Inr d"
    and "p \<in> purposes" and "p' \<in> purposes"
  shows "p = p' \<and> n = n'"
proof -
  have n: "CHR '':'' \<notin> set n" "CHR '':'' \<notin> set n'" and eq: "p @ n = p' @ n'"
    using assms(1,2) validCookieName_no_colon by (auto simp: cookieDomain_def split: if_splits)
  have split: "\<exists>q. r = q @ '':''" if "r \<in> purposes" for r
    using that by (auto simp: purposes_def cookieDomainSession_def cookieDomainAuthRedirect_def
        cookieDomainStore_def intro: exI [of _ "''cookie''"] exI [of _ "''cookie:auth_redir''"]
        exI [of _ "''store''"])
  obtain q q' where "p = q @ '':''" "p' = q' @ '':''"
    using split assms(3,4) by blast
  then show ?thesis
    using eq last_separator [OF n, of q q'] by simp
qed

lemma cookieDomain_inject_witness:
  "cookieDomain cookieDomainSession ''token'' = Inr ''cookie:token'' \<and>
   cookieDomainSession = cookieDomainSession \<and> ''token'' = ''token''"
proof -
  have d: "cookieDomain cookieDomainSession ''token'' = Inr ''cookie:token''"
    by (simp add: cookieDomain_def validCookieName_def cookieNameSeparators_def cookieDomainSession_def)
  show ?thesis
    using cookieDomain_inject [OF d d] d by (simp add: purposes_def)
qed

text \<open>A value moved to a cookie of another domain is refused as an authentication failure,
  unless the cipher itself gives the two different additional data the same ciphertext under
  the key and the nonce the value was sealed with.\<close>

theorem openKind_other_domain:
  assumes kr: "keyring_inv kr" and kind: "sessionKind_valid kind"
    and sealed: "sealKind (Some kr) kind d p w = (Inr v, w')" and later: "clock w \<le> now"
    and key: "sealingKey (Some kr) (clock w) = Some key"
    and no_forgery: "\<And>q. aead_Seal (key_aead key) (take 12 (rng w)) q
        (cookieEnvelopeAAD cookieEnvelopeV1 kind (kid key) d') \<noteq>
      aead_Seal (key_aead key) (take 12 (rng w)) p
        (cookieEnvelopeAAD cookieEnvelopeV1 kind (kid key) d)"
  shows "\<exists>e. openKind (Some kr) now kind d' v = Inl e \<and> errors_Is e ErrAuthentication"
proof -
  have rng: "length (take 12 (rng w)) = 12"
    and v: "v = base64_EncodeToString RawURLEncoding (envelope key kind d (take 12 (rng w)) p)"
    using sealed key by (auto simp: sealKind_Inr)
  show ?thesis
    by (simp add: v openKind_base64 openKindRaw_wrong_aad [OF kr key later rng kind no_forgery] error_simps)
qed

lemma sample_aead_neq:
  "sample_tag a \<noteq> sample_tag b \<Longrightarrow>
     aead_Seal (sample_aead k) n q a \<noteq> aead_Seal (sample_aead k) n p b"
  by (simp add: sample_aead_def)

lemma openKind_other_domain_witness:
  "\<exists>v e. openKind (Some sample_keyring) 250 sessionKindHandle ''cookie:t'' v = Inl e \<and>
     errors_Is e ErrAuthentication"
proof -
  let ?w = "\<lparr>clock = 150, rng = replicate 20 (9 :: byte)\<rparr>"
  obtain v w' where v: "sealKind (Some sample_keyring) sessionKindHandle ''cookie:s'' [1, 2] ?w = (Inr v, w')"
    by (auto simp: sealKind_Inr sealingKey_sample)
  have "sample_tag (cookieEnvelopeAAD cookieEnvelopeV1 sessionKindHandle (replicate 8 1) ''cookie:t'') \<noteq>
      sample_tag (cookieEnvelopeAAD cookieEnvelopeV1 sessionKindHandle (replicate 8 1) ''cookie:s'')"
    by (simp add: sample_tag_def cookieEnvelopeAAD_def bytes_of_string_def byte_of_char_def)
  then have "aead_Seal (key_aead (sample_entry 1 100)) (take 12 (rng ?w)) q
        (cookieEnvelopeAAD cookieEnvelopeV1 sessionKindHandle (kid (sample_entry 1 100)) ''cookie:t'') \<noteq>
      aead_Seal (key_aead (sample_entry 1 100)) (take 12 (rng ?w)) [1, 2]
        (cookieEnvelopeAAD cookieEnvelopeV1 sessionKindHandle (kid (sample_entry 1 100)) ''cookie:s'')" for q
    unfolding aead_sample_entry kid_sample_entry by (rule sample_aead_neq)
  then have "\<exists>e. openKind (Some sample_keyring) 250 sessionKindHandle ''cookie:t'' v = Inl e \<and>
      errors_Is e ErrAuthentication"
    by (intro openKind_other_domain [OF keyring_inv_sample _ v, of 250 "sample_entry 1 100"])
       (simp_all add: session_kinds sealingKey_sample)
  then show ?thesis by blast
qed

end
