(* ===== verification/Sealer.thy ===== *)
theory Sealer
  imports Envelope
begin

text \<open>
  \<open>session_sealer.go\<close>: the sealer a token store uses for the handle it puts in the session
  cookie and for the payload it writes to its own storage, with the two domains it derives from
  the name of the session cookie, and the binding of a payload to the row it is written to.
\<close>

section \<open>The sealer\<close>

type_synonym KeyID = bytes

definition KeyID_String :: "KeyID \<Rightarrow> string" where
  "KeyID_String k = hex_EncodeToString k"

definition zeroKeyID :: KeyID where
  "zeroKeyID = replicate cookieKeyIDLength 0"

record SessionSealer =
  sealer_keyring :: CookieKeyring
  sealer_cookieDomain :: string
  sealer_storeDomain :: string

definition NewSessionSealer :: "CookieKeyring option \<Rightarrow> string \<Rightarrow> SessionSealer result" where
  "NewSessionSealer keyring cookieName =
     (case keyring of
        None \<Rightarrow> Inl (New ''a cookie keyring is required'')
      | Some kr \<Rightarrow>
          (case cookieDomain cookieDomainSession cookieName of
             Inl e \<Rightarrow> Inl (Errorf ''session cookie'' [e])
           | Inr cookie \<Rightarrow>
               (case cookieDomain cookieDomainStore cookieName of
                  Inl e \<Rightarrow> Inl (Errorf ''session store'' [e])
                | Inr store \<Rightarrow>
                    Inr \<lparr>sealer_keyring = kr, sealer_cookieDomain = cookie,
                         sealer_storeDomain = store\<rparr>)))"

definition SealHandle :: "SessionSealer \<Rightarrow> bytes \<Rightarrow> 'a world_scheme \<Rightarrow> string result \<times> 'a world_scheme" where
  "SealHandle s handle w =
     (case sealKind (Some (sealer_keyring s)) sessionKindHandle (sealer_cookieDomain s) handle w of
        (Inl e, w') \<Rightarrow> (Inl (Errorf ''seal session handle'' [e]), w')
      | (Inr value, w') \<Rightarrow> (Inr value, w'))"

definition OpenHandle :: "SessionSealer \<Rightarrow> time \<Rightarrow> string \<Rightarrow> (bytes \<times> bool) result" where
  "OpenHandle s now value =
     (case openKind (Some (sealer_keyring s)) now sessionKindHandle (sealer_cookieDomain s) value of
        Inl e \<Rightarrow> Inl (Errorf ''open session handle'' [e])
      | Inr (handle, current) \<Rightarrow> Inr (handle, current))"

definition payloadDomain :: "SessionSealer \<Rightarrow> bytes \<Rightarrow> string" where
  "payloadDomain s rowID = sealer_storeDomain s @ '':'' @ hex_EncodeToString rowID"

definition SealPayload ::
  "SessionSealer \<Rightarrow> bytes \<Rightarrow> bytes \<Rightarrow> 'a world_scheme \<Rightarrow> (bytes \<times> KeyID) result \<times> 'a world_scheme" where
  "SealPayload s rowID payload w =
     (case sealKindRaw (Some (sealer_keyring s)) sessionKindPayload (payloadDomain s rowID) payload w of
        (Inl e, w') \<Rightarrow> (Inl (Errorf ''seal session payload'' [e]), w')
      | (Inr (raw, kd), w') \<Rightarrow> (Inr (raw, kd), w'))"

text \<open>The key id is reported beside an error as well.\<close>

definition OpenPayload ::
  "SessionSealer \<Rightarrow> time \<Rightarrow> bytes \<Rightarrow> bytes \<Rightarrow> go_error \<times> KeyID + bytes \<times> KeyID \<times> bool" where
  "OpenPayload s now rowID sealed =
     (case openKindRaw (Some (sealer_keyring s)) now sessionKindPayload (payloadDomain s rowID) sealed of
        Inl (e, kd) \<Rightarrow> Inl (Errorf ''open session payload'' [e], kd)
      | Inr (plaintext, kd, current) \<Rightarrow> Inr (plaintext, kd, current))"

definition SealingKeyID :: "SessionSealer \<Rightarrow> time \<Rightarrow> KeyID" where
  "SealingKeyID s now =
     (case sealingKey (Some (sealer_keyring s)) now of None \<Rightarrow> zeroKeyID | Some key \<Rightarrow> kid key)"

section \<open>Lemmas\<close>

definition sealer_inv :: "string \<Rightarrow> SessionSealer \<Rightarrow> bool" where
  "sealer_inv name s \<longleftrightarrow> keyring_inv (sealer_keyring s) \<and> validCookieName name \<and>
     sealer_cookieDomain s = cookieDomainSession @ name \<and>
     sealer_storeDomain s = cookieDomainStore @ name"

lemma NewSessionSealer_inv:
  "NewSessionSealer (Some kr) name = Inr s \<Longrightarrow> keyring_inv kr \<Longrightarrow>
     sealer_inv name s \<and> sealer_keyring s = kr"
  by (auto simp: NewSessionSealer_def cookieDomain_def sealer_inv_def split: if_splits)

lemma SealHandle_Inr:
  "SealHandle s h w = (Inr v, w') \<longleftrightarrow>
     sealKind (Some (sealer_keyring s)) sessionKindHandle (sealer_cookieDomain s) h w = (Inr v, w')"
  by (auto simp: SealHandle_def split: prod.splits sum.splits)

lemma SealPayload_Inr:
  "SealPayload s row p w = (Inr r, w') \<longleftrightarrow>
     sealKindRaw (Some (sealer_keyring s)) sessionKindPayload (payloadDomain s row) p w = (Inr r, w')"
  by (auto simp: SealPayload_def split: prod.splits sum.splits)

lemma OpenPayload_Inr:
  "OpenPayload s now row raw = Inr r \<longleftrightarrow>
     openKindRaw (Some (sealer_keyring s)) now sessionKindPayload (payloadDomain s row) raw = Inr r"
  by (auto simp: OpenPayload_def split: sum.splits)

lemma SealPayload_clock [world_simps]: "clock (snd (SealPayload s row p w)) = clock w"
  by (auto simp: SealPayload_def sealKindRaw_def rand_Read_def Let_def
      split: option.splits prod.splits sum.splits if_splits)

lemma payload_domains_inject:
  assumes "sealer_inv n s" and "sealer_inv n' s'" and "payloadDomain s r = payloadDomain s' r'"
  shows "n = n' \<and> r = r'"
proof -
  have c: "CHR '':'' \<notin> set n" "CHR '':'' \<notin> set n'"
    using assms(1,2) validCookieName_no_colon by (auto simp: sealer_inv_def)
  have "n @ CHR '':'' # hex_EncodeToString r = n' @ CHR '':'' # hex_EncodeToString r'"
    using assms by (simp add: payloadDomain_def sealer_inv_def)
  then have "Cut (n @ CHR '':'' # hex_EncodeToString r) CHR '':'' =
      Cut (n' @ CHR '':'' # hex_EncodeToString r') CHR '':''"
    by simp
  then show ?thesis
    by (simp add: Cut_append [OF c(1)] Cut_append [OF c(2)] hex_EncodeToString_inject)
qed

lemma store_domain_not_cookie: "cookieDomainStore @ a \<noteq> cookieDomainSession @ b"
  by (simp add: cookieDomainStore_def cookieDomainSession_def)

lemma open_sealed_payload:
  assumes inv: "keyring_inv (sealer_keyring s)" and sealed: "SealPayload s row p w = (Inr (raw, kd), w')"
    and later: "clock w \<le> now"
  shows "OpenPayload s now row raw = Inr (p, kd, kd = SealingKeyID s now)"
    "kd = SealingKeyID s (clock w)"
proof -
  obtain key where key: "sealingKey (Some (sealer_keyring s)) (clock w) = Some key"
    and kd: "kd = kid key" and rng: "length (take 12 (rng w)) = 12"
    and raw: "raw = envelope key sessionKindPayload (payloadDomain s row) (take 12 (rng w)) p"
    using sealed by (auto simp: SealPayload_Inr sealKindRaw_Inr)
  obtain key' where key': "sealingKey (Some (sealer_keyring s)) now = Some key'"
    using sealingKey_monotone_fact [OF inv key later] by blast
  note k = sealed_key [OF inv key]
  show "OpenPayload s now row raw = Inr (p, kd, kd = SealingKeyID s now)"
    using aead_contract.open_seal [OF k(2) rng]
    by (simp add: OpenPayload_Inr raw openKindRaw_envelope [OF k(1) rng k(2) _ key'] k(3)
        session_kinds kd SealingKeyID_def key')
  show "kd = SealingKeyID s (clock w)"
    by (simp add: SealingKeyID_def key kd)
qed

section \<open>Properties\<close>

definition sample_sealer :: SessionSealer where
  "sample_sealer = \<lparr>sealer_keyring = sample_keyring, sealer_cookieDomain = ''cookie:s'',
     sealer_storeDomain = ''store:s''\<rparr>"

lemma sample_sealer: "NewSessionSealer (Some sample_keyring) ''s'' = Inr sample_sealer"
  by (simp add: NewSessionSealer_def cookieDomain_def validCookieName_def cookieNameSeparators_def
      sample_sealer_def cookieDomainSession_def cookieDomainStore_def)

lemmas sample_sealer_inv = NewSessionSealer_inv [OF sample_sealer keyring_inv_sample, THEN conjunct1]

text \<open>A session handle survives the cookie: what the sealer of a cookie name seals opens
  to the handle at any later time, and is reported current exactly while the key it was sealed
  under is still the one the keyring seals with.\<close>

theorem handle_roundtrip:
  assumes "NewSessionSealer (Some kr) name = Inr s" and "keyring_inv kr"
    and "SealHandle s handle w = (Inr v, w')" and "clock w \<le> now"
  shows "OpenHandle s now v =
    Inr (handle, sealingKey (Some kr) now = sealingKey (Some kr) (clock w))"
proof -
  have s: "sealer_keyring s = kr"
    using NewSessionSealer_inv assms(1,2) by blast
  show ?thesis
    using open_sealKind_fact [OF assms(2) _ _ assms(4), of sessionKindHandle] assms(3)
    by (simp add: SealHandle_Inr OpenHandle_def s session_kinds)
qed

lemma handle_roundtrip_witness:
  "\<exists>v. OpenHandle sample_sealer 250 v = Inr ([7, 8], False)"
proof -
  obtain v w' where v: "SealHandle sample_sealer [7, 8] \<lparr>clock = 150, rng = replicate 20 (9 :: byte)\<rparr> = (Inr v, w')"
    by (auto simp: SealHandle_Inr sample_sealer_def sealKind_Inr sealingKey_sample)
  have "OpenHandle sample_sealer 250 v = Inr ([7, 8], False)"
    using handle_roundtrip [OF sample_sealer keyring_inv_sample v, of 250]
    by (simp add: sealingKey_sample sample_entry_def)
  then show ?thesis by blast
qed

text \<open>A payload survives its row: it opens for the row it was sealed for, to the plaintext
  and the key id it was sealed with, and the key id recorded beside it is what tells whether it
  is current.\<close>

theorem payload_roundtrip:
  assumes "keyring_inv (sealer_keyring s)" and "SealPayload s row p w = (Inr (raw, kd), w')"
    and "clock w \<le> now"
  shows "OpenPayload s now row raw = Inr (p, kd, kd = SealingKeyID s now) \<and>
    kd = SealingKeyID s (clock w)"
  using open_sealed_payload [OF assms] by blast

lemma payload_roundtrip_witness:
  "\<exists>raw. OpenPayload sample_sealer 250 [3] raw = Inr ([7, 8], replicate 8 1, False)"
proof -
  have k: "keyring_inv (sealer_keyring sample_sealer)"
    by (simp add: sample_sealer_def keyring_inv_sample)
  obtain raw kd w' where r: "SealPayload sample_sealer [3] [7, 8]
      \<lparr>clock = 150, rng = replicate 20 (9 :: byte)\<rparr> = (Inr (raw, kd), w')"
    by (auto simp: SealPayload_Inr sample_sealer_def sealKindRaw_Inr sealingKey_sample)
  show ?thesis
    using payload_roundtrip [OF k r, of 250]
    by (auto simp: sample_sealer_def SealingKeyID_def sealingKey_sample replicate_eq_replicate)
qed

text \<open>The label a payload is sealed under names one row of one application: two sealers give
  the same label only for the same cookie name and the same row id, and no such label is the
  label of a cookie.\<close>

theorem payloadDomain_inject:
  assumes "NewSessionSealer (Some kr) n = Inr s" and "NewSessionSealer (Some kr') n' = Inr s'"
    and "keyring_inv kr" and "keyring_inv kr'"
  shows "(payloadDomain s r = payloadDomain s' r' \<longleftrightarrow> n = n' \<and> r = r') \<and>
    payloadDomain s r \<noteq> sealer_cookieDomain s'"
proof -
  note inv = NewSessionSealer_inv [OF assms(1,3), THEN conjunct1]
    NewSessionSealer_inv [OF assms(2,4), THEN conjunct1]
  have "payloadDomain s r \<noteq> sealer_cookieDomain s'"
    using inv store_domain_not_cookie by (simp add: payloadDomain_def sealer_inv_def)
  moreover have "payloadDomain s r = payloadDomain s' r'" if "n = n'" "r = r'"
    using inv that by (simp add: payloadDomain_def sealer_inv_def)
  ultimately show ?thesis
    using payload_domains_inject [OF inv] by blast
qed

lemma payloadDomain_inject_witness:
  "payloadDomain sample_sealer [1] \<noteq> payloadDomain sample_sealer [2] \<and>
   payloadDomain sample_sealer [1] \<noteq> sealer_cookieDomain sample_sealer"
  using payloadDomain_inject [OF sample_sealer sample_sealer keyring_inv_sample keyring_inv_sample,
      of "[1]" "[2]"]
  by (metis list.inject one_neq_zero add_cancel_left_left numeral_One numeral_eq_iff semiring_norm(85) one_add_one)



end
