(* ===== verification/Store.thy ===== *)
theory Store
  imports Prelude
begin

text \<open>
  \<open>token_store.go\<close>: the token set of a session, a session as it is created and as a store
  holds it, the \<open>TokenStore\<close> interface as a record of operations over the environment
  \<open>'w\<close> of the store, and the contract its documentation states, as a locale: what a handle
  stands for, what each operation does to that, and what follows for a session that goes through
  any sequence of updates and re-seals.
\<close>

section \<open>Contexts\<close>

text \<open>A \<open>context.Context\<close>: its own deadline, and the instant at which whoever made it
  cancels it.\<close>

record Context =
  ctx_Deadline :: "time option"
  ctx_cancelled :: "time option"

definition Background :: Context where
  "Background = \<lparr>ctx_Deadline = None, ctx_cancelled = None\<rparr>"

definition WithoutCancel :: "Context \<Rightarrow> Context" where
  "WithoutCancel c = Background"

definition WithDeadline :: "Context \<Rightarrow> time \<Rightarrow> Context" where
  "WithDeadline c d =
     c\<lparr>ctx_Deadline := Some (case ctx_Deadline c of None \<Rightarrow> d | Some d' \<Rightarrow> min d' d)\<rparr>"

definition WithTimeout :: "Context \<Rightarrow> time \<Rightarrow> duration \<Rightarrow> Context" where
  "WithTimeout c now d = WithDeadline c (now + d)"

text \<open>The instant \<open>Done\<close> is closed at, if it ever is.\<close>

definition ctx_Done :: "Context \<Rightarrow> time option" where
  "ctx_Done c =
     (case (ctx_Deadline c, ctx_cancelled c) of
        (None, x) \<Rightarrow> x
      | (Some d, None) \<Rightarrow> Some d
      | (Some d, Some x) \<Rightarrow> Some (min d x))"

definition ctx_Err :: "Context \<Rightarrow> time \<Rightarrow> bool" where
  "ctx_Err c now = (case ctx_Done c of None \<Rightarrow> False | Some t \<Rightarrow> t \<le> now)"

section \<open>Sessions\<close>

text \<open>\<open>oauth2.Token\<close>, without the \<open>Extra\<close> map that no serialisation keeps.\<close>

record Token =
  AccessToken :: string
  TokenType :: string
  RefreshToken :: string
  Expiry :: time
  ExpiresIn :: int

record NewSession =
  ns_Subject :: string
  ns_Token :: "Token option"
  ns_IDToken :: string

record StoredToken =
  Handle :: string
  Subject :: string
  st_Token :: "Token option"
  IDToken :: string
  IssuedAt :: time
  ExpiresAt :: time
  Stale :: bool

section \<open>The interface\<close>

text \<open>\<open>Reseal\<close> and \<open>Refresh\<close> take the session a caller has read, which is not nil.\<close>

type_synonym 'w exchange = "Context \<Rightarrow> Token option \<Rightarrow> 'w \<Rightarrow> Token option result \<times> 'w"

record 'w TokenStore =
  ts_Create :: "Context \<Rightarrow> NewSession \<Rightarrow> 'w \<Rightarrow> StoredToken option result \<times> 'w"
  ts_Get :: "Context \<Rightarrow> string \<Rightarrow> 'w \<Rightarrow> StoredToken option result \<times> 'w"
  ts_Update :: "Context \<Rightarrow> string \<Rightarrow> Token option \<Rightarrow> 'w \<Rightarrow> StoredToken option result \<times> 'w"
  ts_Reseal :: "Context \<Rightarrow> StoredToken \<Rightarrow> 'w \<Rightarrow> StoredToken option result \<times> 'w"
  ts_Delete :: "Context \<Rightarrow> string \<Rightarrow> 'w \<Rightarrow> unit result \<times> 'w"
  ts_Refresh :: "Context \<Rightarrow> StoredToken \<Rightarrow> 'w exchange \<Rightarrow> 'w \<Rightarrow> StoredToken option result \<times> 'w"
  ts_DeleteExpired :: "Context \<Rightarrow> int \<Rightarrow> 'w \<Rightarrow> int result \<times> 'w"

section \<open>The contract\<close>

text \<open>What a handle stands for: everything of a session but the handle itself, and whether it
  wants re-sealing.\<close>

record session_content =
  c_Subject :: string
  c_Token :: "Token option"
  c_IDToken :: string
  c_IssuedAt :: time

definition content :: "StoredToken \<Rightarrow> session_content" where
  "content s = \<lparr>c_Subject = Subject s, c_Token = st_Token s, c_IDToken = IDToken s,
     c_IssuedAt = IssuedAt s\<rparr>"

text \<open>What a caller can do to a session it holds: replace the tokens, re-seal the handle, or
  let time pass.\<close>

datatype 'w session_op = OpUpdate Token | OpReseal | OpPass 'w

fun run_session ::
  "(string \<Rightarrow> Token option \<Rightarrow> 'w \<Rightarrow> StoredToken option result \<times> 'w) \<Rightarrow>
   (StoredToken option \<Rightarrow> 'w \<Rightarrow> StoredToken option result \<times> 'w) \<Rightarrow>
   'w session_op list \<Rightarrow> StoredToken \<Rightarrow> 'w \<Rightarrow> (StoredToken \<times> 'w) option" where
  "run_session upd rsl [] s w = Some (s, w)"
| "run_session upd rsl (OpUpdate tok # ops) s w =
     (case upd (Handle s) (Some tok) w of
        (Inr (Some s'), w') \<Rightarrow> run_session upd rsl ops s' w'
      | _ \<Rightarrow> None)"
| "run_session upd rsl (OpReseal # ops) s w =
     (case rsl (Some s) w of
        (Inr (Some s'), w') \<Rightarrow> run_session upd rsl ops s' w'
      | _ \<Rightarrow> None)"
| "run_session upd rsl (OpPass w' # ops) s w = run_session upd rsl ops s w'"

text \<open>Along a run, time only moves the way the environment lets it.\<close>

fun passes ::
  "('w \<Rightarrow> 'w \<Rightarrow> bool) \<Rightarrow>
   (string \<Rightarrow> Token option \<Rightarrow> 'w \<Rightarrow> StoredToken option result \<times> 'w) \<Rightarrow>
   (StoredToken option \<Rightarrow> 'w \<Rightarrow> StoredToken option result \<times> 'w) \<Rightarrow>
   'w session_op list \<Rightarrow> StoredToken \<Rightarrow> 'w \<Rightarrow> bool" where
  "passes later upd rsl [] s w = True"
| "passes later upd rsl (OpUpdate tok # ops) s w =
     (case upd (Handle s) (Some tok) w of
        (Inr (Some s'), w') \<Rightarrow> passes later upd rsl ops s' w'
      | _ \<Rightarrow> True)"
| "passes later upd rsl (OpReseal # ops) s w =
     (case rsl (Some s) w of
        (Inr (Some s'), w') \<Rightarrow> passes later upd rsl ops s' w'
      | _ \<Rightarrow> True)"
| "passes later upd rsl (OpPass w' # ops) s w = (later w w' \<and> passes later upd rsl ops s w')"

text \<open>
  \<^item> \<open>ready w\<close>: the store can seal, and its storage answers.
  \<^item> \<open>now w\<close>: the clock the store measures a session's age by.
  \<^item> \<open>holds w h c\<close>: the handle \<open>h\<close> stands for the content \<open>c\<close>.
  \<^item> \<open>later w w'\<close>: from \<open>w\<close> to \<open>w'\<close> only time has passed.
  \<^item> \<open>storable c\<close>: the content is one the store can write down and read back.
  \<^item> \<open>kept c\<close>: what the store keeps of a content (a store-less session drops the id token).
\<close>

locale session_store =
  fixes Create :: "NewSession \<Rightarrow> 'w \<Rightarrow> StoredToken option result \<times> 'w"
    and Get :: "string \<Rightarrow> 'w \<Rightarrow> StoredToken option result \<times> 'w"
    and Update :: "string \<Rightarrow> Token option \<Rightarrow> 'w \<Rightarrow> StoredToken option result \<times> 'w"
    and Reseal :: "StoredToken option \<Rightarrow> 'w \<Rightarrow> StoredToken option result \<times> 'w"
    and age :: duration
    and ready :: "'w \<Rightarrow> bool" and now :: "'w \<Rightarrow> time"
    and holds :: "'w \<Rightarrow> string \<Rightarrow> session_content \<Rightarrow> bool"
    and later :: "'w \<Rightarrow> 'w \<Rightarrow> bool"
    and storable :: "session_content \<Rightarrow> bool" and kept :: "session_content \<Rightarrow> session_content"
  assumes Create_holds: "\<lbrakk>ready w; Create ns w = (Inr (Some s), w'); storable (content s)\<rbrakk> \<Longrightarrow>
      ready w' \<and> holds w' (Handle s) (content s) \<and> IssuedAt s = now w \<and> ExpiresAt s = IssuedAt s + age \<and>
      content s = kept \<lparr>c_Subject = ns_Subject ns, c_Token = ns_Token ns, c_IDToken = ns_IDToken ns,
        c_IssuedAt = now w\<rparr>"
    and Get_live: "\<lbrakk>ready w; holds w h c; now w < c_IssuedAt c + age; Get h w = (r, w')\<rbrakk> \<Longrightarrow>
      (\<exists>s. r = Inr (Some s) \<and> Handle s = h \<and> content s = c \<and> ExpiresAt s = c_IssuedAt c + age) \<and>
      later w w'"
    and Get_expired: "\<lbrakk>ready w; holds w h c; c_IssuedAt c + age \<le> now w\<rbrakk> \<Longrightarrow>
      \<exists>e. fst (Get h w) = Inl e \<and> errors_Is e ErrNoSession"
    and Update_holds: "\<lbrakk>ready w; holds w h c; Update h (Some tok) w = (Inr (Some s), w');
        storable (c\<lparr>c_Token := Some tok\<rparr>)\<rbrakk> \<Longrightarrow>
      ready w' \<and> holds w' (Handle s) (c\<lparr>c_Token := Some tok\<rparr>) \<and> content s = c\<lparr>c_Token := Some tok\<rparr> \<and>
      now w \<le> now w'"
    and Reseal_holds: "\<lbrakk>ready w; holds w (Handle t) (content t); storable (content t);
        Reseal (Some t) w = (Inr (Some s), w')\<rbrakk> \<Longrightarrow>
      ready w' \<and> holds w' (Handle s) (content t) \<and> content s = content t \<and> \<not> Stale s \<and>
      now w \<le> now w'"
    and later_holds: "\<lbrakk>later w w'; holds w h c\<rbrakk> \<Longrightarrow> holds w' h c"
    and later_ready: "\<lbrakk>later w w'; ready w\<rbrakk> \<Longrightarrow> ready w'"
    and later_now: "later w w' \<Longrightarrow> now w \<le> now w'"
begin

text \<open>No sequence of updates and re-seals moves the session's start or its subject.\<close>

lemma run_session_holds:
  assumes "run_session Update Reseal ops s w = Some (s', w')" and "passes later Update Reseal ops s w"
    and "ready w" and "holds w (Handle s) (content s)" and "storable (content s)"
    and "\<And>tok. OpUpdate tok \<in> set ops \<Longrightarrow> storable ((content s)\<lparr>c_Token := Some tok\<rparr>)"
  shows "ready w' \<and> holds w' (Handle s') (content s') \<and> now w \<le> now w' \<and>
    (\<exists>tok. content s' = (content s)\<lparr>c_Token := tok\<rparr>)"
  using assms
proof (induction ops arbitrary: s w)
  case Nil
  then show ?case by (auto simp: content_def intro: exI [of _ "st_Token s'"])
next
  case (Cons op ops)
  show ?case
  proof (cases op)
    case (OpUpdate tok)
    with Cons.prems obtain s1 w1 where u: "Update (Handle s) (Some tok) w = (Inr (Some s1), w1)"
      by (auto split: prod.splits sum.splits option.splits)
    have st: "storable ((content s)\<lparr>c_Token := Some tok\<rparr>)"
      using Cons.prems(6) OpUpdate by simp
    note h = Update_holds [OF Cons.prems(3,4) u st]
    have "ready w' \<and> holds w' (Handle s') (content s') \<and> now w1 \<le> now w' \<and>
        (\<exists>tok. content s' = (content s1)\<lparr>c_Token := tok\<rparr>)"
      by (rule Cons.IH) (use Cons.prems OpUpdate u h st in auto)
    then show ?thesis using h by auto
  next
    case OpReseal
    with Cons.prems obtain s1 w1 where u: "Reseal (Some s) w = (Inr (Some s1), w1)"
      by (auto split: prod.splits sum.splits option.splits)
    note h = Reseal_holds [OF Cons.prems(3,4,5) u]
    have "ready w' \<and> holds w' (Handle s') (content s') \<and> now w1 \<le> now w' \<and>
        (\<exists>tok. content s' = (content s1)\<lparr>c_Token := tok\<rparr>)"
      by (rule Cons.IH) (use Cons.prems OpReseal u h in auto)
    then show ?thesis using h by auto
  next
    case (OpPass w1)
    have "ready w' \<and> holds w' (Handle s') (content s') \<and> now w1 \<le> now w' \<and>
        (\<exists>tok. content s' = (content s)\<lparr>c_Token := tok\<rparr>)"
      by (rule Cons.IH) (use Cons.prems OpPass later_holds later_ready in auto)
    then show ?thesis using Cons.prems(2) OpPass later_now by fastforce
  qed
qed

text \<open>So the absolute expiry is fixed when the session is created: once that much time has
  passed, no handle the session has ever gone through resolves.\<close>

lemma lifetime_capped:
  assumes "ready w" and "Create ns w = (Inr (Some s), w1)"
    and "run_session Update Reseal ops s w1 = Some (s', w')" and "passes later Update Reseal ops s w1"
    and "storable (content s)"
    and "\<And>tok. OpUpdate tok \<in> set ops \<Longrightarrow> storable ((content s)\<lparr>c_Token := Some tok\<rparr>)"
  shows "IssuedAt s' = now w \<and> Subject s' = c_Subject (content s) \<and>
    (if now w + age \<le> now w' then \<exists>e. fst (Get (Handle s') w') = Inl e \<and> errors_Is e ErrNoSession
     else \<exists>t. fst (Get (Handle s') w') = Inr (Some t) \<and> content t = content s')"
proof -
  note c = Create_holds [OF assms(1,2,5)]
  note r = run_session_holds [OF assms(3,4) _ _ assms(5,6)]
  have r: "ready w'" "holds w' (Handle s') (content s')" "\<exists>tok. content s' = (content s)\<lparr>c_Token := tok\<rparr>"
    using r c by auto
  have i: "c_IssuedAt (content s') = now w" "IssuedAt s' = now w" "Subject s' = c_Subject (content s)"
    using r(3) c by (auto simp: content_def)
  have "\<exists>t. fst (Get (Handle s') w') = Inr (Some t) \<and> content t = content s'"
    if "now w' < now w + age"
    using Get_live [OF r(1,2), of "fst (Get (Handle s') w')" "snd (Get (Handle s') w')"] that i
    by auto
  moreover have "\<exists>e. fst (Get (Handle s') w') = Inl e \<and> errors_Is e ErrNoSession"
    if "now w + age \<le> now w'"
    using Get_expired [OF r(1,2)] that i by auto
  ultimately show ?thesis using i by auto
qed

end

end
