(* ===== verification/JsonString.thy ===== *)
theory JsonString
  imports Prelude
begin

text \<open>
  The strings of encoding/json: UTF-8, the literal \<open>Marshal\<close> writes for a string and what
  \<open>Unmarshal\<close> reads a literal as.  A literal that was written for a string is read back as the
  string, with every byte that is no part of a character as the replacement character.
\<close>

section \<open>UTF-8\<close>

definition between :: "nat \<Rightarrow> char \<Rightarrow> nat \<Rightarrow> bool" where
  "between a c b \<longleftrightarrow> a \<le> of_char c \<and> of_char c \<le> b"

text \<open>The well-formed sequences: the bytes one begins with, and the bytes that follow.\<close>

definition utf8_forms :: "(nat \<times> nat \<times> (nat \<times> nat) list) list" where
  "utf8_forms =
     [(0x00, 0x7F, []),
      (0xC2, 0xDF, [(0x80, 0xBF)]),
      (0xE0, 0xE0, [(0xA0, 0xBF), (0x80, 0xBF)]),
      (0xE1, 0xEC, [(0x80, 0xBF), (0x80, 0xBF)]),
      (0xED, 0xED, [(0x80, 0x9F), (0x80, 0xBF)]),
      (0xEE, 0xEF, [(0x80, 0xBF), (0x80, 0xBF)]),
      (0xF0, 0xF0, [(0x90, 0xBF), (0x80, 0xBF), (0x80, 0xBF)]),
      (0xF1, 0xF3, [(0x80, 0xBF), (0x80, 0xBF), (0x80, 0xBF)]),
      (0xF4, 0xF4, [(0x80, 0x8F), (0x80, 0xBF), (0x80, 0xBF)])]"

text \<open>The length of the character a text begins with, or 0 where its first byte is out of place.\<close>

fun rune_len :: "string \<Rightarrow> nat" where
  "rune_len [] = 0"
| "rune_len (c # s) =
     (case find (\<lambda>(a, b, _). between a c b) utf8_forms of
        None \<Rightarrow> 0
      | Some (_, _, t) \<Rightarrow>
          if list_all2 (\<lambda>(a, b) c. between a c b) t (take (length t) s) then Suc (length t) else 0)"

definition replacement :: string where
  "replacement = [CHR 0xEF, CHR 0xBF, CHR 0xBD]"

text \<open>\<open>utf8.EncodeRune\<close>.\<close>

definition EncodeRune :: "nat \<Rightarrow> string" where
  "EncodeRune r =
     (if r < 0x80 then [char_of r]
      else if r < 0x800 then [char_of (0xC0 + r div 64), char_of (0x80 + r mod 64)]
      else if 0xD800 \<le> r \<and> r < 0xE000 \<or> 0x10FFFF < r then replacement
      else if r < 0x10000 then
        [char_of (0xE0 + r div 4096), char_of (0x80 + r div 64 mod 64), char_of (0x80 + r mod 64)]
      else [char_of (0xF0 + r div 262144), char_of (0x80 + r div 4096 mod 64),
            char_of (0x80 + r div 64 mod 64), char_of (0x80 + r mod 64)])"

text \<open>A text with each byte out of place replaced.\<close>

function ToValidUTF8 :: "string \<Rightarrow> string" where
  "ToValidUTF8 [] = []"
| "ToValidUTF8 (c # s) =
     (let n = rune_len (c # s) in
      if n = 0 then replacement @ ToValidUTF8 s
      else c # take (n - 1) s @ ToValidUTF8 (drop (n - 1) s))"
  by pat_completeness auto
termination
  by (relation "measure length") auto

definition ValidString :: "string \<Rightarrow> bool" where
  "ValidString s \<longleftrightarrow> ToValidUTF8 s = s"

section \<open>Reading a literal\<close>

fun getu4 :: "string \<Rightarrow> nat option" where
  "getu4 (a # b # c # d # s) =
     (case (unhex a, unhex b, unhex c, unhex d) of
        (Some w, Some x, Some y, Some z) \<Rightarrow> Some (4096 * w + 256 * x + 16 * y + z)
      | _ \<Rightarrow> None)"
| "getu4 s = None"

text \<open>What follows \<open>\u\<close>: the character and how many bytes of the text it takes, a pair of surrogates
  being one character, and a surrogate alone the replacement.\<close>

definition unicode_escape :: "string \<Rightarrow> (string \<times> nat) option" where
  "unicode_escape s =
     (case getu4 s of
        None \<Rightarrow> None
      | Some r \<Rightarrow>
          if 0xD800 \<le> r \<and> r < 0xE000 then
            (case (take 2 (drop 4 s) = [CHR 0x5C, CHR ''u''], getu4 (drop 6 s)) of
               (True, Some r1) \<Rightarrow>
                 if r < 0xDC00 \<and> 0xDC00 \<le> r1 \<and> r1 < 0xE000 then
                   Some (EncodeRune (0x10000 + (r - 0xD800) * 1024 + (r1 - 0xDC00)), 10)
                 else Some (replacement, 4)
             | _ \<Rightarrow> Some (replacement, 4))
          else Some (EncodeRune r, 4))"

text \<open>The next character of a literal, and how many bytes after its first one it takes.\<close>

definition literal_char :: "char \<Rightarrow> string \<Rightarrow> (string \<times> nat) option" where
  "literal_char c s =
     (if c = CHR 0x5C then
        (case s of
           [] \<Rightarrow> None
         | e # r \<Rightarrow>
             if e = CHR ''u'' then map_option (\<lambda>(out, n). (out, Suc n)) (unicode_escape r)
             else map_option (\<lambda>out. ([out], 1))
               (map_of [(CHR 0x22, CHR 0x22), (CHR 0x5C, CHR 0x5C), (CHR ''/'', CHR ''/''),
                 (CHR ''b'', CHR 0x08), (CHR ''f'', CHR 0x0C), (CHR ''n'', CHR 0x0A),
                 (CHR ''r'', CHR 0x0D), (CHR ''t'', CHR 0x09)] e))
      else if c = CHR 0x22 \<or> between 0 c 0x1F then None
      else let n = rune_len (c # s) in
        if n = 0 then Some (replacement, 0) else Some (c # take (n - 1) s, n - 1))"

function unquote :: "string \<Rightarrow> string option" where
  "unquote [] = Some []"
| "unquote (c # s) =
     (case literal_char c s of
        None \<Rightarrow> None
      | Some (out, n) \<Rightarrow> map_option (\<lambda>t. out @ t) (unquote (drop n s)))"
  by pat_completeness auto
termination
  by (relation "measure length") auto

section \<open>Writing a literal\<close>

text \<open>\<open>\u00\<close> and the two hexadecimal digits of a byte.\<close>

definition escape_byte :: "char \<Rightarrow> string" where
  "escape_byte c =
     (let n = of_char c in [CHR 0x5C, CHR ''u'', CHR ''0'', CHR ''0'', ''0123456789abcdef'' ! (n div 16),
        ''0123456789abcdef'' ! (n mod 16)])"

definition escape_ascii :: "char \<Rightarrow> string" where
  "escape_ascii c =
     (if c = CHR 0x22 \<or> c = CHR 0x5C then [CHR 0x5C, c]
      else case map_of [(CHR 0x08, CHR ''b''), (CHR 0x0C, CHR ''f''), (CHR 0x0A, CHR ''n''),
          (CHR 0x0D, CHR ''r''), (CHR 0x09, CHR ''t'')] c of
        Some e \<Rightarrow> [CHR 0x5C, e]
      | None \<Rightarrow> if between 0 c 0x1F \<or> c \<in> set ''<>&'' then escape_byte c else [c])"

text \<open>The literal of a string: what HTML could take for markup is escaped as well, and so are the two
  line separators of Unicode that JavaScript ends a line at.\<close>

function quote :: "string \<Rightarrow> string" where
  "quote [] = []"
| "quote (c # s) =
     (let n = rune_len (c # s) in
      if n = 0 then CHR 0x5C # ''ufffd'' @ quote s
      else if n = 1 then escape_ascii c @ quote s
      else if c # take (n - 1) s \<in> {[CHR 0xE2, CHR 0x80, CHR 0xA8], [CHR 0xE2, CHR 0x80, CHR 0xA9]} then
        CHR 0x5C # ''u202'' @ [if s ! 1 = CHR 0xA8 then CHR ''8'' else CHR ''9''] @ quote (drop (n - 1) s)
      else c # take (n - 1) s @ quote (drop (n - 1) s))"
  by pat_completeness auto
termination
  by (relation "measure length") auto

section \<open>What is written is read back\<close>

lemma utf8_bytes:
  "char_of (239 :: nat) = CHR 0xEF" "char_of (191 :: nat) = CHR 0xBF" "char_of (189 :: nat) = CHR 0xBD"
  "char_of (226 :: nat) = CHR 0xE2" "char_of (128 :: nat) = CHR 0x80" "char_of (168 :: nat) = CHR 0xA8"
  "char_of (169 :: nat) = CHR 0xA9"
  by code_simp+

lemma rune_len_le: "rune_len s \<le> length s"
  by (cases s) (auto split: option.split dest!: list_all2_lengthD)

lemma rune_len_append:
  assumes "rune_len (c # s) = Suc n"
  shows "rune_len (c # take n s @ r) = Suc n"
proof -
  obtain a b t where t: "find (\<lambda>(a, b, _). between a c b) utf8_forms = Some (a, b, t)" "n = length t"
    "list_all2 (\<lambda>(a, b) c. between a c b) t (take n s)"
    using assms by (auto split: option.splits if_splits)
  then have "length (take n s) = n"
    using list_all2_lengthD by metis
  then have "take n (take n s @ r) = take n s"
    by (simp del: length_take)
  then show ?thesis
    using t by (simp del: take_append)
qed

lemma rune_len_ascii: "rune_len (c # s) = Suc 0 \<longleftrightarrow> between 0 c 0x7F"
  by (auto simp: utf8_forms_def split: option.splits if_splits)

declare rune_len.simps [simp del]

lemma rune_len_multi:
  assumes "1 < rune_len (c # s)"
  obtains n where "rune_len (c # s) = Suc n" "rune_len (c # take n s @ r) = Suc n" "n \<le> length s"
    "\<not> between 0 c 0x7F"
proof (rule that)
  show n: "rune_len (c # s) = Suc (rune_len (c # s) - 1)"
    using assms by simp
  show "rune_len (c # take (rune_len (c # s) - 1) s @ r) = Suc (rune_len (c # s) - 1)"
    using rune_len_append [OF n] .
  show "rune_len (c # s) - 1 \<le> length s"
    using rune_len_le [of "c # s"] by simp
  show "\<not> between 0 c 0x7F"
    using assms rune_len_ascii [of c s] by auto
qed

lemma unquote_chunk:
  "literal_char c (t @ r) = Some (out, length t) \<Longrightarrow> unquote (c # t @ r) = map_option (\<lambda>x. out @ x) (unquote r)"
  by simp

lemma literal_char_replacement: "literal_char CHR 0x5C (''ufffd'' @ r) = Some (replacement, length ''ufffd'')"
  by (simp add: literal_char_def unicode_escape_def unhex_def EncodeRune_def replacement_def utf8_bytes)

lemma unhex_hexdigit: "n < 16 \<Longrightarrow> unhex (''0123456789abcdef'' ! n) = Some n"
proof -
  assume "n < 16"
  then have "n \<in> set [0..<16]" by simp
  then show ?thesis
    by (simp add: upt_rec) (elim disjE, simp_all add: unhex_def)
qed

lemma EncodeRune_ascii: "between 0 c 0x7F \<Longrightarrow> EncodeRune (of_char c) = [c]"
  by (simp add: EncodeRune_def between_def)

lemma literal_char_byte:
  assumes "between 0 c 0x7F"
  shows "literal_char CHR 0x5C (tl (escape_byte c) @ r) = Some ([c], 5)"
proof -
  have n: "of_char c div 16 < (16 :: nat)" "of_char c div 16 * 16 + of_char c mod 16 = (of_char c :: nat)"
    and "(of_char c :: nat) < 128"
    using assms by (simp_all add: between_def)
  then show ?thesis
    using EncodeRune_ascii [OF assms]
    by (simp add: literal_char_def unicode_escape_def escape_byte_def Let_def unhex_hexdigit unhex_def [of "CHR ''0''"])
qed

lemma literal_char_ascii:
  assumes "between 0 c 0x7F"
  shows "\<exists>e t. escape_ascii c = e # t \<and> (\<forall>r. literal_char e (t @ r) = Some ([c], length t))"
proof -
  consider "c = CHR 0x22 \<or> c = CHR 0x5C" | "c \<in> {CHR 0x08, CHR 0x0C, CHR 0x0A, CHR 0x0D, CHR 0x09}"
    | "c \<notin> {CHR 0x22, CHR 0x5C, CHR 0x08, CHR 0x0C, CHR 0x0A, CHR 0x0D, CHR 0x09}" "between 0 c 0x1F \<or> c \<in> set ''<>&''"
    | "c \<notin> {CHR 0x22, CHR 0x5C, CHR 0x08, CHR 0x0C, CHR 0x0A, CHR 0x0D, CHR 0x09}" "\<not> (between 0 c 0x1F \<or> c \<in> set ''<>&'')"
    by blast
  then show ?thesis
  proof cases
    case 3
    then have "escape_ascii c = CHR 0x5C # tl (escape_byte c)"
      by (auto simp: escape_ascii_def escape_byte_def Let_def)
    moreover have "length (tl (escape_byte c)) = 5"
      by (simp add: escape_byte_def Let_def)
    ultimately show ?thesis
      using literal_char_byte [OF assms] by auto
  next
    case 4
    then have "escape_ascii c = [c]"
      by (auto simp: escape_ascii_def)
    moreover have "rune_len (c # r) = 1" for r
      using rune_len_ascii assms by simp
    ultimately show ?thesis
      using 4 by (auto simp: literal_char_def)
  qed (auto simp: escape_ascii_def literal_char_def)
qed

lemma literal_char_separator:
  "e = CHR ''8'' \<or> e = CHR ''9'' \<Longrightarrow>
     literal_char CHR 0x5C ((''u202'' @ [e]) @ r) =
       Some ([CHR 0xE2, CHR 0x80, if e = CHR ''8'' then CHR 0xA8 else CHR 0xA9], length (''u202'' @ [e]))"
  by (auto simp: literal_char_def unicode_escape_def unhex_def EncodeRune_def utf8_bytes)

theorem unquote_quote: "unquote (quote s) = Some (ToValidUTF8 s)"
proof (induction s rule: quote.induct)
  case (2 c s)
  define n where "n = rune_len (c # s)"
  consider "n = 0" | "n = 1" | "1 < n" by linarith
  then show ?case
  proof cases
    case 1
    then have "quote (c # s) = CHR 0x5C # ''ufffd'' @ quote s" "ToValidUTF8 (c # s) = replacement @ ToValidUTF8 s"
      by (simp_all add: n_def)
    then show ?thesis
      using unquote_chunk [OF literal_char_replacement] 2(1) [OF refl] 1 n_def by (simp del: unquote.simps quote.simps)
  next
    case b: 2
    then obtain e t where "escape_ascii c = e # t" "\<And>r. literal_char e (t @ r) = Some ([c], length t)"
      using literal_char_ascii rune_len_ascii n_def by (metis One_nat_def)
    moreover have "quote (c # s) = escape_ascii c @ quote s" "ToValidUTF8 (c # s) = c # ToValidUTF8 s"
      using b by (simp_all add: n_def)
    ultimately show ?thesis
      using unquote_chunk [of e t "quote s" "[c]"] 2(2) [OF refl] b n_def by (simp del: unquote.simps quote.simps)
  next
    case c: 3
    obtain k where k: "n = Suc k" "\<And>r. rune_len (c # take k s @ r) = Suc k" "k \<le> length s" "\<not> between 0 c 0x7F"
      using rune_len_multi [of c s] c unfolding n_def by (metis Suc_inject)
    have valid: "ToValidUTF8 (c # s) = c # take k s @ ToValidUTF8 (drop k s)"
      using k(1) n_def by simp
    have lit: "literal_char c (take k s @ r) = Some (c # take k s, length (take k s))" for r
      using k c by (auto simp: literal_char_def between_def)
    have IH: "unquote (quote (drop k s)) = Some (ToValidUTF8 (drop k s))"
      using 2(3,4) k(1) c unfolding n_def by (cases "c # take k s \<in> {[CHR 0xE2, CHR 0x80, CHR 0xA8], [CHR 0xE2, CHR 0x80, CHR 0xA9]}") simp_all
    show ?thesis
    proof (cases "c # take k s \<in> {[CHR 0xE2, CHR 0x80, CHR 0xA8], [CHR 0xE2, CHR 0x80, CHR 0xA9]}")
      case False
      then have "quote (c # s) = c # take k s @ quote (drop k s)"
        using k(1) c by (simp add: n_def Let_def)
      then show ?thesis
        using unquote_chunk [OF lit] IH valid by (simp del: unquote.simps quote.simps)
    next
      case True
      define e where "e = (if s ! 1 = CHR 0xA8 then CHR ''8'' else CHR ''9'')"
      have e: "e = CHR ''8'' \<or> e = CHR ''9''"
        by (simp add: e_def)
      have "quote (c # s) = CHR 0x5C # (''u202'' @ [e]) @ quote (drop k s)"
        using k(1) c True by (simp add: n_def Let_def e_def)
      moreover have "c # take k s = [CHR 0xE2, CHR 0x80, if e = CHR ''8'' then CHR 0xA8 else CHR 0xA9]"
      proof -
        have "length (take k s) = 2"
          using True by (auto simp del: length_take)
        then have "take k s ! 1 = s ! 1"
          by (auto simp: min_def split: if_splits)
        then show ?thesis
          using True by (auto simp: e_def)
      qed
      ultimately show ?thesis
        using unquote_chunk [OF literal_char_separator [OF e]] IH valid
        by (simp del: unquote.simps quote.simps ToValidUTF8.simps)
    qed
  qed
qed simp
text \<open>A literal ends where its text does: no quote ends it before.\<close>

fun closed :: "string \<Rightarrow> bool" where
  "closed [] = True"
| "closed (c # s) =
     (if c = CHR 0x5C then (case s of [] \<Rightarrow> False | e # r \<Rightarrow> closed r)
      else c \<noteq> CHR 0x22 \<and> closed s)"

definition literal_ok :: "string \<Rightarrow> bool" where
  "literal_ok raw \<longleftrightarrow> closed raw \<and> unquote raw \<noteq> None"

lemma closed_append: "closed a \<Longrightarrow> closed (a @ b) = closed b"
  by (induction a rule: closed.induct) (auto split: if_splits list.splits)

lemma closed_ascii: "closed (escape_ascii c @ b) = closed b"
proof -
  consider "c = CHR 0x22 \<or> c = CHR 0x5C" | "c \<in> {CHR 0x08, CHR 0x0C, CHR 0x0A, CHR 0x0D, CHR 0x09}"
    | "c \<notin> {CHR 0x22, CHR 0x5C, CHR 0x08, CHR 0x0C, CHR 0x0A, CHR 0x0D, CHR 0x09}" "between 0 c 0x1F \<or> c \<in> set ''<>&''"
    | "c \<notin> {CHR 0x22, CHR 0x5C, CHR 0x08, CHR 0x0C, CHR 0x0A, CHR 0x0D, CHR 0x09}" "\<not> (between 0 c 0x1F \<or> c \<in> set ''<>&'')"
    by blast
  then show ?thesis
  proof cases
    case 3
    have "n < 16 \<Longrightarrow> ''0123456789abcdef'' ! n \<notin> {CHR 0x22, CHR 0x5C}" for n
    proof -
      assume "n < 16"
      then have "''0123456789abcdef'' ! n \<in> set ''0123456789abcdef''" by (intro nth_mem) simp
      then show ?thesis by auto
    qed
    moreover have "of_char c < (256 :: nat)"
      by simp
    then have "of_char c div 16 < (16 :: nat)" "of_char c mod 16 < (16 :: nat)"
      by linarith+
    ultimately have "closed (escape_byte c @ b) = closed b"
      by (simp add: escape_byte_def Let_def)
    then show ?thesis
      using 3 by (auto simp: escape_ascii_def)
  next
    case 4
    then show ?thesis
      by (auto simp: escape_ascii_def)
  qed (auto simp: escape_ascii_def)
qed

lemma utf8_tails: "(a, b, t) \<in> set utf8_forms \<Longrightarrow> (x, y) \<in> set t \<Longrightarrow> 0x80 \<le> x"
  by (auto simp: utf8_forms_def)

lemma rune_tail:
  assumes "rune_len (c # s) = Suc n" and "0 < n"
  shows "list_all (\<lambda>x. \<not> between 0 x 0x7F) (c # take n s)"
proof -
  obtain a b t where t: "find (\<lambda>(a, b, _). between a c b) utf8_forms = Some (a, b, t)"
    "list_all2 (\<lambda>(a, b) c. between a c b) t (take n s)"
    using assms by (auto simp: rune_len.simps split: option.splits if_splits)
  have "(a, b, t) \<in> set utf8_forms"
    using t(1) by (metis find_Some_iff nth_mem)
  moreover have "\<not> between 0 c 0x7F"
    using assms rune_len_ascii [of c s] by auto
  ultimately show ?thesis
    using t(2) utf8_tails by (fastforce simp: list_all_iff list_all2_conv_all_nth in_set_conv_nth between_def)
qed

lemma closed_plain: "list_all (\<lambda>x. \<not> between 0 x 0x7F) a \<Longrightarrow> closed a"
  by (induction a) (auto simp: between_def)

lemma closed_quote: "closed (quote s)"
proof (induction s rule: quote.induct)
  case (2 c s)
  define n where "n = rune_len (c # s)"
  consider "n = 0" | "n = 1" | k where "n = Suc k" "0 < k"
    by (metis One_nat_def gr0_conv_Suc not_gr_zero)
  then show ?case
  proof cases
    case 1
    then show ?thesis
      using 2(1) [OF refl] by (simp add: n_def)
  next
    case b: 2
    then show ?thesis
      using 2(2) [OF refl] closed_ascii by (simp add: n_def)
  next
    case (3 k)
    then have "closed (c # take k s)"
      using rune_tail closed_plain n_def by metis
    then show ?thesis
      using 2(3,4) [OF refl] 3 closed_append [of "c # take k s"] unfolding n_def [symmetric] by (auto simp: Let_def n_def [symmetric])
  qed
qed simp

lemma literal_ok_quote: "literal_ok (quote s)"
  by (simp add: literal_ok_def closed_quote unquote_quote)

text \<open>What needs no escape is its own literal.\<close>

lemma literal_ok_plain:
  assumes "list_all (\<lambda>c. between 0x20 c 0x7F \<and> c \<noteq> CHR 0x22 \<and> c \<noteq> CHR 0x5C) s"
  shows "literal_ok s" "unquote s = Some s"
proof -
  have "closed s \<and> unquote s = Some s"
    using assms
  proof (induction s)
    case (Cons c s)
    then have "rune_len (c # s) = 1"
      using rune_len_ascii by (simp add: between_def)
    then have "literal_char c s = Some ([c], 0)"
      using Cons(2) by (auto simp: literal_char_def between_def)
    then show ?case
      using Cons by simp
  qed simp
  then show "literal_ok s" "unquote s = Some s"
    by (simp_all add: literal_ok_def)
qed

declare unquote.simps(2) [simp del] quote.simps(2) [simp del] ToValidUTF8.simps(2) [simp del]

end
