(* ===== verification/Json.thy ===== *)
theory Json
  imports JsonString
begin

text \<open>
  The syntax of encoding/json: the text of a JSON value as \<open>Marshal\<close> writes it, and the text
  \<open>Unmarshal\<close> accepts.  The reader is the scanner of the library: characters become lexemes, and a
  stack of the arrays and objects that are open, of at most ten thousand, takes one lexeme after the
  other.  A value that was written is read back.
\<close>

section \<open>Values\<close>

text \<open>A string is the literal between its quotes, which \<open>unquote\<close> gives the meaning of, and a number is
  its literal.\<close>

datatype json =
    JNull
  | JBool bool
  | JNumber string
  | JString string
  | JArray "json list"
  | JObject "(string \<times> json) list"

section \<open>Numbers\<close>

text \<open>\<open>isValidNumber\<close>, which is what the scanner takes for a number as well.\<close>

definition exponent_ok :: "string \<Rightarrow> bool" where
  "exponent_ok s =
     (case s of
        [] \<Rightarrow> True
      | e # r \<Rightarrow> e \<in> {CHR ''e'', CHR ''E''} \<and>
          (let d = (case r of x # t \<Rightarrow> if x \<in> {CHR ''+'', CHR ''-''} then t else r | [] \<Rightarrow> r)
           in d \<noteq> [] \<and> list_all is_digit d))"

definition fraction_ok :: "string \<Rightarrow> bool" where
  "fraction_ok s =
     (case s of
        p # d # r \<Rightarrow> if p = CHR ''.'' then is_digit d \<and> exponent_ok (dropWhile is_digit r) else exponent_ok s
      | _ \<Rightarrow> exponent_ok s)"

definition isValidNumber :: "string \<Rightarrow> bool" where
  "isValidNumber s =
     (case (if HasPrefix s ''-'' then tl s else s) of
        [] \<Rightarrow> False
      | c # r \<Rightarrow> if c = CHR ''0'' then fraction_ok r
                 else is_digit c \<and> fraction_ok (dropWhile is_digit r))"

section \<open>Writing a value\<close>

fun separated :: "'a \<Rightarrow> 'a list list \<Rightarrow> 'a list" where
  "separated c [] = []"
| "separated c [s] = s"
| "separated c (s # t # r) = s @ c # separated c (t # r)"

definition quoted :: "string \<Rightarrow> string" where
  "quoted raw = CHR 0x22 # raw @ [CHR 0x22]"

primrec json_text :: "json \<Rightarrow> string" where
  "json_text JNull = ''null''"
| "json_text (JBool b) = (if b then ''true'' else ''false'')"
| "json_text (JNumber n) = n"
| "json_text (JString raw) = quoted raw"
| "json_text (JArray vs) = CHR ''['' # separated CHR '','' (map json_text vs) @ '']''"
| "json_text (JObject ms) =
     CHR ''{'' # separated CHR '','' (map (\<lambda>m. quoted (fst m) @ CHR '':'' # snd m) (map (map_prod id json_text) ms)) @ ''}''"

section \<open>Reading a value\<close>

subsection \<open>Lexemes\<close>

text \<open>A sign of the syntax, the letters and digits of a literal, or what stands between two quotes.\<close>

datatype lexeme = Sign char | Word string | Quoted string

datatype lexer = Between | InWord string | InQuotes string | Escaped string

definition blanks :: "char set" where
  "blanks = {CHR '' '', CHR 0x09, CHR 0x0A, CHR 0x0D}"

definition signs :: "char set" where
  "signs = set ''{}[]:,''"

definition lex_between :: "char \<Rightarrow> lexeme list \<times> lexer" where
  "lex_between c =
     (if c \<in> blanks then ([], Between)
      else if c \<in> signs then ([Sign c], Between)
      else if c = CHR 0x22 then ([], InQuotes [])
      else ([], InWord [c]))"

fun lex_step :: "lexer \<Rightarrow> char \<Rightarrow> lexeme list \<times> lexer" where
  "lex_step Between c = lex_between c"
| "lex_step (InWord w) c =
     (if c \<in> blanks \<union> signs \<union> {CHR 0x22} then apfst (Cons (Word w)) (lex_between c)
      else ([], InWord (w @ [c])))"
| "lex_step (InQuotes a) c =
     (if c = CHR 0x22 then ([Quoted a], Between)
      else if c = CHR 0x5C then ([], Escaped (a @ [c]))
      else ([], InQuotes (a @ [c])))"
| "lex_step (Escaped a) c = ([], InQuotes (a @ [c]))"

fun lex_all :: "lexer \<Rightarrow> string \<Rightarrow> lexeme list option" where
  "lex_all m [] = (case m of Between \<Rightarrow> Some [] | InWord w \<Rightarrow> Some [Word w] | _ \<Rightarrow> None)"
| "lex_all m (c # s) = (case lex_step m c of (ts, m') \<Rightarrow> map_option (\<lambda>us. ts @ us) (lex_all m' s))"

subsection \<open>The values of the lexemes\<close>

text \<open>What is open around the value that is being read: the elements, or the members and the key, that
  came before it, the last one first.\<close>

datatype frame = InArray "json list" | InObject "(string \<times> json) list" string

datatype expects =
    AnyValue
  | FirstElement
  | ElementEnd "json list"
  | FirstKey
  | NextKey "(string \<times> json) list"
  | KeyEnd "(string \<times> json) list" string
  | MemberEnd "(string \<times> json) list"
  | TheEnd json

definition maxNestingDepth :: nat where
  "maxNestingDepth = 10000"

fun complete :: "json \<Rightarrow> frame list \<Rightarrow> frame list \<times> expects" where
  "complete v [] = ([], TheEnd v)"
| "complete v (InArray vs # st) = (st, ElementEnd (v # vs))"
| "complete v (InObject ms k # st) = (st, MemberEnd ((k, v) # ms))"

definition literal :: "string \<Rightarrow> json option" where
  "literal w =
     (if w = ''null'' then Some JNull
      else if w = ''true'' then Some (JBool True)
      else if w = ''false'' then Some (JBool False)
      else if isValidNumber w then Some (JNumber w)
      else None)"

fun begin_value :: "frame list \<Rightarrow> lexeme \<Rightarrow> (frame list \<times> expects) option" where
  "begin_value st (Quoted raw) = (if unquote raw = None then None else Some (complete (JString raw) st))"
| "begin_value st (Word w) = map_option (\<lambda>v. complete v st) (literal w)"
| "begin_value st (Sign c) =
     (if maxNestingDepth \<le> length st then None
      else if c = CHR ''['' then Some (st, FirstElement)
      else if c = CHR ''{'' then Some (st, FirstKey)
      else None)"

fun begin_key :: "frame list \<Rightarrow> (string \<times> json) list \<Rightarrow> lexeme \<Rightarrow> (frame list \<times> expects) option" where
  "begin_key st ms (Quoted raw) = (if unquote raw = None then None else Some (st, KeyEnd ms raw))"
| "begin_key st ms t = None"

fun scan :: "frame list \<times> expects \<Rightarrow> lexeme \<Rightarrow> (frame list \<times> expects) option" where
  "scan (st, AnyValue) t = begin_value st t"
| "scan (st, FirstElement) t =
     (if t = Sign CHR '']'' then Some (complete (JArray []) st) else begin_value (InArray [] # st) t)"
| "scan (st, ElementEnd vs) t =
     (if t = Sign CHR '','' then Some (InArray vs # st, AnyValue)
      else if t = Sign CHR '']'' then Some (complete (JArray (rev vs)) st)
      else None)"
| "scan (st, FirstKey) t =
     (if t = Sign CHR ''}'' then Some (complete (JObject []) st) else begin_key st [] t)"
| "scan (st, NextKey ms) t = begin_key st ms t"
| "scan (st, KeyEnd ms k) t = (if t = Sign CHR '':'' then Some (InObject ms k # st, AnyValue) else None)"
| "scan (st, MemberEnd ms) t =
     (if t = Sign CHR '','' then Some (st, NextKey ms)
      else if t = Sign CHR ''}'' then Some (complete (JObject (rev ms)) st)
      else None)"
| "scan (st, TheEnd v) t = None"

fun scan_all :: "frame list \<times> expects \<Rightarrow> lexeme list \<Rightarrow> (frame list \<times> expects) option" where
  "scan_all q [] = Some q"
| "scan_all q (t # ts) = (case scan q t of None \<Rightarrow> None | Some q' \<Rightarrow> scan_all q' ts)"

definition json_parse :: "string \<Rightarrow> json option" where
  "json_parse s =
     (case lex_all Between s of
        None \<Rightarrow> None
      | Some ts \<Rightarrow>
          (case scan_all ([], AnyValue) ts of
             Some (st, TheEnd v) \<Rightarrow> Some v
           | _ \<Rightarrow> None))"

section \<open>What is written is read back\<close>

text \<open>The values the syntax allows, how deep they nest, and their lexemes.\<close>

primrec json_ok :: "json \<Rightarrow> bool" where
  "json_ok JNull = True"
| "json_ok (JBool b) = True"
| "json_ok (JNumber n) = isValidNumber n"
| "json_ok (JString raw) = literal_ok raw"
| "json_ok (JArray vs) = list_all id (map json_ok vs)"
| "json_ok (JObject ms) = list_all (\<lambda>m. literal_ok (fst m) \<and> snd m) (map (map_prod id json_ok) ms)"

primrec nesting :: "json \<Rightarrow> nat" where
  "nesting JNull = 0"
| "nesting (JBool b) = 0"
| "nesting (JNumber n) = 0"
| "nesting (JString raw) = 0"
| "nesting (JArray vs) = Suc (foldr max (map nesting vs) 0)"
| "nesting (JObject ms) = Suc (foldr max (map snd (map (map_prod id nesting) ms)) 0)"

primrec lexemes :: "json \<Rightarrow> lexeme list" where
  "lexemes JNull = [Word ''null'']"
| "lexemes (JBool b) = [Word (if b then ''true'' else ''false'')]"
| "lexemes (JNumber n) = [Word n]"
| "lexemes (JString raw) = [Quoted raw]"
| "lexemes (JArray vs) = Sign CHR ''['' # separated (Sign CHR '','') (map lexemes vs) @ [Sign CHR '']'']"
| "lexemes (JObject ms) =
     Sign CHR ''{'' # separated (Sign CHR '','') (map (\<lambda>m. Quoted (fst m) # Sign CHR '':'' # snd m)
       (map (map_prod id lexemes) ms)) @ [Sign CHR ''}'']"

subsection \<open>Lexemes\<close>

lemma append_fun: "(@) [] = (\<lambda>x. x)" "(@) (a # s) = (\<lambda>x. a # s @ x)"
  by auto

lemmas lex_simps = append_fun option.map_ident option.map_comp o_def

definition word_char :: "char \<Rightarrow> bool" where
  "word_char c \<longleftrightarrow> c \<notin> blanks \<union> signs \<union> {CHR 0x22}"

definition delimited :: "string \<Rightarrow> bool" where
  "delimited r \<longleftrightarrow> r = [] \<or> \<not> word_char (hd r)"

lemma lex_in_word: "list_all word_char w \<Longrightarrow> lex_all (InWord a) (w @ r) = lex_all (InWord (a @ w)) r"
  by (induction w arbitrary: a) (simp_all add: word_char_def lex_simps)

lemma lex_word_end: "delimited r \<Longrightarrow> lex_all (InWord a) r = map_option (Cons (Word a)) (lex_all Between r)"
  by (cases r) (auto simp: delimited_def word_char_def lex_simps split: prod.split)

lemma lex_word:
  assumes "w \<noteq> []" and "list_all word_char w" and "delimited r"
  shows "lex_all Between (w @ r) = map_option (Cons (Word w)) (lex_all Between r)"
proof -
  obtain c v where w: "w = c # v" "word_char c" "list_all word_char v"
    using assms(1,2) by (cases w) auto
  then have "lex_all Between (w @ r) = lex_all (InWord [c]) (v @ r)"
    by (simp add: lex_between_def word_char_def lex_simps)
  also have "\<dots> = map_option (Cons (Word w)) (lex_all Between r)"
    using lex_in_word [OF w(3), of "[c]" r] lex_word_end [OF assms(3)] w(1) by simp
  finally show ?thesis .
qed

lemma lex_in_quotes:
  "closed raw \<Longrightarrow> lex_all (InQuotes a) (raw @ CHR 0x22 # r) = map_option (Cons (Quoted (a @ raw))) (lex_all Between r)"
  by (induction raw arbitrary: a rule: closed.induct)
    (auto simp: lex_simps split: if_splits list.splits)

lemma lex_quoted:
  "closed raw \<Longrightarrow> lex_all Between (quoted raw @ r) = map_option (Cons (Quoted raw)) (lex_all Between r)"
  using lex_in_quotes [of raw "[]" r]
  by (simp add: quoted_def lex_between_def blanks_def signs_def lex_simps)

lemma signs_blanks: "c \<in> signs \<Longrightarrow> c \<notin> blanks"
  unfolding signs_def blanks_def by auto

lemma lex_sign: "c \<in> signs \<Longrightarrow> lex_all Between (c # r) = map_option (Cons (Sign c)) (lex_all Between r)"
  using signs_blanks [of c] by (simp add: lex_between_def lex_simps)

definition number_char :: "char \<Rightarrow> bool" where
  "number_char c \<longleftrightarrow> is_digit c \<or> c \<in> set ''+-.eE''"

lemma number_char_word: "number_char c \<Longrightarrow> word_char c"
proof -
  have "is_digit c \<Longrightarrow> word_char c"
    by (auto simp: is_digit_def word_char_def blanks_def signs_def)
  moreover have "c \<in> set ''+-.eE'' \<Longrightarrow> word_char c"
    by (auto simp: word_char_def blanks_def signs_def)
  ultimately show "number_char c \<Longrightarrow> word_char c"
    unfolding number_char_def by blast
qed

lemma exponent_number: "exponent_ok s \<Longrightarrow> list_all number_char s"
  by (cases s; cases "tl s") (auto simp: exponent_ok_def Let_def list_all_iff number_char_def split: if_splits)

lemma digits_number: "list_all number_char (dropWhile is_digit s) \<Longrightarrow> list_all number_char s"
  by (induction s) (auto simp: number_char_def split: if_splits)

lemma fraction_number: "fraction_ok s \<Longrightarrow> list_all number_char s"
  using exponent_number [of s] exponent_number [THEN digits_number]
  by (auto simp: fraction_ok_def number_char_def split: list.splits if_splits)

lemma unsigned_number: "c = CHR ''0'' \<and> fraction_ok r \<or> is_digit c \<and> fraction_ok (dropWhile is_digit r) \<Longrightarrow>
    list_all number_char (c # r)"
  using fraction_number [of r] fraction_number [THEN digits_number, of r]
  by (elim disjE) (simp_all add: number_char_def is_digit_def)

lemma number_chars:
  assumes "isValidNumber n"
  shows "list_all number_char n"
proof (cases "HasPrefix n ''-''")
  case True
  then obtain m where "n = CHR ''-'' # m"
    by (auto elim: HasPrefixE)
  then show ?thesis
    using assms unsigned_number True
    by (auto simp: isValidNumber_def number_char_def split: list.splits if_splits)
next
  case False
  then show ?thesis
    using assms unsigned_number by (auto simp: isValidNumber_def split: list.splits if_splits)
qed

lemma number_word: "isValidNumber n \<Longrightarrow> n \<noteq> [] \<and> list_all word_char n"
  using number_chars [of n] number_char_word by (auto simp: list_all_iff isValidNumber_def HasPrefix_def)

lemma sign_delimits: "c \<in> signs \<Longrightarrow> delimited (c # r)"
  by (simp add: delimited_def word_char_def)

lemma in_signs: "CHR '','' \<in> signs" "CHR ''['' \<in> signs" "CHR '']'' \<in> signs" "CHR ''{'' \<in> signs"
  "CHR ''}'' \<in> signs" "CHR '':'' \<in> signs"
  by (simp_all add: signs_def)

lemma lex_separated:
  assumes "\<And>v r. v \<in> set vs \<Longrightarrow> delimited r \<Longrightarrow> lex_all Between (f v @ r) = map_option (append (g v)) (lex_all Between r)"
    and "delimited r"
  shows "lex_all Between (separated CHR '','' (map f vs) @ r) =
    map_option (append (separated (Sign CHR '','') (map g vs))) (lex_all Between r)"
  using assms
proof (induction vs rule: induct_list012)
  case (3 v v' vs)
  then show ?case
    using 3(3) [of v] by (simp add: sign_delimits in_signs lex_sign lex_simps del: lex_all.simps)
qed (simp_all add: lex_simps)

lemma lex_json_text:
  assumes "json_ok v" and "delimited r"
  shows "lex_all Between (json_text v @ r) = map_option (append (lexemes v)) (lex_all Between r)"
  using assms
proof (induction v arbitrary: r)
  case JNull
  then show ?case
    using lex_word [of "''null''" r] by (simp add: lex_simps word_char_def blanks_def signs_def del: lex_all.simps)
next
  case (JBool b)
  then show ?case
    by (simp add: lex_word word_char_def blanks_def signs_def)
next
  case (JArray vs)
  then show ?case
    using lex_separated [of vs json_text lexemes "'']'' @ r"]
    by (simp add: in_signs lex_sign sign_delimits list_all_iff lex_simps del: lex_all.simps)
next
  case (JObject ms)
  have "lex_all Between ((quoted (fst m) @ CHR '':'' # json_text (snd m)) @ r) =
      map_option (append (Quoted (fst m) # Sign CHR '':'' # lexemes (snd m))) (lex_all Between r)"
    if "m \<in> set ms" "delimited r" for m r
    using JObject that
    by (cases m) (fastforce simp: lex_quoted literal_ok_def in_signs lex_sign list_all_iff lex_simps
        simp del: lex_all.simps)
  then show ?case
    using JObject(3) lex_separated [of ms "\<lambda>m. quoted (fst m) @ CHR '':'' # json_text (snd m)"
        "\<lambda>m. Quoted (fst m) # Sign CHR '':'' # lexemes (snd m)" "''}'' @ r"]
    by (simp add: in_signs lex_sign sign_delimits lex_simps del: lex_all.simps)
qed (simp_all add: lex_simps lex_word number_word lex_quoted literal_ok_def)

subsection \<open>The values of the lexemes\<close>

lemma separated_Cons: "separated c (s # r) = s @ (if r = [] then [] else c # separated c r)"
  by (cases r) simp_all

lemma lexemes_hd: "\<exists>t ts. lexemes v = t # ts \<and> t \<noteq> Sign CHR '']''"
  by (cases v) auto

lemma nesting_elements: "v \<in> set vs \<Longrightarrow> nesting v < nesting (JArray vs)"
  by (induction vs) (auto simp: less_Suc_eq_le max_def)

lemma nesting_members: "(k, v) \<in> set ms \<Longrightarrow> nesting v < nesting (JObject ms)"
  by (induction ms) (auto simp: less_Suc_eq_le max_def)

lemma scan_elements:
  assumes "\<And>v st us. v \<in> set (v0 # vs) \<Longrightarrow> length st \<le> n \<Longrightarrow>
      scan_all (st, AnyValue) (lexemes v @ us) = scan_all (complete v st) us"
    and "Suc (length st) \<le> n"
  shows "scan_all (InArray acc # st, AnyValue) (separated (Sign CHR '','') (map lexemes (v0 # vs)) @ Sign CHR '']'' # us) =
    scan_all (complete (JArray (rev acc @ v0 # vs)) st) us"
  using assms(1)
proof (induction vs arbitrary: v0 acc)
  case Nil
  then show ?case
    using assms(2) by simp
next
  case (Cons v vs)
  have "scan_all (InArray acc # st, AnyValue) (separated (Sign CHR '','') (map lexemes (v0 # v # vs)) @ Sign CHR '']'' # us) =
      scan_all (complete v0 (InArray acc # st)) (Sign CHR '','' # separated (Sign CHR '','') (map lexemes (v # vs)) @ Sign CHR '']'' # us)"
    using Cons(2) [of v0 "InArray acc # st"] assms(2) by simp
  also have "\<dots> = scan_all (InArray (v0 # acc) # st, AnyValue) (separated (Sign CHR '','') (map lexemes (v # vs)) @ Sign CHR '']'' # us)"
    by simp
  also have "\<dots> = scan_all (complete (JArray (rev (v0 # acc) @ v # vs)) st) us"
    by (rule Cons(1)) (rule Cons(2), auto)
  finally show ?case
    by simp
qed

lemma scan_members:
  assumes "\<And>m st us. m \<in> set (m0 # ms) \<Longrightarrow> length st \<le> n \<Longrightarrow>
      scan_all (st, AnyValue) (lexemes (snd m) @ us) = scan_all (complete (snd m) st) us"
    and "\<And>m. m \<in> set (m0 # ms) \<Longrightarrow> unquote (fst m) \<noteq> None" and "Suc (length st) \<le> n"
  shows "scan_all (st, NextKey acc) (separated (Sign CHR '','') (map (\<lambda>m. Quoted (fst m) # Sign CHR '':'' # lexemes (snd m)) (m0 # ms)) @
      Sign CHR ''}'' # us) = scan_all (complete (JObject (rev acc @ m0 # ms)) st) us"
  using assms(1,2)
proof (induction ms arbitrary: m0 acc)
  case Nil
  then obtain k where "unquote (fst m0) = Some k"
    by auto
  then show ?case
    using Nil assms(3) by simp
next
  case (Cons m ms)
  let ?f = "\<lambda>m. Quoted (fst m) # Sign CHR '':'' # lexemes (snd m)"
  obtain k where k: "unquote (fst m0) = Some k"
    using Cons(3) [of m0] by auto
  have "scan_all (st, NextKey acc) (separated (Sign CHR '','') (map ?f (m0 # m # ms)) @ Sign CHR ''}'' # us) =
      scan_all (complete (snd m0) (InObject acc (fst m0) # st))
        (Sign CHR '','' # separated (Sign CHR '','') (map ?f (m # ms)) @ Sign CHR ''}'' # us)"
    using Cons(2) [of m0 "InObject acc (fst m0) # st"] k assms(3) by simp
  also have "\<dots> = scan_all (st, NextKey (m0 # acc)) (separated (Sign CHR '','') (map ?f (m # ms)) @ Sign CHR ''}'' # us)"
    by simp
  also have "\<dots> = scan_all (complete (JObject (rev (m0 # acc) @ m # ms)) st) us"
  proof (rule Cons(1))
    show "unquote (fst m') \<noteq> None" if "m' \<in> set (m # ms)" for m'
      using that by (intro Cons(3)) simp
  qed (rule Cons(2), simp_all)
  finally show ?case
    by simp
qed

lemma scan_lexemes:
  assumes "json_ok v" and "nesting v + length st \<le> maxNestingDepth"
  shows "scan_all (st, AnyValue) (lexemes v @ us) = scan_all (complete v st) us"
  using assms
proof (induction v arbitrary: st us)
  case (JArray vs)
  have IH: "scan_all (st', AnyValue) (lexemes v @ us') = scan_all (complete v st') us'"
    if "v \<in> set vs" "length st' \<le> Suc (length st)" for v st' us'
    using JArray(1) [OF that(1)] JArray(2,3) nesting_elements [OF that(1)] that by (auto simp: list_all_iff)
  have depth: "length st < maxNestingDepth"
    using JArray(3) by simp
  show ?case
  proof (cases vs)
    case Nil
    then show ?thesis
      using depth by simp
  next
    case (Cons v vs')
    obtain t ts where t: "lexemes v = t # ts" "t \<noteq> Sign CHR '']''"
      using lexemes_hd by blast
    have "scan_all (st, FirstElement) (separated (Sign CHR '','') (map lexemes vs) @ Sign CHR '']'' # us) =
        scan_all (InArray [] # st, AnyValue) (separated (Sign CHR '','') (map lexemes vs) @ Sign CHR '']'' # us)"
      using t by (simp add: Cons separated_Cons)
    then show ?thesis
      using scan_elements [of v vs' "Suc (length st)" st "[]" us] IH depth by (simp add: Cons)
  qed
next
  case (JObject ms)
  have IH: "scan_all (st', AnyValue) (lexemes (snd m) @ us') = scan_all (complete (snd m) st') us'"
    if "m \<in> set ms" "length st' \<le> Suc (length st)" for m st' us'
    using JObject(1) [OF that(1), of "snd m"] JObject(2,3) nesting_members [of "fst m" "snd m" ms] that
    by (cases m) (auto simp: list_all_iff)
  have depth: "length st < maxNestingDepth" and keys: "\<And>m. m \<in> set ms \<Longrightarrow> unquote (fst m) \<noteq> None"
    using JObject(2,3) by (auto simp: list_all_iff literal_ok_def)
  show ?case
  proof (cases ms)
    case Nil
    then show ?thesis
      using depth by simp
  next
    case (Cons m ms')
    have "scan_all (st, FirstKey) (separated (Sign CHR '','') (map (\<lambda>m. Quoted (fst m) # Sign CHR '':'' # lexemes (snd m)) ms) @ Sign CHR ''}'' # us) =
        scan_all (st, NextKey []) (separated (Sign CHR '','') (map (\<lambda>m. Quoted (fst m) # Sign CHR '':'' # lexemes (snd m)) ms) @ Sign CHR ''}'' # us)"
      by (simp add: Cons separated_Cons)
    then show ?thesis
      using scan_members [of m ms' "Suc (length st)" st "[]" us] IH keys depth by (simp add: Cons o_def)
  qed
qed (auto simp: literal_def literal_ok_def isValidNumber_def HasPrefix_def is_digit_def)

theorem json_parse_text:
  assumes "json_ok v" and "nesting v \<le> maxNestingDepth"
  shows "json_parse (json_text v) = Some v"
proof -
  have "lex_all Between (json_text v) = Some (lexemes v)"
    using lex_json_text [OF assms(1), of "[]"] by (simp add: delimited_def)
  moreover have "scan_all ([], AnyValue) (lexemes v) = Some ([], TheEnd v)"
    using scan_lexemes [OF assms(1), of "[]" "[]"] assms(2) by simp
  ultimately show ?thesis
    by (simp add: json_parse_def)
qed

end
