(* ===== verification/Unmarshal.thy ===== *)
theory Unmarshal
  imports Json Rfc3339
begin

text \<open>
  What the source uses of encoding/json above the syntax: how \<open>Unmarshal\<close> fills the fields of a
  struct from the members of an object, and the values \<open>Marshal\<close> writes strings, numbers and times
  as.  Each is read back as it was: a string that is UTF-8, a number of 64 bits, a time to the
  nanosecond.
\<close>

section \<open>Filling in what a value is read into\<close>

text \<open>\<open>strconv.ParseInt\<close> in base 10 with 64 bits, and \<open>Atoi\<close>: the value they return, and
  whether they report an error.  The value of a number out of range is the nearest bound.\<close>

fun digits :: "string \<Rightarrow> nat \<Rightarrow> nat option" where
  "digits [] acc = Some acc"
| "digits (c # cs) acc =
     (let n = of_char c :: nat in
      if 48 \<le> n \<and> n \<le> 57 then digits cs (10 * acc + (n - 48)) else None)"

definition ParseInt :: "string \<Rightarrow> int \<times> bool" where
  "ParseInt s =
     (let neg = HasPrefix s ''-'';
          ds = (if neg \<or> HasPrefix s ''+'' then tl s else s)
      in if ds = [] then (0, True)
         else case digits ds 0 of
                None \<Rightarrow> (0, True)
              | Some n \<Rightarrow>
                  if neg then (if n > 2 ^ 63 then (- (2 ^ 63), True) else (- int n, False))
                  else (if n \<ge> 2 ^ 63 then (2 ^ 63 - 1, True) else (int n, False)))"

definition cannot_unmarshal :: go_error where
  "cannot_unmarshal = New ''json: cannot unmarshal value''"

text \<open>A null leaves what it is read into alone.  A time takes its literal as it is written, escapes
  and all.\<close>

definition unmarshal_string :: "json \<Rightarrow> string \<Rightarrow> string result" where
  "unmarshal_string v old =
     (case v of
        JNull \<Rightarrow> Inr old
      | JString raw \<Rightarrow> (case unquote raw of Some s \<Rightarrow> Inr s | None \<Rightarrow> Inl cannot_unmarshal)
      | _ \<Rightarrow> Inl cannot_unmarshal)"

definition unmarshal_int :: "json \<Rightarrow> int \<Rightarrow> int result" where
  "unmarshal_int v old =
     (case v of
        JNull \<Rightarrow> Inr old
      | JNumber n \<Rightarrow> (case ParseInt n of (i, failed) \<Rightarrow> if failed then Inl cannot_unmarshal else Inr i)
      | _ \<Rightarrow> Inl cannot_unmarshal)"

definition unmarshal_time :: "json \<Rightarrow> time \<Rightarrow> time result" where
  "unmarshal_time v old =
     (case v of
        JNull \<Rightarrow> Inr old
      | JString raw \<Rightarrow> (case parse_RFC3339 raw of Some t \<Rightarrow> Inr t | None \<Rightarrow> Inl (New ''parsing time''))
      | _ \<Rightarrow> Inl (New ''Time.UnmarshalJSON: input is not a JSON string''))"

text \<open>A member goes to the field of its name, or to the field whose name is the same but for the case
  of its letters, where the long s and the Kelvin sign are letters as well; a member that has no
  field is passed over.\<close>

function foldName :: "string \<Rightarrow> string" where
  "foldName [] = []"
| "foldName (c # s) =
     (if c # take 1 s = [CHR 0xC5, CHR 0xBF] then CHR ''S'' # foldName (drop 1 s)
      else if c # take 2 s = [CHR 0xE2, CHR 0x84, CHR 0xAA] then CHR ''K'' # foldName (drop 2 s)
      else (if between 97 c 122 then char_of (of_char c - 32 :: nat) else c) # foldName s)"
  by pat_completeness auto
termination
  by (relation "measure length") auto

definition field_name :: "string list \<Rightarrow> string \<Rightarrow> string option" where
  "field_name names key =
     (if key \<in> set names then Some key else find (\<lambda>n. foldName n = foldName key) names)"

fun unmarshal_members ::
  "string list \<Rightarrow> (string \<Rightarrow> json \<Rightarrow> 'p \<Rightarrow> 'p result) \<Rightarrow> (string \<times> json) list \<Rightarrow> 'p \<Rightarrow> 'p result" where
  "unmarshal_members names field [] p = Inr p"
| "unmarshal_members names field ((k, v) # ms) p =
     (case Option.bind (unquote k) (field_name names) of
        None \<Rightarrow> unmarshal_members names field ms p
      | Some n \<Rightarrow>
          (case field n v p of
             Inl e \<Rightarrow> Inl e
           | Inr p' \<Rightarrow> unmarshal_members names field ms p'))"

definition unmarshal_struct ::
  "string list \<Rightarrow> (string \<Rightarrow> json \<Rightarrow> 'p \<Rightarrow> 'p result) \<Rightarrow> json \<Rightarrow> 'p \<Rightarrow> 'p result" where
  "unmarshal_struct names field v p =
     (case v of
        JNull \<Rightarrow> Inr p
      | JObject ms \<Rightarrow> unmarshal_members names field ms p
      | _ \<Rightarrow> Inl cannot_unmarshal)"

text \<open>\<open>json.Unmarshal\<close>: the text is a value, and nothing else, before anything is filled in.\<close>

definition Unmarshal :: "(json \<Rightarrow> 'p \<Rightarrow> 'p result) \<Rightarrow> string \<Rightarrow> 'p \<Rightarrow> 'p result" where
  "Unmarshal of_json s p =
     (case json_parse s of None \<Rightarrow> Inl (New ''invalid JSON'') | Some v \<Rightarrow> of_json v p)"

section \<open>The values of what is written\<close>

definition json_string :: "string \<Rightarrow> json" where
  "json_string s = JString (quote s)"

definition json_int :: "int \<Rightarrow> json" where
  "json_int i = JNumber (if i < 0 then CHR ''-'' # Itoa (nat (- i)) else Itoa (nat i))"

definition json_time :: "int \<Rightarrow> time \<Rightarrow> json result" where
  "json_time zone t = (case format_RFC3339 zone t of Inl e \<Rightarrow> Inl e | Inr s \<Rightarrow> Inr (JString s))"

text \<open>A field that is left out where it is empty.\<close>

definition omitempty :: "string \<Rightarrow> string \<Rightarrow> (string \<times> json) list" where
  "omitempty name s = (if s = [] then [] else [(name, json_string s)])"

lemma unmarshal_json_string: "unmarshal_string (json_string s) old = Inr (ToValidUTF8 s)"
  by (simp add: unmarshal_string_def json_string_def unquote_quote)

lemma digits_append: "digits (s @ [c]) a = (case digits s a of None \<Rightarrow> None | Some n \<Rightarrow> digits [c] n)"
  by (induction s arbitrary: a) (auto simp: Let_def)

lemma digits_Itoa: "digits (Itoa n) 0 = Some n"
proof (induction n rule: Itoa.induct)
  case (1 n)
  then show ?case
    by (cases "n < 10") (simp_all add: Itoa.simps [of n] digits_append Let_def)
qed

lemma Itoa_digits: "Itoa n \<noteq> [] \<and> list_all is_digit (Itoa n) \<and> (hd (Itoa n) = CHR ''0'' \<longrightarrow> n = 0)"
proof (induction n rule: Itoa.induct)
  case (1 n)
  show ?case
  proof (cases "n < 10")
    case True
    then have "(of_char (char_of (48 + n) :: char) :: nat) = 48 + n" "(of_char CHR ''0'' :: nat) = 48"
      by simp_all
    then have "char_of (48 + n) = CHR ''0'' \<longrightarrow> n = 0"
      by (metis add_cancel_right_right)
    then show ?thesis
      using True by (simp add: Itoa.simps [of n] is_digit_def)
  next
    case False
    then have "is_digit (char_of (48 + n mod 10))" "n div 10 \<noteq> 0"
      by (simp_all add: is_digit_def Let_def less_Suc_eq_le [symmetric])
    then show ?thesis
      using 1 [OF False] False by (simp add: Itoa.simps [of n])
  qed
qed

lemma isValidNumber_Itoa: "isValidNumber (Itoa n)" "isValidNumber (CHR ''-'' # Itoa n)"
proof -
  obtain c r where c: "Itoa n = c # r" "is_digit c" "list_all is_digit r" "c = CHR ''0'' \<longrightarrow> r = []"
  proof -
    have "char_of (48 :: nat) = CHR ''0''"
      by code_simp
    then have "n = 0 \<Longrightarrow> Itoa n = ''0''"
      by (simp add: Itoa.simps)
    then show thesis
      using Itoa_digits [of n] that by (cases "Itoa n") auto
  qed
  have "fraction_ok (dropWhile is_digit r)"
    using c(3) by (simp add: list_all_iff dropWhile_eq_Nil_conv [THEN iffD2] fraction_ok_def exponent_ok_def)
  moreover have "c \<noteq> CHR ''-''"
    using c(2) by (auto simp: is_digit_def)
  ultimately show "isValidNumber (Itoa n)" "isValidNumber (CHR ''-'' # Itoa n)"
    using c by (auto simp: isValidNumber_def fraction_ok_def exponent_ok_def HasPrefix_def)
qed

lemma ParseInt_Itoa:
  assumes "- (2 ^ 63) \<le> i" and "i < 2 ^ 63"
  shows "ParseInt (if i < 0 then CHR ''-'' # Itoa (nat (- i)) else Itoa (nat i)) = (i, False)"
proof -
  obtain c r where "Itoa (nat i) = c # r" "is_digit c"
    using Itoa_digits [of "nat i"] by (cases "Itoa (nat i)") auto
  then have "\<not> HasPrefix (Itoa (nat i)) ''-''" "\<not> HasPrefix (Itoa (nat i)) ''+''"
    by (auto simp: HasPrefix_def is_digit_def)
  moreover have "nat (- i) \<le> 2 ^ 63" "nat i < 2 ^ 63"
    using assms by (simp_all add: nat_le_iff nat_less_iff zless_nat_eq_int_zless)
  ultimately show ?thesis
    using Itoa_digits by (auto simp: ParseInt_def Let_def HasPrefix_def digits_Itoa)
qed

lemma unmarshal_json_int: "- (2 ^ 63) \<le> i \<Longrightarrow> i < 2 ^ 63 \<Longrightarrow> unmarshal_int (json_int i) old = Inr i"
  unfolding unmarshal_int_def json_int_def by (simp only: json.case ParseInt_Itoa prod.case if_False)

lemma unmarshal_json_time: "json_time zone t = Inr v \<Longrightarrow> unmarshal_time v old = Inr t"
  by (auto simp: json_time_def unmarshal_time_def parse_format_RFC3339 split: sum.splits)

lemma json_ok_written: "json_ok (json_string s)" "json_ok (json_int i)"
  by (simp_all add: json_string_def json_int_def literal_ok_quote isValidNumber_Itoa)

lemma nesting_written [simp]: "nesting (json_string s) = 0" "nesting (json_int i) = 0"
  by (simp_all add: json_string_def json_int_def)

lemma written_not_null [simp]: "json_string s \<noteq> JNull" "json_int i \<noteq> JNull"
  by (simp_all add: json_string_def json_int_def)

lemma time_char_plain: "time_char c \<Longrightarrow> between 0x20 c 0x7F \<and> c \<noteq> CHR 0x22 \<and> c \<noteq> CHR 0x5C"
proof -
  have "digit c \<noteq> None \<Longrightarrow> between 0x20 c 0x7F \<and> c \<noteq> CHR 0x22 \<and> c \<noteq> CHR 0x5C"
    by (auto simp: digit_def between_def Let_def split: if_splits)
  moreover have "c \<in> set ''Z+-:T.'' \<Longrightarrow> between 0x20 c 0x7F \<and> c \<noteq> CHR 0x22 \<and> c \<noteq> CHR 0x5C"
    by (auto simp: between_def)
  ultimately show "time_char c \<Longrightarrow> between 0x20 c 0x7F \<and> c \<noteq> CHR 0x22 \<and> c \<noteq> CHR 0x5C"
    unfolding time_char_def by blast
qed

lemma json_time_ok:
  assumes "json_time zone t = Inr v"
  shows "json_ok v \<and> nesting v = 0"
proof -
  obtain s where s: "format_RFC3339 zone t = Inr s" "v = JString s"
    using assms by (auto simp: json_time_def split: sum.splits)
  then have "literal_ok s"
    using format_RFC3339_chars time_char_plain by (intro literal_ok_plain(1)) (auto simp: list_all_iff)
  then show ?thesis
    by (simp add: s)
qed

lemma Unmarshal_json_text:
  "json_ok v \<Longrightarrow> nesting v \<le> maxNestingDepth \<Longrightarrow> Unmarshal of_json (json_text v) p = of_json v p"
  by (simp add: Unmarshal_def json_parse_text)

end
