(* ===== verification/Payload.thy ===== *)
theory Payload
  imports Store Unmarshal
begin

text \<open>
  What the stores seal: the payload of a session cookie (\<open>application_auth.go\<close>) and the payload of a
  row (\<open>payload.go\<close>), and the JSON they are written as and read from, by the tags of their fields.
  The JSON of the \<open>oauth2.Token\<close> in them is a parameter.  A payload that was written is read back as
  it was.
\<close>

section \<open>Codecs\<close>

text \<open>The JSON codec of a payload type: what marshals it and what reads it back.  A payload the
  codec is faithful for is one it reads back as it was.  The operations of a store are stated over
  any codec; the codec of each payload of the source is defined with its store, over the JSON of
  an \<open>oauth2.Token\<close>, which is a parameter.\<close>

record 'p codec =
  json_Marshal :: "'p \<Rightarrow> bytes result"
  json_Unmarshal :: "bytes \<Rightarrow> 'p result"

definition faithful :: "'p codec \<Rightarrow> 'p \<Rightarrow> bool" where
  "faithful j p \<longleftrightarrow> (\<forall>data. json_Marshal j p = Inr data \<longrightarrow> json_Unmarshal j data = Inr p)"

text \<open>The JSON of an \<open>oauth2.Token\<close>: the value it is marshalled to, and what a value fills in.  It is
  faithful for a token where the value is within the syntax, is not null, and fills the token in
  again.\<close>

record token_codec =
  tc_Marshal :: "Token \<Rightarrow> json result"
  tc_Unmarshal :: "json \<Rightarrow> Token \<Rightarrow> Token result"

definition zero_Token :: Token where
  "zero_Token = \<lparr>AccessToken = [], TokenType = [], RefreshToken = [], Expiry = zeroTime, ExpiresIn = 0\<rparr>"

definition token_faithful :: "token_codec \<Rightarrow> Token \<Rightarrow> bool" where
  "token_faithful c t \<longleftrightarrow>
     (\<forall>v. tc_Marshal c t = Inr v \<longrightarrow>
        v \<noteq> JNull \<and> json_ok v \<and> nesting v < maxNestingDepth \<and> tc_Unmarshal c v zero_Token = Inr t)"

text \<open>A pointer to a token: nil is null, and a null read into it makes it nil.\<close>

definition marshal_token :: "token_codec \<Rightarrow> Token option \<Rightarrow> json result" where
  "marshal_token c t = (case t of None \<Rightarrow> Inr JNull | Some t \<Rightarrow> tc_Marshal c t)"

definition unmarshal_token :: "token_codec \<Rightarrow> json \<Rightarrow> Token option \<Rightarrow> Token option result" where
  "unmarshal_token c v old =
     (if v = JNull then Inr None
      else map_sum id Some (tc_Unmarshal c v (case old of None \<Rightarrow> zero_Token | Some t \<Rightarrow> t)))"

lemma marshal_token_Inr:
  assumes "marshal_token c t = Inr v" and "\<And>tok. t = Some tok \<Longrightarrow> token_faithful c tok"
  shows "json_ok v" "nesting v < maxNestingDepth" "unmarshal_token c v None = Inr t"
  using assms by (cases t; auto simp: marshal_token_def unmarshal_token_def token_faithful_def maxNestingDepth_def)+

text \<open>The codec of a struct: the value it is marshalled to, how a value fills it in, and its zero value.\<close>

definition struct_codec :: "('p \<Rightarrow> json result) \<Rightarrow> (json \<Rightarrow> 'p \<Rightarrow> 'p result) \<Rightarrow> 'p \<Rightarrow> 'p codec" where
  "struct_codec to_json of_json zero =
     \<lparr>json_Marshal = (\<lambda>p. map_sum id (\<lambda>v. bytes_of_string (json_text v)) (to_json p)),
      json_Unmarshal = (\<lambda>data. Unmarshal of_json (string_of_bytes data) zero)\<rparr>"

lemma struct_codec_faithful:
  assumes "\<And>v. to_json p = Inr v \<Longrightarrow> json_ok v \<and> nesting v \<le> maxNestingDepth \<and> of_json v zero = Inr p"
  shows "faithful (struct_codec to_json of_json zero) p"
  using assms by (cases "to_json p") (auto simp: faithful_def struct_codec_def Unmarshal_json_text)

lemma nesting_members_bound:
  "nesting (JObject ms) \<le> maxNestingDepth \<longleftrightarrow> (\<forall>m \<in> set ms. nesting (snd m) < maxNestingDepth)"
proof -
  have "foldr max ns 0 < k \<longleftrightarrow> (\<forall>n \<in> set ns. n < k)" if "0 < k" for ns and k :: nat
    using that by (induction ns) auto
  then show ?thesis
    by (simp add: Suc_le_eq maxNestingDepth_def image_image)
qed

section \<open>The payload of a cookie\<close>

definition sessionPayloadV1 :: int where "sessionPayloadV1 = 1"

record sessionPayload =
  sp_Version :: int
  sp_IssuedAt :: time
  sp_Token :: "Token option"
  sp_Subject :: string

definition zero_sessionPayload :: sessionPayload where
  "zero_sessionPayload = \<lparr>sp_Version = 0, sp_IssuedAt = zeroTime, sp_Token = None, sp_Subject = []\<rparr>"

definition sessionPayload_json :: "token_codec \<Rightarrow> (time \<Rightarrow> int) \<Rightarrow> sessionPayload \<Rightarrow> json result" where
  "sessionPayload_json c zone p =
     (case json_time (zone (sp_IssuedAt p)) (sp_IssuedAt p) of
        Inl e \<Rightarrow> Inl e
      | Inr issued \<Rightarrow>
          (case marshal_token c (sp_Token p) of
             Inl e \<Rightarrow> Inl e
           | Inr token \<Rightarrow>
               Inr (JObject ([(''v'', json_int (sp_Version p)), (''issued_at'', issued), (''token'', token)] @
                 omitempty ''sub'' (sp_Subject p)))))"

definition sessionPayload_names :: "string list" where
  "sessionPayload_names = [''v'', ''issued_at'', ''token'', ''sub'']"

definition sessionPayload_field :: "token_codec \<Rightarrow> string \<Rightarrow> json \<Rightarrow> sessionPayload \<Rightarrow> sessionPayload result" where
  "sessionPayload_field c name v p =
     (if name = ''v'' then map_sum id (\<lambda>x. p\<lparr>sp_Version := x\<rparr>) (unmarshal_int v (sp_Version p))
      else if name = ''issued_at'' then map_sum id (\<lambda>x. p\<lparr>sp_IssuedAt := x\<rparr>) (unmarshal_time v (sp_IssuedAt p))
      else if name = ''token'' then map_sum id (\<lambda>x. p\<lparr>sp_Token := x\<rparr>) (unmarshal_token c v (sp_Token p))
      else map_sum id (\<lambda>x. p\<lparr>sp_Subject := x\<rparr>) (unmarshal_string v (sp_Subject p)))"

text \<open>The zone of a time is the offset of the local time zone at that instant, in minutes.\<close>

definition session_codec :: "token_codec \<Rightarrow> (time \<Rightarrow> int) \<Rightarrow> sessionPayload codec" where
  "session_codec c zone =
     struct_codec (sessionPayload_json c zone)
       (unmarshal_struct sessionPayload_names (sessionPayload_field c)) zero_sessionPayload"

lemma sessionPayload_name:
  "n \<in> {''v'', ''issued_at'', ''token'', ''sub''} \<Longrightarrow> Option.bind (unquote n) (field_name sessionPayload_names) = Some n"
  by (elim insertE emptyE; hypsubst; code_simp)

lemma session_codec_faithful:
  assumes "\<And>t. sp_Token p = Some t \<Longrightarrow> token_faithful c t" and "ValidString (sp_Subject p)"
    and "- (2 ^ 63) \<le> sp_Version p" and "sp_Version p < 2 ^ 63"
  shows "faithful (session_codec c zone) p"
  unfolding session_codec_def
proof (rule struct_codec_faithful)
  fix v
  assume "sessionPayload_json c zone p = Inr v"
  then obtain issued token where i: "json_time (zone (sp_IssuedAt p)) (sp_IssuedAt p) = Inr issued"
    and t: "marshal_token c (sp_Token p) = Inr token"
    and v: "v = JObject ([(''v'', json_int (sp_Version p)), (''issued_at'', issued), (''token'', token)] @
      omitempty ''sub'' (sp_Subject p))"
    by (auto simp: sessionPayload_json_def split: sum.splits)
  note tok = marshal_token_Inr [OF t assms(1)]
  have "literal_ok ''v''" "literal_ok ''issued_at''" "literal_ok ''token''" "literal_ok ''sub''"
    by code_simp+
  then have "json_ok v" "nesting v \<le> maxNestingDepth"
    unfolding v nesting_members_bound using tok json_time_ok [OF i] json_ok_written
    by (auto simp: omitempty_def maxNestingDepth_def)
  moreover have "unmarshal_struct sessionPayload_names (sessionPayload_field c) v zero_sessionPayload = Inr p"
    unfolding v using tok(3) unmarshal_json_time [OF i] unmarshal_json_int [OF assms(3,4)] assms(2)
    by (auto simp: unmarshal_struct_def sessionPayload_name sessionPayload_field_def zero_sessionPayload_def
        omitempty_def unmarshal_json_string ValidString_def)
  ultimately show "json_ok v \<and> nesting v \<le> maxNestingDepth \<and>
      unmarshal_struct sessionPayload_names (sessionPayload_field c) v zero_sessionPayload = Inr p"
    by blast
qed

section \<open>The payload of a row\<close>

record pgPayload =
  pp_Version :: int
  pp_Subject :: string
  pp_Token :: "Token option"
  pp_IDToken :: string

definition pgPayloadV1 :: int where "pgPayloadV1 = 1"

definition zero_pgPayload :: pgPayload where
  "zero_pgPayload = \<lparr>pp_Version = 0, pp_Subject = [], pp_Token = None, pp_IDToken = []\<rparr>"

definition pgPayload_json :: "token_codec \<Rightarrow> pgPayload \<Rightarrow> json result" where
  "pgPayload_json c p =
     (case marshal_token c (pp_Token p) of
        Inl e \<Rightarrow> Inl e
      | Inr token \<Rightarrow>
          Inr (JObject ([(''v'', json_int (pp_Version p))] @ omitempty ''sub'' (pp_Subject p) @
            [(''token'', token)] @ omitempty ''id_token'' (pp_IDToken p))))"

definition pgPayload_names :: "string list" where
  "pgPayload_names = [''v'', ''sub'', ''token'', ''id_token'']"

definition pgPayload_field :: "token_codec \<Rightarrow> string \<Rightarrow> json \<Rightarrow> pgPayload \<Rightarrow> pgPayload result" where
  "pgPayload_field c name v p =
     (if name = ''v'' then map_sum id (\<lambda>x. p\<lparr>pp_Version := x\<rparr>) (unmarshal_int v (pp_Version p))
      else if name = ''sub'' then map_sum id (\<lambda>x. p\<lparr>pp_Subject := x\<rparr>) (unmarshal_string v (pp_Subject p))
      else if name = ''token'' then map_sum id (\<lambda>x. p\<lparr>pp_Token := x\<rparr>) (unmarshal_token c v (pp_Token p))
      else map_sum id (\<lambda>x. p\<lparr>pp_IDToken := x\<rparr>) (unmarshal_string v (pp_IDToken p)))"

definition pg_codec :: "token_codec \<Rightarrow> pgPayload codec" where
  "pg_codec c =
     struct_codec (pgPayload_json c) (unmarshal_struct pgPayload_names (pgPayload_field c)) zero_pgPayload"

lemma pgPayload_name:
  "n \<in> {''v'', ''sub'', ''token'', ''id_token''} \<Longrightarrow> Option.bind (unquote n) (field_name pgPayload_names) = Some n"
  by (elim insertE emptyE; hypsubst; code_simp)

lemma pg_codec_faithful:
  assumes "\<And>t. pp_Token p = Some t \<Longrightarrow> token_faithful c t" and "ValidString (pp_Subject p)"
    and "ValidString (pp_IDToken p)" and "- (2 ^ 63) \<le> pp_Version p" and "pp_Version p < 2 ^ 63"
  shows "faithful (pg_codec c) p"
  unfolding pg_codec_def
proof (rule struct_codec_faithful)
  fix v
  assume "pgPayload_json c p = Inr v"
  then obtain token where t: "marshal_token c (pp_Token p) = Inr token"
    and v: "v = JObject ([(''v'', json_int (pp_Version p))] @ omitempty ''sub'' (pp_Subject p) @
      [(''token'', token)] @ omitempty ''id_token'' (pp_IDToken p))"
    by (auto simp: pgPayload_json_def split: sum.splits)
  note tok = marshal_token_Inr [OF t assms(1)]
  have "literal_ok ''v''" "literal_ok ''sub''" "literal_ok ''token''" "literal_ok ''id_token''"
    by code_simp+
  then have "json_ok v" "nesting v \<le> maxNestingDepth"
    unfolding v nesting_members_bound using tok json_ok_written
    by (auto simp: omitempty_def maxNestingDepth_def)
  moreover have "unmarshal_struct pgPayload_names (pgPayload_field c) v zero_pgPayload = Inr p"
    unfolding v using tok(3) unmarshal_json_int [OF assms(4,5)] assms(2,3)
    by (auto simp: unmarshal_struct_def pgPayload_name pgPayload_field_def zero_pgPayload_def
        omitempty_def unmarshal_json_string ValidString_def)
  ultimately show "json_ok v \<and> nesting v \<le> maxNestingDepth \<and>
      unmarshal_struct pgPayload_names (pgPayload_field c) v zero_pgPayload = Inr p"
    by blast
qed

section \<open>Sample configuration\<close>

definition sample_token :: Token where
  "sample_token = \<lparr>AccessToken = ''a'', TokenType = ''Bearer'', RefreshToken = ''r'', Expiry = 900,
     ExpiresIn = 0\<rparr>"

text \<open>A codec of tokens that writes the access token, the refresh token and the type as strings, and
  the expiry in nanoseconds.\<close>

definition sample_token_field :: "string \<Rightarrow> json \<Rightarrow> Token \<Rightarrow> Token result" where
  "sample_token_field name v t =
     (if name = ''access_token'' then map_sum id (\<lambda>x. t\<lparr>AccessToken := x\<rparr>) (unmarshal_string v (AccessToken t))
      else if name = ''refresh_token'' then map_sum id (\<lambda>x. t\<lparr>RefreshToken := x\<rparr>) (unmarshal_string v (RefreshToken t))
      else if name = ''token_type'' then map_sum id (\<lambda>x. t\<lparr>TokenType := x\<rparr>) (unmarshal_string v (TokenType t))
      else map_sum id (\<lambda>x. t\<lparr>Expiry := x\<rparr>) (unmarshal_int v (Expiry t)))"

definition sample_token_names :: "string list" where
  "sample_token_names = [''access_token'', ''refresh_token'', ''token_type'', ''expiry'']"

definition sample_token_codec :: token_codec where
  "sample_token_codec =
     \<lparr>tc_Marshal = (\<lambda>t. Inr (JObject [(''access_token'', json_string (AccessToken t)),
        (''refresh_token'', json_string (RefreshToken t)), (''token_type'', json_string (TokenType t)),
        (''expiry'', json_int (Expiry t))])),
      tc_Unmarshal = unmarshal_struct sample_token_names sample_token_field\<rparr>"

lemma sample_token_name:
  "n \<in> {''access_token'', ''refresh_token'', ''token_type'', ''expiry''} \<Longrightarrow>
     Option.bind (unquote n) (field_name sample_token_names) = Some n"
  by (elim insertE emptyE; hypsubst; code_simp)

lemma sample_token_faithful:
  assumes "ValidString (AccessToken t)" "ValidString (RefreshToken t)" "ValidString (TokenType t)"
    and "- (2 ^ 63) \<le> Expiry t" "Expiry t < 2 ^ 63" "ExpiresIn t = 0"
  shows "token_faithful sample_token_codec t"
proof -
  have "literal_ok ''access_token''" "literal_ok ''refresh_token''" "literal_ok ''token_type''" "literal_ok ''expiry''"
    by code_simp+
  then show ?thesis
    using assms unmarshal_json_int [OF assms(4,5)] json_ok_written
    by (auto simp: token_faithful_def sample_token_codec_def unmarshal_struct_def sample_token_name
        sample_token_field_def unmarshal_json_string ValidString_def zero_Token_def maxNestingDepth_def)
qed

section \<open>Properties\<close>

lemma sample_token_valid: "token_faithful sample_token_codec sample_token" "ValidString ''u''" "ValidString ''i''"
proof -
  have "ValidString ''a''" "ValidString ''r''" "ValidString ''Bearer''"
    by code_simp+
  then show "token_faithful sample_token_codec sample_token"
    by (intro sample_token_faithful) (simp_all add: sample_token_def)
  show "ValidString ''u''" "ValidString ''i''"
    by code_simp+
qed



text \<open>What a row carries is read back as it was written, a subject and an id token that are UTF-8
  among it, and none of what was left out for being empty is missing.\<close>

theorem pgPayload_roundtrip:
  assumes "json_Marshal (pg_codec c) p = Inr data"
    and "\<And>t. pp_Token p = Some t \<Longrightarrow> token_faithful c t" and "ValidString (pp_Subject p)"
    and "ValidString (pp_IDToken p)" and "- (2 ^ 63) \<le> pp_Version p" and "pp_Version p < 2 ^ 63"
  shows "json_Unmarshal (pg_codec c) data = Inr p"
  using pg_codec_faithful [OF assms(2-6)] assms(1) by (simp add: faithful_def)

lemma pgPayload_roundtrip_witness:
  "\<exists>data. json_Unmarshal (pg_codec sample_token_codec) data =
     Inr \<lparr>pp_Version = 1, pp_Subject = ''u'', pp_Token = Some sample_token, pp_IDToken = []\<rparr>"
proof -
  let ?p = "\<lparr>pp_Version = 1, pp_Subject = ''u'', pp_Token = Some sample_token, pp_IDToken = []\<rparr>"
  obtain data where "json_Marshal (pg_codec sample_token_codec) ?p = Inr data"
    by (simp add: pg_codec_def struct_codec_def pgPayload_json_def marshal_token_def sample_token_codec_def)
  moreover have "ValidString []"
    by (simp add: ValidString_def)
  ultimately show ?thesis
    using pgPayload_roundtrip [of sample_token_codec ?p data] sample_token_valid by auto
qed

end
