(* ===== verification/PgTable.thy ===== *)
theory PgTable
  imports Store "HOL-Library.Product_Lexorder"
begin

text \<open>
  The table \<open>howdah_session\<close> and the statements of \<open>queries.sql.go\<close> as functions on it.  A
  table is the list of its rows, a nullable column an option.  Each statement is one function of
  the table, the database clock (\<open>now()\<close>, the same throughout a statement) and its arguments,
  and returns what the statement returns and the table it leaves; its \<open>WHERE\<close> is a
  predicate on rows, with SQL's rule that a comparison with \<open>NULL\<close> does not hold.
\<close>

section \<open>Rows\<close>

record HowdahSession =
  row_id :: bytes
  row_subject :: string
  row_key_id :: bytes
  row_payload :: bytes
  row_access_expires_at :: time
  row_refresh_lease_until :: "time option"
  row_refresh_lease_nonce :: "bytes option"
  row_refresh_failed_at :: "time option"
  row_refreshed_at :: time
  row_created_at :: time
  row_expires_at :: time

type_synonym table = "HowdahSession list"

definition table_inv :: "table \<Rightarrow> bool" where
  "table_inv tbl \<longleftrightarrow> distinct (map row_id tbl)"

definition lookup_row :: "table \<Rightarrow> bytes \<Rightarrow> HowdahSession option" where
  "lookup_row tbl i = find (\<lambda>r. row_id r = i) tbl"

text \<open>\<open>UPDATE ... SET f WHERE p\<close>: the new table and the number of rows it changed.\<close>

definition sql_update ::
  "(HowdahSession \<Rightarrow> bool) \<Rightarrow> (HowdahSession \<Rightarrow> HowdahSession) \<Rightarrow> table \<Rightarrow> nat \<times> table" where
  "sql_update p f tbl = (length (filter p tbl), map (\<lambda>r. if p r then f r else r) tbl)"

definition sql_delete :: "(HowdahSession \<Rightarrow> bool) \<Rightarrow> table \<Rightarrow> nat \<times> table" where
  "sql_delete p tbl = (length (filter p tbl), filter (\<lambda>r. \<not> p r) tbl)"

section \<open>The statements\<close>

record CreateSessionParams =
  cs_ID :: bytes
  cs_Subject :: string
  cs_KeyID :: bytes
  cs_Payload :: bytes
  cs_AccessExpiresAt :: time
  cs_MaxSessionAge :: duration

text \<open>The id is the primary key: a second row with it is a constraint violation.\<close>

definition CreateSession ::
  "CreateSessionParams \<Rightarrow> time \<Rightarrow> table \<Rightarrow> (time \<times> time) result \<times> table" where
  "CreateSession arg now tbl =
     (if lookup_row tbl (cs_ID arg) \<noteq> None then (Inl (New ''duplicate key value''), tbl)
      else
        (Inr (now, now + cs_MaxSessionAge arg),
         tbl @ [\<lparr>row_id = cs_ID arg, row_subject = cs_Subject arg, row_key_id = cs_KeyID arg,
                 row_payload = cs_Payload arg, row_access_expires_at = cs_AccessExpiresAt arg,
                 row_refresh_lease_until = None, row_refresh_lease_nonce = None,
                 row_refresh_failed_at = None, row_refreshed_at = now, row_created_at = now,
                 row_expires_at = now + cs_MaxSessionAge arg\<rparr>]))"

text \<open>\<open>GetSession\<close> returns the row and \<open>db_now\<close>, or \<open>pgx.ErrNoRows\<close>.\<close>

definition GetSession :: "bytes \<Rightarrow> time \<Rightarrow> table \<Rightarrow> (HowdahSession \<times> time) result \<times> table" where
  "GetSession i now tbl =
     (case lookup_row tbl i of
        None \<Rightarrow> (Inl (Sentinel ErrNoRows), tbl)
      | Some r \<Rightarrow> (Inr (r, now), tbl))"

definition UpdateSession ::
  "bytes \<Rightarrow> bytes \<Rightarrow> time \<Rightarrow> bytes \<Rightarrow> time \<Rightarrow> table \<Rightarrow> nat result \<times> table" where
  "UpdateSession keyID payload accessExpiresAt i now tbl =
     apfst Inr (sql_update (\<lambda>r. row_id r = i)
       (\<lambda>r. r\<lparr>row_key_id := keyID, row_payload := payload, row_access_expires_at := accessExpiresAt,
              row_refreshed_at := now, row_refresh_lease_until := None,
              row_refresh_lease_nonce := None, row_refresh_failed_at := None\<rparr>) tbl)"

definition DeleteSession :: "bytes \<Rightarrow> time \<Rightarrow> table \<Rightarrow> nat result \<times> table" where
  "DeleteSession i now tbl = apfst Inr (sql_delete (\<lambda>r. row_id r = i) tbl)"

definition DeleteSubjectSessions :: "string \<Rightarrow> time \<Rightarrow> table \<Rightarrow> nat result \<times> table" where
  "DeleteSubjectSessions subj now tbl = apfst Inr (sql_delete (\<lambda>r. row_subject r = subj) tbl)"

text \<open>The subselect of \<open>DeleteExpiredSessions\<close>: the expired rows that no other statement has
  locked, oldest first and by id among the equally old, at most \<open>batch\<close> of them.\<close>

definition expired_batch :: "bytes list \<Rightarrow> nat \<Rightarrow> time \<Rightarrow> table \<Rightarrow> bytes list" where
  "expired_batch locked batch now tbl =
     take batch (map row_id (sort_key (\<lambda>r. (row_expires_at r, row_id r))
       (filter (\<lambda>r. row_expires_at r \<le> now \<and> row_id r \<notin> set locked) tbl)))"

definition DeleteExpiredSessions ::
  "bytes list \<Rightarrow> nat \<Rightarrow> time \<Rightarrow> table \<Rightarrow> nat result \<times> table" where
  "DeleteExpiredSessions locked batch now tbl =
     apfst Inr (sql_delete (\<lambda>r. row_id r \<in> set (expired_batch locked batch now tbl)) tbl)"

definition lease_free :: "time \<Rightarrow> HowdahSession \<Rightarrow> bool" where
  "lease_free now r =
     (case row_refresh_lease_until r of None \<Rightarrow> True | Some until \<Rightarrow> until < now)"

definition lease_guard :: "bytes \<Rightarrow> time \<Rightarrow> time option \<Rightarrow> time \<Rightarrow> HowdahSession \<Rightarrow> bool" where
  "lease_guard i seenRefreshedAt seenFailedAt now r \<longleftrightarrow>
     row_id r = i \<and> lease_free now r \<and> row_refreshed_at r \<le> seenRefreshedAt \<and>
     row_refresh_failed_at r = seenFailedAt \<and> now < row_expires_at r"

text \<open>\<open>TakeRefreshLease\<close> returns the row it updated, or \<open>pgx.ErrNoRows\<close>.\<close>

definition TakeRefreshLease ::
  "duration \<Rightarrow> bytes \<Rightarrow> bytes \<Rightarrow> time \<Rightarrow> time option \<Rightarrow> time \<Rightarrow> table \<Rightarrow> HowdahSession result \<times> table" where
  "TakeRefreshLease lease nonce i seenRefreshedAt seenFailedAt now tbl =
     (let guard = lease_guard i seenRefreshedAt seenFailedAt now;
          tbl' = snd (sql_update guard
            (\<lambda>r. r\<lparr>row_refresh_lease_until := Some (now + lease),
                   row_refresh_lease_nonce := Some nonce\<rparr>) tbl)
      in case find guard tbl of
           None \<Rightarrow> (Inl (Sentinel ErrNoRows), tbl')
         | Some r \<Rightarrow>
             (Inr (r\<lparr>row_refresh_lease_until := Some (now + lease),
                row_refresh_lease_nonce := Some nonce\<rparr>), tbl'))"

definition holds_lease :: "bytes \<Rightarrow> bytes \<Rightarrow> HowdahSession \<Rightarrow> bool" where
  "holds_lease i nonce r \<longleftrightarrow> row_id r = i \<and> row_refresh_lease_nonce r = Some nonce"

definition CommitRefresh ::
  "bytes \<Rightarrow> bytes \<Rightarrow> time \<Rightarrow> bytes \<Rightarrow> bytes \<Rightarrow> time \<Rightarrow> table \<Rightarrow> nat result \<times> table" where
  "CommitRefresh payload keyID accessExpiresAt i nonce now tbl =
     apfst Inr (sql_update (holds_lease i nonce)
       (\<lambda>r. r\<lparr>row_payload := payload, row_key_id := keyID, row_access_expires_at := accessExpiresAt,
              row_refreshed_at := now, row_refresh_lease_until := None,
              row_refresh_lease_nonce := None, row_refresh_failed_at := None\<rparr>) tbl)"

definition FailRefresh :: "bytes \<Rightarrow> bytes \<Rightarrow> time \<Rightarrow> table \<Rightarrow> nat result \<times> table" where
  "FailRefresh i nonce now tbl =
     apfst Inr (sql_update (holds_lease i nonce)
       (\<lambda>r. r\<lparr>row_refresh_failed_at := Some now, row_refresh_lease_until := None,
              row_refresh_lease_nonce := None\<rparr>) tbl)"

section \<open>Rows by id\<close>

named_theorems statement_simps \<open>what a statement leaves in the row of an id\<close>

lemma lookup_row_Some: "lookup_row tbl i = Some r \<Longrightarrow> r \<in> set tbl \<and> row_id r = i"
  by (auto simp: lookup_row_def find_Some_iff)

lemma lookup_row_None: "lookup_row tbl i = None \<longleftrightarrow> i \<notin> row_id ` set tbl"
  by (auto simp: lookup_row_def find_None_iff)

lemma lookup_row_Nil [simp]: "lookup_row [] i = None"
  and lookup_row_Cons: "lookup_row (r # tbl) i = (if row_id r = i then Some r else lookup_row tbl i)"
  by (simp_all add: lookup_row_def)

lemma lookup_row_append:
  "lookup_row (a @ b) i = (case lookup_row a i of None \<Rightarrow> lookup_row b i | Some r \<Rightarrow> Some r)"
  by (induction a) (auto simp: lookup_row_Cons)

lemma lookup_row_eq: "table_inv tbl \<Longrightarrow> r \<in> set tbl \<Longrightarrow> lookup_row tbl (row_id r) = Some r"
  by (induction tbl) (auto simp: table_inv_def lookup_row_Cons)

text \<open>An update that keeps the ids changes the row of an id where its guard holds.\<close>

lemma lookup_row_map:
  assumes "\<And>r. row_id (f r) = row_id r"
  shows "lookup_row (map f tbl) i = map_option f (lookup_row tbl i)"
  by (induction tbl) (simp_all add: lookup_row_Cons assms)

lemma lookup_sql_update:
  assumes "\<And>r. row_id (f r) = row_id r"
  shows "lookup_row (snd (sql_update p f tbl)) i =
    map_option (\<lambda>r. if p r then f r else r) (lookup_row tbl i)"
  by (simp add: sql_update_def lookup_row_map assms)

lemma table_inv_sql_update:
  assumes "\<And>r. row_id (f r) = row_id r"
  shows "table_inv (snd (sql_update p f tbl)) = table_inv tbl"
proof -
  have "map row_id (map (\<lambda>r. if p r then f r else r) tbl) = map row_id tbl"
    using assms by simp
  then show ?thesis by (simp only: table_inv_def sql_update_def snd_conv)
qed

lemma table_inv_sql_delete: "table_inv tbl \<Longrightarrow> table_inv (snd (sql_delete p tbl))"
  by (auto simp: table_inv_def sql_delete_def intro: distinct_map_filter)

lemma lookup_sql_delete:
  assumes "table_inv tbl"
  shows "lookup_row (snd (sql_delete p tbl)) i =
    (case lookup_row tbl i of Some r \<Rightarrow> if p r then None else Some r | None \<Rightarrow> None)"
  using assms
proof (induction tbl)
  case (Cons r tbl)
  then have "lookup_row tbl (row_id r) = None"
    by (auto simp: table_inv_def lookup_row_None)
  then show ?case
    using Cons by (auto simp: sql_delete_def lookup_row_Cons table_inv_def split: option.splits)
qed (simp add: sql_delete_def)

text \<open>A guard that names the id matches at most one row: the statement reports one row or
  none.\<close>

lemma count_by_id:
  assumes "table_inv tbl" and "\<And>r. p r \<Longrightarrow> row_id r = i"
  shows "length (filter p tbl) =
    (case lookup_row tbl i of Some r \<Rightarrow> if p r then 1 else 0 | None \<Rightarrow> 0)"
  using assms(1)
proof (induction tbl)
  case (Cons r tbl)
  then have n: "lookup_row tbl (row_id r) = None"
    by (auto simp: table_inv_def lookup_row_None)
  have "filter p tbl = []" if "row_id r = i"
    using that n assms(2) by (auto simp: filter_empty_conv lookup_row_None) (metis imageI)
  then show ?case
    using Cons n assms(2) by (auto simp: lookup_row_Cons table_inv_def split: option.splits)
qed simp

lemma find_by_id:
  assumes "table_inv tbl" and "\<And>r. p r \<Longrightarrow> row_id r = i"
  shows "find p tbl = (case lookup_row tbl i of Some r \<Rightarrow> if p r then Some r else None | None \<Rightarrow> None)"
  using assms(1)
proof (induction tbl)
  case (Cons r tbl)
  then have n: "lookup_row tbl (row_id r) = None"
    by (auto simp: table_inv_def lookup_row_None)
  then show ?case
    using Cons n assms(2) by (auto simp: lookup_row_Cons table_inv_def split: option.splits)
qed simp

text \<open>What each statement leaves in the row of an id.\<close>

lemma lookup_CommitRefresh [statement_simps]:
  "lookup_row (snd (CommitRefresh pl k e i n now tbl)) i' = map_option
     (\<lambda>r. if holds_lease i n r then
        r\<lparr>row_payload := pl, row_key_id := k, row_access_expires_at := e, row_refreshed_at := now,
          row_refresh_lease_until := None, row_refresh_lease_nonce := None,
          row_refresh_failed_at := None\<rparr> else r) (lookup_row tbl i')"
  by (simp add: CommitRefresh_def lookup_sql_update)

lemma lookup_FailRefresh [statement_simps]:
  "lookup_row (snd (FailRefresh i n now tbl)) i' = map_option
     (\<lambda>r. if holds_lease i n r then
        r\<lparr>row_refresh_failed_at := Some now, row_refresh_lease_until := None,
          row_refresh_lease_nonce := None\<rparr> else r) (lookup_row tbl i')"
  by (simp add: FailRefresh_def lookup_sql_update)

lemma lookup_UpdateSession [statement_simps]:
  "lookup_row (snd (UpdateSession k pl e i now tbl)) i' = map_option
     (\<lambda>r. if row_id r = i then
        r\<lparr>row_key_id := k, row_payload := pl, row_access_expires_at := e, row_refreshed_at := now,
          row_refresh_lease_until := None, row_refresh_lease_nonce := None,
          row_refresh_failed_at := None\<rparr> else r) (lookup_row tbl i')"
  by (simp add: UpdateSession_def lookup_sql_update)

lemma lookup_TakeRefreshLease [statement_simps]:
  "lookup_row (snd (TakeRefreshLease d n i sr sf now tbl)) i' = map_option
     (\<lambda>r. if lease_guard i sr sf now r then
        r\<lparr>row_refresh_lease_until := Some (now + d), row_refresh_lease_nonce := Some n\<rparr> else r)
     (lookup_row tbl i')"
proof -
  have "snd (TakeRefreshLease d n i sr sf now tbl) = snd (sql_update (lease_guard i sr sf now)
      (\<lambda>r. r\<lparr>row_refresh_lease_until := Some (now + d), row_refresh_lease_nonce := Some n\<rparr>) tbl)"
    by (simp add: TakeRefreshLease_def Let_def split: option.split)
  then show ?thesis by (simp add: lookup_sql_update)
qed

lemma lookup_DeleteSession [statement_simps]:
  "table_inv tbl \<Longrightarrow> lookup_row (snd (DeleteSession i now tbl)) i' =
     (if i' = i then None else lookup_row tbl i')"
  by (auto simp: DeleteSession_def lookup_sql_delete dest: lookup_row_Some split: option.split)

lemma lookup_CreateSession [statement_simps]:
  "CreateSession arg now tbl = (Inr (c, e), tbl') \<Longrightarrow> lookup_row tbl' i' =
     (if i' = cs_ID arg then
        Some \<lparr>row_id = cs_ID arg, row_subject = cs_Subject arg, row_key_id = cs_KeyID arg,
                 row_payload = cs_Payload arg, row_access_expires_at = cs_AccessExpiresAt arg,
                 row_refresh_lease_until = None, row_refresh_lease_nonce = None,
                 row_refresh_failed_at = None, row_refreshed_at = now, row_created_at = now,
                 row_expires_at = now + cs_MaxSessionAge arg\<rparr>
      else lookup_row tbl i')"
  by (auto simp: CreateSession_def lookup_row_append lookup_row_Cons split: if_splits option.splits)

lemma table_inv_statements [statement_simps]:
  "table_inv tbl \<Longrightarrow> table_inv (snd (CreateSession arg now tbl))"
  "table_inv (snd (CommitRefresh pl k e i n now tbl)) = table_inv tbl"
  "table_inv (snd (FailRefresh i n now tbl)) = table_inv tbl"
  "table_inv (snd (UpdateSession k pl e i now tbl)) = table_inv tbl"
  "table_inv (snd (TakeRefreshLease d n i sr sf now tbl)) = table_inv tbl"
  "table_inv tbl \<Longrightarrow> table_inv (snd (DeleteSession i now tbl))"
  "table_inv tbl \<Longrightarrow> table_inv (snd (DeleteSubjectSessions subj now tbl))"
  "table_inv tbl \<Longrightarrow> table_inv (snd (DeleteExpiredSessions locked batch now tbl))"
  "snd (GetSession i now tbl) = tbl"
proof -
  show "table_inv (snd (TakeRefreshLease d n i sr sf now tbl)) = table_inv tbl"
    by (simp add: TakeRefreshLease_def Let_def table_inv_sql_update split: option.split)
  show "table_inv tbl \<Longrightarrow> table_inv (snd (CreateSession arg now tbl))"
    by (auto simp: CreateSession_def table_inv_def lookup_row_None)
qed (simp_all add: CommitRefresh_def FailRefresh_def UpdateSession_def DeleteSession_def
  DeleteSubjectSessions_def DeleteExpiredSessions_def GetSession_def table_inv_sql_update
  table_inv_sql_delete split: option.split)

text \<open>What each statement reports.\<close>

lemma fst_CommitRefresh:
  "table_inv tbl \<Longrightarrow> fst (CommitRefresh pl k e i n now tbl) = Inr
     (case lookup_row tbl i of Some r \<Rightarrow> if row_refresh_lease_nonce r = Some n then 1 else 0 | None \<Rightarrow> 0)"
  using count_by_id [of tbl "holds_lease i n" i]
  by (auto simp: CommitRefresh_def sql_update_def holds_lease_def dest: lookup_row_Some split: option.splits)

lemma fst_FailRefresh:
  "table_inv tbl \<Longrightarrow> fst (FailRefresh i n now tbl) = Inr
     (case lookup_row tbl i of Some r \<Rightarrow> if row_refresh_lease_nonce r = Some n then 1 else 0 | None \<Rightarrow> 0)"
  using count_by_id [of tbl "holds_lease i n" i]
  by (auto simp: FailRefresh_def sql_update_def holds_lease_def dest: lookup_row_Some split: option.splits)

lemma fst_UpdateSession:
  "table_inv tbl \<Longrightarrow> fst (UpdateSession k pl e i now tbl) = Inr
     (case lookup_row tbl i of Some r \<Rightarrow> 1 | None \<Rightarrow> 0)"
  using count_by_id [of tbl "\<lambda>r. row_id r = i" i]
  by (auto simp: UpdateSession_def sql_update_def dest: lookup_row_Some split: option.splits)

lemma fst_TakeRefreshLease:
  "table_inv tbl \<Longrightarrow> fst (TakeRefreshLease d n i sr sf now tbl) =
     (case lookup_row tbl i of
        Some r \<Rightarrow> if lease_guard i sr sf now r then
            Inr (r\<lparr>row_refresh_lease_until := Some (now + d), row_refresh_lease_nonce := Some n\<rparr>)
          else Inl (Sentinel ErrNoRows)
      | None \<Rightarrow> Inl (Sentinel ErrNoRows))"
  using find_by_id [of tbl "lease_guard i sr sf now" i]
  by (auto simp: TakeRefreshLease_def Let_def lease_guard_def split: option.splits)

section \<open>The sweep\<close>

definition eligible :: "bytes list \<Rightarrow> time \<Rightarrow> table \<Rightarrow> table" where
  "eligible locked now tbl = filter (\<lambda>r. row_expires_at r \<le> now \<and> row_id r \<notin> set locked) tbl"

definition row_age :: "HowdahSession \<Rightarrow> time \<times> bytes" where
  "row_age r = (row_expires_at r, row_id r)"

lemma expired_batch_eligible:
  "expired_batch locked b now tbl = take b (map row_id (sort_key row_age (eligible locked now tbl)))"
  by (simp add: expired_batch_def eligible_def row_age_def [abs_def])

lemma distinct_eligible: "table_inv tbl \<Longrightarrow> distinct (map row_id (sort_key row_age (eligible locked now tbl)))"
proof -
  assume "table_inv tbl"
  then have "inj_on row_id (set tbl)" "distinct tbl"
    by (auto simp: table_inv_def distinct_map)
  then show ?thesis
    by (auto simp: eligible_def distinct_map inj_on_def)
qed

lemma count_ids:
  assumes "table_inv tbl" and "distinct ids" and "set ids \<subseteq> row_id ` set tbl"
  shows "length (filter (\<lambda>r. row_id r \<in> set ids) tbl) = length ids"
proof -
  have d: "distinct tbl" "inj_on row_id (set tbl)"
    using assms(1) by (auto simp: table_inv_def distinct_map)
  have "row_id ` {r \<in> set tbl. row_id r \<in> set ids} = set ids"
    using assms(3) by auto
  moreover have "card (row_id ` {r \<in> set tbl. row_id r \<in> set ids}) = card {r \<in> set tbl. row_id r \<in> set ids}"
    by (rule card_image, rule inj_on_subset [OF d(2)]) blast
  moreover have "length (filter (\<lambda>r. row_id r \<in> set ids) tbl) = card {r \<in> set tbl. row_id r \<in> set ids}"
    using d(1) distinct_card [of "filter (\<lambda>r. row_id r \<in> set ids) tbl"] by simp
  ultimately show ?thesis
    using distinct_card [OF assms(2)] by simp
qed

lemma sorted_take_before:
  assumes "sorted (map f xs)" and "x \<in> set (take b xs)" and "y \<in> set (drop b xs)"
  shows "f x \<le> f y"
proof -
  have "map f xs = map f (take b xs) @ map f (drop b xs)"
    by (simp add: take_map [symmetric] drop_map [symmetric])
  then have "\<forall>u \<in> set (map f (take b xs)). \<forall>v \<in> set (map f (drop b xs)). u \<le> v"
    using assms(1) sorted_append by metis
  then show ?thesis
    using assms(2,3) by simp
qed

lemma set_eligible_split:
  "set (eligible locked now tbl) =
     set (take b (sort_key row_age (eligible locked now tbl))) \<union>
     set (drop b (sort_key row_age (eligible locked now tbl)))"
proof -
  have "set (eligible locked now tbl) = set (sort_key row_age (eligible locked now tbl))"
    by simp
  then show ?thesis
    by (metis append_take_drop_id set_append)
qed

text \<open>One call of the sweep deletes as many rows as fit in the batch, of those that are
  past their expiry and not locked, and reports that number; what it deletes is at least as old
  as what it leaves; every other row stays, in place.  So it reports nothing exactly when there
  is nothing for it to delete.\<close>

theorem DeleteExpiredSessions_batch:
  assumes "table_inv tbl"
  shows "\<exists>gone. DeleteExpiredSessions locked batch now tbl =
      (Inr (min batch (length (eligible locked now tbl))), filter (\<lambda>r. r \<notin> gone) tbl) \<and>
    gone \<subseteq> set (eligible locked now tbl) \<and> card gone = min batch (length (eligible locked now tbl)) \<and>
    (\<forall>r \<in> gone. \<forall>r' \<in> set (eligible locked now tbl) - gone. row_age r \<le> row_age r')"
proof -
  let ?s = "sort_key row_age (eligible locked now tbl)"
  let ?gone = "set (take batch ?s)"
  have inj: "inj_on row_id (set tbl)"
    using assms by (auto simp: table_inv_def distinct_map)
  have el: "?gone \<subseteq> set (eligible locked now tbl)" "set (eligible locked now tbl) \<subseteq> set tbl"
    by (auto simp: eligible_def dest: in_set_takeD)
  have dist: "distinct (map row_id ?s)"
    by (rule distinct_eligible [OF assms])
  have ids: "set (expired_batch locked batch now tbl) = row_id ` ?gone"
    by (simp add: expired_batch_eligible take_map)
  have mem: "row_id r \<in> set (expired_batch locked batch now tbl) \<longleftrightarrow> r \<in> ?gone" if "r \<in> set tbl" for r
    using that inj el unfolding ids by (auto simp: inj_on_def)
  have n: "length (filter (\<lambda>r. row_id r \<in> set (expired_batch locked batch now tbl)) tbl) =
      min batch (length (eligible locked now tbl))"
  proof -
    have "distinct (expired_batch locked batch now tbl)"
      unfolding expired_batch_eligible by (rule distinct_take [OF dist])
    moreover have "set (expired_batch locked batch now tbl) \<subseteq> row_id ` set tbl"
      using ids el by blast
    ultimately show ?thesis
      by (simp add: count_ids [OF assms]) (simp add: expired_batch_eligible min.commute)
  qed
  have "DeleteExpiredSessions locked batch now tbl =
      (Inr (min batch (length (eligible locked now tbl))), filter (\<lambda>r. r \<notin> ?gone) tbl)"
  proof -
    have "filter (\<lambda>r. row_id r \<notin> set (expired_batch locked batch now tbl)) tbl = filter (\<lambda>r. r \<notin> ?gone) tbl"
      by (rule filter_cong) (auto simp: mem)
    then show ?thesis
      by (simp only: DeleteExpiredSessions_def sql_delete_def n apfst_conv)
  qed
  moreover have "card ?gone = min batch (length (eligible locked now tbl))"
    using dist distinct_card [of "take batch ?s"] by (simp add: distinct_map min.commute)
  moreover have "row_age r \<le> row_age r'" if "r \<in> ?gone" "r' \<in> set (eligible locked now tbl) - ?gone" for r r'
    using sorted_take_before [of row_age ?s r batch r'] that set_eligible_split [of locked now tbl batch]
    by auto
  ultimately show ?thesis
    using el(1) by blast
qed

definition sample_row :: "byte \<Rightarrow> time \<Rightarrow> HowdahSession" where
  "sample_row n e = \<lparr>row_id = [n], row_subject = ''u'', row_key_id = [], row_payload = [],
     row_access_expires_at = 0, row_refresh_lease_until = None, row_refresh_lease_nonce = None,
     row_refresh_failed_at = None, row_refreshed_at = 10, row_created_at = 10, row_expires_at = e\<rparr>"

lemma DeleteExpiredSessions_batch_witness:
  "fst (DeleteExpiredSessions [[1]] 5 100 [sample_row 1 20, sample_row 2 30, sample_row 3 200]) = Inr 1"
  using DeleteExpiredSessions_batch [of "[sample_row 1 20, sample_row 2 30, sample_row 3 200]" "[[1]]" 5 100]
  by (auto simp: table_inv_def sample_row_def eligible_def)

text \<open>Two sweepers that run at the same time take disjoint batches, and between them the
  oldest rows of the table: the second, skipping what the first has locked, gets the rows that
  come next in the order.\<close>

theorem DeleteExpiredSessions_two_sweepers:
  assumes "table_inv tbl"
  shows "expired_batch (expired_batch [] b now tbl) b' now tbl =
    take b' (drop b (map row_id (sort_key row_age (eligible [] now tbl))))"
proof -
  let ?s = "sort_key row_age (eligible [] now tbl)"
  let ?ids = "expired_batch [] b now tbl"
  have dist: "distinct (map row_id ?s)"
    by (rule distinct_eligible [OF assms])
  have ids: "set ?ids = row_id ` set (take b ?s)"
    by (simp add: expired_batch_eligible take_map)
  have inj: "inj_on row_id (set ?s)"
    using dist by (simp add: distinct_map)
  have sub: "set (take b ?s) \<subseteq> set ?s" "set (drop b ?s) \<subseteq> set ?s"
    by (auto dest: in_set_takeD in_set_dropD)
  have disj: "set (take b ?s) \<inter> set (drop b ?s) = {}"
    using dist by (meson distinct_map order_refl set_take_disj_set_drop_if_distinct)
  have "eligible ?ids now tbl = filter (\<lambda>r. row_id r \<notin> set ?ids) (eligible [] now tbl)"
    by (simp add: eligible_def conj_commute)
  then have "sort_key row_age (eligible ?ids now tbl) = filter (\<lambda>r. row_id r \<notin> set ?ids) ?s"
    by (simp add: filter_sort)
  also have "\<dots> = filter (\<lambda>r. row_id r \<notin> set ?ids) (take b ?s) @ filter (\<lambda>r. row_id r \<notin> set ?ids) (drop b ?s)"
    by (metis append_take_drop_id filter_append)
  also have "filter (\<lambda>r. row_id r \<notin> set ?ids) (take b ?s) = []"
    by (auto simp: filter_empty_conv ids)
  also have "filter (\<lambda>r. row_id r \<notin> set ?ids) (drop b ?s) = drop b ?s"
  proof (rule filter_True, rule ballI)
    fix r assume r: "r \<in> set (drop b ?s)"
    then have "r \<notin> set (take b ?s)" using disj by blast
    then show "row_id r \<notin> set ?ids"
      unfolding ids using inj sub r by (metis inj_on_image_mem_iff subsetD)
  qed
  finally show ?thesis
    by (simp only: expired_batch_eligible append_Nil drop_map take_map)
qed

lemma DeleteExpiredSessions_two_sweepers_witness:
  "expired_batch (expired_batch [] 1 100 [sample_row 1 20, sample_row 2 30]) 1 100 [sample_row 1 20, sample_row 2 30] = [[2]]"
proof -
  have e: "eligible [] 100 [sample_row 1 20, sample_row 2 30] = [sample_row 1 20, sample_row 2 30]"
    by (simp add: eligible_def sample_row_def)
  have "sort_key row_age [sample_row 1 20, sample_row 2 30] = [sample_row 1 20, sample_row 2 30]"
    by (simp add: sample_row_def row_age_def)
  then show ?thesis
    using DeleteExpiredSessions_two_sweepers [of "[sample_row 1 20, sample_row 2 30]" 1 100 1]
    by (simp add: e table_inv_def) (simp add: sample_row_def)
qed

end
