(* ===== verification/PgStore.thy ===== *)
theory PgStore
  imports Sealer Payload PgTable
begin

text \<open>
  \<open>pgstore.go\<close> and \<open>payload.go\<close>: the store that keeps sessions in Postgres, but for its
  \<open>Refresh\<close> (theory \<open>PgRefresh\<close>).  The environment is extended with the table, the clock of
  the database and what goes wrong with the coming statements.  The codec of the payload is part of
  the store (theory \<open>Payload\<close> has that of the source).
\<close>

section \<open>The database\<close>

text \<open>What happens to a statement: it is answered; it fails without having been executed; or it is
  executed and the reply is lost.  Where nothing is foreseen it is answered.  A statement whose
  context is done is not executed.\<close>

datatype fault = Answered | Refused | ReplyLost

record pg_world = world +
  sessions :: table
  db_now :: time
  faults :: "fault list"
  locked_rows :: "bytes list"

definition pg_query ::
  "Context \<Rightarrow> (time \<Rightarrow> table \<Rightarrow> 'r result \<times> table) \<Rightarrow> 'a pg_world_scheme \<Rightarrow>
   'r result \<times> 'a pg_world_scheme" where
  "pg_query ctx q w =
     (if ctx_Err ctx (clock w) then (Inl (Sentinel ErrContextDone), w)
      else let w' = w\<lparr>faults := tl (faults w)\<rparr>;
               answer = q (db_now w) (sessions w)
           in (case faults w of
                 Refused # _ \<Rightarrow> (Inl (New ''connection refused''), w')
               | ReplyLost # _ \<Rightarrow> (Inl (New ''connection reset''), w'\<lparr>sessions := snd answer\<rparr>)
               | _ \<Rightarrow> (fst answer, w'\<lparr>sessions := snd answer\<rparr>)))"

section \<open>Configuration\<close>

abbreviation DefaultMaxSessionAge :: duration where "DefaultMaxSessionAge \<equiv> 12 * Hour"
abbreviation DefaultRefreshLease :: duration where "DefaultRefreshLease \<equiv> 20 * Second"
abbreviation DefaultTokenRequestTimeout :: duration where "DefaultTokenRequestTimeout \<equiv> 10 * Second"
abbreviation DefaultRefreshMargin :: duration where "DefaultRefreshMargin \<equiv> 10 * Second"
abbreviation DefaultWriteTimeout :: duration where "DefaultWriteTimeout \<equiv> 5 * Second"
definition handleLength :: nat where "handleLength = 32"
definition leaseNonceLength :: nat where "leaseNonceLength = 16"
definition refreshPollMin :: duration where "refreshPollMin = 25 * Millisecond"
definition refreshPollMax :: duration where "refreshPollMax = 500 * Millisecond"

record conf =
  maxSessionAge :: duration
  refreshLease :: duration
  tokenRequestTimeout :: duration
  refreshMargin :: duration
  writeTimeout :: duration
  refreshWait :: duration
  refreshWaitSet :: bool

type_synonym Option = "conf \<Rightarrow> conf"

definition WithMaxSessionAge :: "duration \<Rightarrow> Option" where
  "WithMaxSessionAge age = (\<lambda>c. c\<lparr>maxSessionAge := age\<rparr>)"

definition WithRefreshLease :: "duration \<Rightarrow> Option" where
  "WithRefreshLease lease = (\<lambda>c. c\<lparr>refreshLease := lease\<rparr>)"

definition WithTokenRequestTimeout :: "duration \<Rightarrow> Option" where
  "WithTokenRequestTimeout timeout = (\<lambda>c. c\<lparr>tokenRequestTimeout := timeout\<rparr>)"

definition WithRefreshMargin :: "duration \<Rightarrow> Option" where
  "WithRefreshMargin margin = (\<lambda>c. c\<lparr>refreshMargin := margin\<rparr>)"

definition WithRefreshWait :: "duration \<Rightarrow> Option" where
  "WithRefreshWait w = (\<lambda>c. c\<lparr>refreshWait := w, refreshWaitSet := True\<rparr>)"

definition WithWriteTimeout :: "duration \<Rightarrow> Option" where
  "WithWriteTimeout timeout = (\<lambda>c. c\<lparr>writeTimeout := timeout\<rparr>)"

text \<open>Durations are 64-bit: their sum wraps.\<close>

definition int64 :: "int \<Rightarrow> int" where
  "int64 x = (x + 2 ^ 63) mod 2 ^ 64 - 2 ^ 63"

definition conf_validate :: "conf \<Rightarrow> unit result" where
  "conf_validate c =
     (case find (\<lambda>d. snd d \<le> 0)
        [(''the maximum session age'', maxSessionAge c),
         (''the refresh lease'', refreshLease c),
         (''the token request timeout'', tokenRequestTimeout c),
         (''the refresh wait'', refreshWait c),
         (''the write timeout'', writeTimeout c)] of
        Some (name, value) \<Rightarrow> Inl (New (name @ '' must be positive''))
      | None \<Rightarrow>
          if refreshMargin c < 0 then Inl (New ''the refresh margin must not be negative'')
          else if refreshLease c \<le> int64 (tokenRequestTimeout c + writeTimeout c) then
            Inl (New ''the refresh lease must be longer than the token request timeout and the write timeout together'')
          else Inr ())"

definition default_conf :: conf where
  "default_conf =
     \<lparr>maxSessionAge = DefaultMaxSessionAge, refreshLease = DefaultRefreshLease,
      tokenRequestTimeout = DefaultTokenRequestTimeout, refreshMargin = DefaultRefreshMargin,
      writeTimeout = DefaultWriteTimeout, refreshWait = 0, refreshWaitSet = False\<rparr>"

definition apply_options :: "Option list \<Rightarrow> conf" where
  "apply_options opts =
     (let c = foldl (\<lambda>c opt. opt c) default_conf opts
      in if refreshWaitSet c then c else c\<lparr>refreshWait := int64 (refreshLease c + refreshPollMax)\<rparr>)"

section \<open>The store\<close>

record Store =
  pg_sealer :: SessionSealer
  pg_conf :: conf
  pg_json :: "pgPayload codec"

definition pg_New ::
  "pgPayload codec \<Rightarrow> bool \<Rightarrow> CookieKeyring option \<Rightarrow> string \<Rightarrow> Option list \<Rightarrow> Store result" where
  "pg_New j db keyring cookieName opts =
     (if \<not> db then Inl (New ''a database is required'')
      else let c = apply_options opts in
        (case conf_validate c of
           Inl e \<Rightarrow> Inl e
         | Inr _ \<Rightarrow>
             (case NewSessionSealer keyring cookieName of
                Inl e \<Rightarrow> Inl (Errorf ''create the session sealer'' [e])
              | Inr sealer \<Rightarrow> Inr \<lparr>pg_sealer = sealer, pg_conf = c, pg_json = j\<rparr>)))"

text \<open>A duration as the database gets it: whole microseconds, truncated towards zero.\<close>

definition interval :: "duration \<Rightarrow> duration" where
  "interval d = (if d < 0 then - ((- d) div 1000) else d div 1000) * 1000"

definition sealPayload ::
  "Store \<Rightarrow> bytes \<Rightarrow> pgPayload \<Rightarrow> 'a world_scheme \<Rightarrow> (bytes \<times> KeyID) result \<times> 'a world_scheme" where
  "sealPayload s i payload w =
     (case json_Marshal (pg_json s) payload of
        Inl e \<Rightarrow> (Inl (Errorf ''marshal the session payload'' [e]), w)
      | Inr data \<Rightarrow> SealPayload (pg_sealer s) i data w)"

definition openPayload :: "Store \<Rightarrow> time \<Rightarrow> bytes \<Rightarrow> bytes \<Rightarrow> pgPayload result" where
  "openPayload s now i sealed =
     (case OpenPayload (pg_sealer s) now i sealed of
        Inl (e, kd) \<Rightarrow> Inl (Errorf [] [Sentinel ErrNoSession, e])
      | Inr (plaintext, kd, current) \<Rightarrow>
          (case json_Unmarshal (pg_json s) plaintext of
             Inl e \<Rightarrow> Inl (Errorf ''unmarshal the session payload'' [Sentinel ErrNoSession, e])
           | Inr payload \<Rightarrow>
               if pp_Version payload \<noteq> pgPayloadV1 then
                 Inl (Errorf ''unsupported session payload version'' [Sentinel ErrNoSession])
               else if pp_Token payload = None then
                 Inl (Errorf ''the session payload carries no token'' [Sentinel ErrNoSession])
               else Inr payload))"

definition rowID :: "Store \<Rightarrow> time \<Rightarrow> string \<Rightarrow> (bytes \<times> bool) result" where
  "rowID s now handle =
     (case OpenHandle (pg_sealer s) now handle of
        Inl e \<Rightarrow> Inl (Errorf [] [Sentinel ErrNoSession, e])
      | Inr (plaintext, current) \<Rightarrow> Inr (sha256_Sum256 plaintext, current))"

definition batchSize :: "int \<Rightarrow> int result" where
  "batchSize batch =
     (if batch \<le> 0 then Inl (New ''the batch size must be positive'')
      else if batch > 2 ^ 31 - 1 then Inr (2 ^ 31 - 1)
      else Inr batch)"

definition pg_Create ::
  "Store \<Rightarrow> Context \<Rightarrow> NewSession \<Rightarrow> 'a pg_world_scheme \<Rightarrow>
   StoredToken option result \<times> 'a pg_world_scheme" where
  "pg_Create s ctx session w =
     (case ns_Token session of
        None \<Rightarrow> (Inl (New ''a session needs a token''), w)
      | Some tok \<Rightarrow>
          (case rand_Read handleLength w of
             (Inl e, w1) \<Rightarrow> (Inl (Errorf ''generate a session handle'' [e]), w1)
           | (Inr handle, w1) \<Rightarrow>
               let i = sha256_Sum256 handle in
               (case SealHandle (pg_sealer s) handle w1 of
                  (Inl e, w2) \<Rightarrow> (Inl (Errorf ''seal the session handle'' [e]), w2)
                | (Inr value, w2) \<Rightarrow>
                    (case sealPayload s i \<lparr>pp_Version = pgPayloadV1, pp_Subject = ns_Subject session,
                            pp_Token = Some tok, pp_IDToken = ns_IDToken session\<rparr> w2 of
                       (Inl e, w3) \<Rightarrow> (Inl e, w3)
                     | (Inr (sealed, kd), w3) \<Rightarrow>
                         (case pg_query ctx (CreateSession \<lparr>cs_ID = i, cs_Subject = ns_Subject session,
                                 cs_KeyID = kd, cs_Payload = sealed, cs_AccessExpiresAt = Expiry tok,
                                 cs_MaxSessionAge = interval (maxSessionAge (pg_conf s))\<rparr>) w3 of
                            (Inl e, w4) \<Rightarrow> (Inl (Errorf ''create the session row'' [e]), w4)
                          | (Inr (createdAt, expiresAt), w4) \<Rightarrow>
                              (Inr (Some \<lparr>Handle = value, Subject = ns_Subject session,
                                 st_Token = Some tok, IDToken = ns_IDToken session,
                                 IssuedAt = createdAt, ExpiresAt = expiresAt, Stale = False\<rparr>), w4))))))"

definition pg_Get ::
  "Store \<Rightarrow> Context \<Rightarrow> string \<Rightarrow> 'a pg_world_scheme \<Rightarrow>
   StoredToken option result \<times> 'a pg_world_scheme" where
  "pg_Get s ctx handle w =
     (case rowID s (clock w) handle of
        Inl e \<Rightarrow> (Inl e, w)
      | Inr (i, current) \<Rightarrow>
          (case pg_query ctx (GetSession i) w of
             (Inl e, w1) \<Rightarrow>
               (if errors_Is e ErrNoRows then
                  Inl (Errorf ''unknown session handle'' [Sentinel ErrNoSession])
                else Inl (Errorf ''read the session row'' [e]), w1)
           | (Inr (row, dbNow), w1) \<Rightarrow>
               if \<not> row_expires_at row > dbNow then
                 (Inl (Errorf ''the session expired'' [Sentinel ErrNoSession]), w1)
               else (case openPayload s (clock w1) i (row_payload row) of
                       Inl e \<Rightarrow> (Inl e, w1)
                     | Inr payload \<Rightarrow>
                         (Inr (Some \<lparr>Handle = handle, Subject = pp_Subject payload,
                            st_Token = pp_Token payload, IDToken = pp_IDToken payload,
                            IssuedAt = row_created_at row, ExpiresAt = row_expires_at row,
                            Stale = (\<not> current)\<rparr>), w1))))"

definition pg_Update ::
  "Store \<Rightarrow> Context \<Rightarrow> string \<Rightarrow> Token option \<Rightarrow> 'a pg_world_scheme \<Rightarrow>
   StoredToken option result \<times> 'a pg_world_scheme" where
  "pg_Update s ctx handle tok w =
     (case tok of
        None \<Rightarrow> (Inl (New ''a session needs a token''), w)
      | Some tk \<Rightarrow>
          (case pg_Get s ctx handle w of
             (Inl e, w1) \<Rightarrow> (Inl e, w1)
           | (Inr None, w1) \<Rightarrow> (Inl (New ''nil pointer dereference''), w1)
           | (Inr (Some session), w1) \<Rightarrow>
               (case rowID s (clock w1) handle of
                  Inl e \<Rightarrow> (Inl e, w1)
                | Inr (i, _) \<Rightarrow>
                    (case sealPayload s i \<lparr>pp_Version = pgPayloadV1, pp_Subject = Subject session,
                            pp_Token = tok, pp_IDToken = IDToken session\<rparr> w1 of
                       (Inl e, w2) \<Rightarrow> (Inl e, w2)
                     | (Inr (sealed, kd), w2) \<Rightarrow>
                         (case pg_query ctx (UpdateSession kd sealed (Expiry tk) i) w2 of
                            (Inl e, w3) \<Rightarrow> (Inl (Errorf ''write the session row'' [e]), w3)
                          | (Inr rows, w3) \<Rightarrow>
                              if rows = 0 then
                                (Inl (Errorf ''the session was removed while it was being updated''
                                   [Sentinel ErrNoSession]), w3)
                              else (Inr (Some (session\<lparr>st_Token := tok\<rparr>)), w3))))))"

definition pg_Reseal ::
  "Store \<Rightarrow> StoredToken option \<Rightarrow> 'a world_scheme \<Rightarrow> StoredToken option result \<times> 'a world_scheme" where
  "pg_Reseal s t w =
     (case t of
        None \<Rightarrow> (Inl (New ''a session is required''), w)
      | Some t \<Rightarrow>
          (case OpenHandle (pg_sealer s) (clock w) (Handle t) of
             Inl e \<Rightarrow> (Inl (Errorf [] [Sentinel ErrNoSession, e]), w)
           | Inr (handle, _) \<Rightarrow>
               (case SealHandle (pg_sealer s) handle w of
                  (Inl e, w1) \<Rightarrow> (Inl (Errorf ''seal the session handle'' [e]), w1)
                | (Inr value, w1) \<Rightarrow> (Inr (Some (t\<lparr>Handle := value, Stale := False\<rparr>)), w1))))"

definition pg_Delete :: "Store \<Rightarrow> Context \<Rightarrow> string \<Rightarrow> 'a pg_world_scheme \<Rightarrow> unit result \<times> 'a pg_world_scheme" where
  "pg_Delete s ctx handle w =
     (case rowID s (clock w) handle of
        Inl e \<Rightarrow> if errors_Is e ErrNoSession then (Inr (), w) else (Inl e, w)
      | Inr (i, _) \<Rightarrow>
          (case pg_query ctx (DeleteSession i) w of
             (Inl e, w1) \<Rightarrow> (Inl (Errorf ''delete the session row'' [e]), w1)
           | (Inr _, w1) \<Rightarrow> (Inr (), w1)))"

definition pg_DeleteSubject :: "Store \<Rightarrow> Context \<Rightarrow> string \<Rightarrow> 'a pg_world_scheme \<Rightarrow> nat result \<times> 'a pg_world_scheme" where
  "pg_DeleteSubject s ctx subject w =
     (if subject = [] then (Inl (New ''a subject is required''), w)
      else (case pg_query ctx (DeleteSubjectSessions subject) w of
              (Inl e, w1) \<Rightarrow> (Inl (Errorf ''delete the session rows of the subject'' [e]), w1)
            | (Inr deleted, w1) \<Rightarrow> (Inr deleted, w1)))"

definition pg_DeleteExpired :: "Store \<Rightarrow> Context \<Rightarrow> int \<Rightarrow> 'a pg_world_scheme \<Rightarrow> int result \<times> 'a pg_world_scheme" where
  "pg_DeleteExpired s ctx batch w =
     (case batchSize batch of
        Inl e \<Rightarrow> (Inl e, w)
      | Inr n \<Rightarrow>
          (case pg_query ctx (DeleteExpiredSessions (locked_rows w) (nat n)) w of
             (Inl e, w1) \<Rightarrow> (Inl (Errorf ''delete expired session rows'' [e]), w1)
           | (Inr deleted, w1) \<Rightarrow> (Inr (int deleted), w1)))"

section \<open>Lemmas\<close>

lemma ctx_Err_Background [simp]: "\<not> ctx_Err Background t"
  by (simp add: ctx_Err_def ctx_Done_def Background_def)

lemma pg_query_answered:
  "\<not> ctx_Err ctx (clock w) \<Longrightarrow> faults w = [] \<Longrightarrow>
     pg_query ctx q w = (fst (q (db_now w) (sessions w)), w\<lparr>sessions := snd (q (db_now w) (sessions w))\<rparr>)"
  by (simp add: pg_query_def Let_def)

lemma pg_query_clock [world_simps]:
  "clock (snd (pg_query ctx q w)) = clock w" "db_now (snd (pg_query ctx q w)) = db_now w"
  "rng (snd (pg_query ctx q w)) = rng w"
  by (auto simp: pg_query_def Let_def split: list.split fault.split)

lemma pg_query_sessions:
  "sessions (snd (pg_query ctx q w)) \<in> {sessions w, snd (q (db_now w) (sessions w))}"
  by (auto simp: pg_query_def Let_def split: list.split fault.split)

lemma pg_query_Inr:
  "pg_query ctx q w = (Inr r, w') \<Longrightarrow>
     fst (q (db_now w) (sessions w)) = Inr r \<and>
     w' = w\<lparr>sessions := snd (q (db_now w) (sessions w)), faults := tl (faults w)\<rparr>"
  by (auto simp: pg_query_def Let_def split: list.splits fault.splits if_splits)

definition db_failed :: "Context \<Rightarrow> 'a pg_world_scheme \<Rightarrow> bool" where
  "db_failed ctx w \<longleftrightarrow> ctx_Err ctx (clock w) \<or> (faults w \<noteq> [] \<and> hd (faults w) \<noteq> Answered)"

lemma pg_query_Inl:
  "pg_query ctx q w = (Inl e, w') \<Longrightarrow> \<not> db_failed ctx w \<Longrightarrow>
     fst (q (db_now w) (sessions w)) = Inl e \<and>
     w' = w\<lparr>sessions := snd (q (db_now w) (sessions w)), faults := tl (faults w)\<rparr>"
  by (auto simp: pg_query_def Let_def db_failed_def split: list.splits fault.splits if_splits)

text \<open>The steps of the store's operations that touch the environment only at its random source
  leave the rest of it alone.\<close>

definition only_rng :: "'a world_scheme \<Rightarrow> 'a world_scheme \<Rightarrow> bool" where
  "only_rng w w' \<longleftrightarrow> (\<exists>r. w' = w\<lparr>rng := r\<rparr>)"

lemma only_rng_refl [simp]: "only_rng w w"
  by (auto simp: only_rng_def intro: exI [of _ "rng w"])

lemma only_rng_trans: "only_rng a b \<Longrightarrow> only_rng b c \<Longrightarrow> only_rng a c"
  by (auto simp: only_rng_def)

lemma only_rng_fields:
  "only_rng w w' \<Longrightarrow> clock w' = clock w"
  "only_rng v v' \<Longrightarrow> sessions v' = sessions v \<and> db_now v' = db_now v \<and> faults v' = faults v \<and>
     locked_rows v' = locked_rows v \<and> clock v' = clock v"
  by (auto simp: only_rng_def)

lemma rand_Read_only: "rand_Read n w = (r, w') \<Longrightarrow> only_rng w w'"
  by (auto simp: rand_Read_def only_rng_def split: if_splits intro: exI [of _ "rng w"])

lemma sealKindRaw_only: "sealKindRaw k kind d p w = (r, w') \<Longrightarrow> only_rng w w'"
  by (auto simp: sealKindRaw_def Let_def split: option.splits prod.splits sum.splits dest: rand_Read_only)

lemma SealHandle_only: "SealHandle s h w = (r, w') \<Longrightarrow> only_rng w w'"
  by (auto simp: SealHandle_def sealKind_def split: prod.splits sum.splits dest: sealKindRaw_only)

lemma sealPayload_only: "sealPayload s i p w = (r, w') \<Longrightarrow> only_rng w w'"
  by (auto simp: sealPayload_def SealPayload_def split: prod.splits sum.splits dest: sealKindRaw_only)

lemma rowID_Inl: "rowID s t h = Inl e \<Longrightarrow> errors_Is e ErrNoSession"
  by (auto simp: rowID_def error_simps split: sum.splits prod.splits)

lemma rowID_Inr: "rowID s t h = Inr (i, cur) \<longleftrightarrow>
    (\<exists>p. OpenHandle (pg_sealer s) t h = Inr (p, cur) \<and> i = sha256_Sum256 p)"
  by (auto simp: rowID_def split: sum.splits prod.splits)

lemma openPayload_Inl: "openPayload s t i raw = Inl e \<Longrightarrow> errors_Is e ErrNoSession"
  by (auto simp: openPayload_def error_simps split: sum.splits prod.splits if_splits)

lemma OpenHandle_SealHandle:
  "keyring_inv (sealer_keyring s) \<Longrightarrow> SealHandle s h w = (Inr v, w') \<Longrightarrow> clock w \<le> now \<Longrightarrow>
     \<exists>cur. OpenHandle s now v = Inr (h, cur)"
  using open_sealKind_fact [of "sealer_keyring s" sessionKindHandle "sealer_cookieDomain s" h w v w' now]
  by (simp add: SealHandle_Inr OpenHandle_def session_kinds)

lemma openPayload_sealPayload:
  assumes "keyring_inv (sealer_keyring (pg_sealer s))" and "sealPayload s i p w = (Inr (raw, kd), w')"
    and "clock w \<le> now" and "faithful (pg_json s) p" and "pp_Version p = pgPayloadV1" and "pp_Token p \<noteq> None"
  shows "openPayload s now i raw = Inr p"
proof -
  obtain data where d: "json_Marshal (pg_json s) p = Inr data"
      "SealPayload (pg_sealer s) i data w = (Inr (raw, kd), w')"
    using assms(2) by (auto simp: sealPayload_def split: sum.splits)
  then have "json_Unmarshal (pg_json s) data = Inr p"
    using assms(4) by (simp add: faithful_def)
  then show ?thesis
    using open_sealed_payload(1) [OF assms(1) d(2) assms(3)] assms(5,6) by (simp add: openPayload_def)
qed

section \<open>The contract\<close>

definition pg_payload_of :: "session_content \<Rightarrow> pgPayload" where
  "pg_payload_of c = \<lparr>pp_Version = pgPayloadV1, pp_Subject = c_Subject c, pp_Token = c_Token c,
     pp_IDToken = c_IDToken c\<rparr>"

definition pg_ready :: "Store \<Rightarrow> 'a pg_world_scheme \<Rightarrow> bool" where
  "pg_ready s w \<longleftrightarrow> keyring_inv (sealer_keyring (pg_sealer s)) \<and> table_inv (sessions w) \<and> faults w = []"

definition pg_age :: "Store \<Rightarrow> duration" where
  "pg_age s = interval (maxSessionAge (pg_conf s))"

text \<open>A handle stands for a content when it seals the name of a row that holds it.\<close>

definition pg_row_holds :: "Store \<Rightarrow> 'a pg_world_scheme \<Rightarrow> bytes \<Rightarrow> session_content \<Rightarrow> bool" where
  "pg_row_holds s w i c \<longleftrightarrow>
     (\<exists>r. lookup_row (sessions w) i = Some r \<and> row_created_at r = c_IssuedAt c \<and>
        row_expires_at r = c_IssuedAt c + pg_age s \<and>
        (\<forall>now \<ge> clock w. openPayload s now i (row_payload r) = Inr (pg_payload_of c)))"

definition pg_holds :: "Store \<Rightarrow> 'a pg_world_scheme \<Rightarrow> string \<Rightarrow> session_content \<Rightarrow> bool" where
  "pg_holds s w h c \<longleftrightarrow>
     (\<exists>i. (\<forall>now \<ge> clock w. \<exists>cur. rowID s now h = Inr (i, cur)) \<and> pg_row_holds s w i c)"

definition pg_later :: "'a pg_world_scheme \<Rightarrow> 'a pg_world_scheme \<Rightarrow> bool" where
  "pg_later w w' \<longleftrightarrow> clock w \<le> clock w' \<and> db_now w \<le> db_now w' \<and> sessions w' = sessions w \<and> faults w' = []"

lemma pg_Get_holds:
  assumes "pg_ready s w" and "pg_holds s w h c"
  shows "pg_Get s Background h w =
    (if c_IssuedAt c + pg_age s \<le> db_now w
     then (Inl (Errorf ''the session expired'' [Sentinel ErrNoSession]), w)
     else (Inr (Some \<lparr>Handle = h, Subject = c_Subject c, st_Token = c_Token c, IDToken = c_IDToken c,
             IssuedAt = c_IssuedAt c, ExpiresAt = c_IssuedAt c + pg_age s,
             Stale = (case rowID s (clock w) h of Inr (i, cur) \<Rightarrow> \<not> cur | Inl e \<Rightarrow> False)\<rparr>), w))"
proof -
  obtain i cur r where i: "rowID s (clock w) h = Inr (i, cur)" and r: "lookup_row (sessions w) i = Some r"
    and c: "row_created_at r = c_IssuedAt c" "row_expires_at r = c_IssuedAt c + pg_age s"
    and p: "openPayload s (clock w) i (row_payload r) = Inr (pg_payload_of c)"
    using assms(2) by (force simp: pg_holds_def pg_row_holds_def)
  have "pg_query Background (GetSession i) w = (Inr (r, db_now w), w)"
    using assms(1) by (simp add: pg_query_answered pg_ready_def GetSession_def r)
  then show ?thesis
    by (auto simp: pg_Get_def i p c pg_payload_of_def)
qed

lemma pg_Create_steps:
  assumes "pg_Create s ctx ns w = (Inr st, w')"
  obtains tok handle w1 v w2 sealed kd w3 where
    "ns_Token ns = Some tok" "rand_Read handleLength w = (Inr handle, w1)"
    "SealHandle (pg_sealer s) handle w1 = (Inr v, w2)"
    "sealPayload s (sha256_Sum256 handle) \<lparr>pp_Version = pgPayloadV1, pp_Subject = ns_Subject ns,
       pp_Token = Some tok, pp_IDToken = ns_IDToken ns\<rparr> w2 = (Inr (sealed, kd), w3)"
    "only_rng w w1" "only_rng w1 w2" "only_rng w2 w3"
    "pg_query ctx (CreateSession \<lparr>cs_ID = sha256_Sum256 handle, cs_Subject = ns_Subject ns,
       cs_KeyID = kd, cs_Payload = sealed, cs_AccessExpiresAt = Expiry tok,
       cs_MaxSessionAge = pg_age s\<rparr>) w3 = (Inr (db_now w, db_now w + pg_age s), w')"
    "st = Some \<lparr>Handle = v, Subject = ns_Subject ns, st_Token = Some tok, IDToken = ns_IDToken ns,
       IssuedAt = db_now w, ExpiresAt = db_now w + pg_age s, Stale = False\<rparr>"
proof -
  obtain tok handle w1 v w2 sealed kd w3 c e where
    s: "ns_Token ns = Some tok" "rand_Read handleLength w = (Inr handle, w1)"
    "SealHandle (pg_sealer s) handle w1 = (Inr v, w2)"
    "sealPayload s (sha256_Sum256 handle) \<lparr>pp_Version = pgPayloadV1, pp_Subject = ns_Subject ns,
       pp_Token = Some tok, pp_IDToken = ns_IDToken ns\<rparr> w2 = (Inr (sealed, kd), w3)"
    and q: "pg_query ctx (CreateSession \<lparr>cs_ID = sha256_Sum256 handle, cs_Subject = ns_Subject ns,
       cs_KeyID = kd, cs_Payload = sealed, cs_AccessExpiresAt = Expiry tok,
       cs_MaxSessionAge = pg_age s\<rparr>) w3 = (Inr (c, e), w')"
    and st: "st = Some \<lparr>Handle = v, Subject = ns_Subject ns, st_Token = Some tok, IDToken = ns_IDToken ns,
       IssuedAt = c, ExpiresAt = e, Stale = False\<rparr>"
    using assms by (auto simp: pg_Create_def Let_def pg_age_def
        split: option.splits prod.splits sum.splits)
  note o = rand_Read_only [OF s(2)] SealHandle_only [OF s(3)] sealPayload_only [OF s(4)]
  have "db_now w3 = db_now w"
    using o only_rng_fields(2) by metis
  then have "c = db_now w" "e = db_now w + pg_age s"
    using pg_query_Inr [OF q] by (auto simp: CreateSession_def split: if_splits)
  then show thesis
    using that s o q st by blast
qed

lemma pg_Update_steps:
  assumes "pg_Update s ctx h (Some tok) w = (Inr st, w')"
  obtains session w1 i cur sealed kd w2 rows where
    "pg_Get s ctx h w = (Inr (Some session), w1)" "rowID s (clock w1) h = Inr (i, cur)"
    "sealPayload s i \<lparr>pp_Version = pgPayloadV1, pp_Subject = Subject session,
       pp_Token = Some tok, pp_IDToken = IDToken session\<rparr> w1 = (Inr (sealed, kd), w2)"
    "only_rng w1 w2" "pg_query ctx (UpdateSession kd sealed (Expiry tok) i) w2 = (Inr rows, w')"
    "rows \<noteq> 0" "st = Some (session\<lparr>st_Token := Some tok\<rparr>)"
proof -
  obtain session w1 i cur sealed kd w2 rows where u: "pg_Get s ctx h w = (Inr (Some session), w1)"
    "rowID s (clock w1) h = Inr (i, cur)"
    "sealPayload s i \<lparr>pp_Version = pgPayloadV1, pp_Subject = Subject session,
       pp_Token = Some tok, pp_IDToken = IDToken session\<rparr> w1 = (Inr (sealed, kd), w2)"
    "pg_query ctx (UpdateSession kd sealed (Expiry tok) i) w2 = (Inr rows, w')"
    "rows \<noteq> 0" "st = Some (session\<lparr>st_Token := Some tok\<rparr>)"
    using assms by (auto simp: pg_Update_def split: option.splits prod.splits sum.splits if_splits)
  then show thesis
    using that sealPayload_only by blast
qed

lemma pg_Reseal_steps:
  assumes "pg_Reseal s (Some t) w = (Inr st, w')"
  obtains handle cur v where
    "OpenHandle (pg_sealer s) (clock w) (Handle t) = Inr (handle, cur)"
    "SealHandle (pg_sealer s) handle w = (Inr v, w')" "only_rng w w'"
    "st = Some (t\<lparr>Handle := v, Stale := False\<rparr>)"
proof -
  obtain handle cur v where u: "OpenHandle (pg_sealer s) (clock w) (Handle t) = Inr (handle, cur)"
    "SealHandle (pg_sealer s) handle w = (Inr v, w')" "st = Some (t\<lparr>Handle := v, Stale := False\<rparr>)"
    using assms by (auto simp: pg_Reseal_def split: prod.splits sum.splits)
  then show thesis
    using that SealHandle_only by blast
qed

interpretation pg_store: session_store "pg_Create s Background" "pg_Get s Background"
    "pg_Update s Background" "pg_Reseal s" "pg_age s" "pg_ready s" db_now "pg_holds s" pg_later
    "\<lambda>c. faithful (pg_json s) (pg_payload_of c)" "\<lambda>c. c"
  for s :: Store
proof (standard, goal_cases)
  case (1 w ns st w')
  obtain tok handle w1 v w2 sealed kd w3 where t: "ns_Token ns = Some tok"
    and h: "SealHandle (pg_sealer s) handle w1 = (Inr v, w2)"
    and p: "sealPayload s (sha256_Sum256 handle) \<lparr>pp_Version = pgPayloadV1, pp_Subject = ns_Subject ns,
       pp_Token = Some tok, pp_IDToken = ns_IDToken ns\<rparr> w2 = (Inr (sealed, kd), w3)"
    and o: "only_rng w w1" "only_rng w1 w2" "only_rng w2 w3"
    and q: "pg_query Background (CreateSession \<lparr>cs_ID = sha256_Sum256 handle, cs_Subject = ns_Subject ns,
       cs_KeyID = kd, cs_Payload = sealed, cs_AccessExpiresAt = Expiry tok,
       cs_MaxSessionAge = pg_age s\<rparr>) w3 = (Inr (db_now w, db_now w + pg_age s), w')"
    and st: "st = \<lparr>Handle = v, Subject = ns_Subject ns, st_Token = Some tok, IDToken = ns_IDToken ns,
       IssuedAt = db_now w, ExpiresAt = db_now w + pg_age s, Stale = False\<rparr>"
    using 1(2) by (elim pg_Create_steps) auto
  have k: "keyring_inv (sealer_keyring (pg_sealer s))" "table_inv (sessions w)" "faults w = []"
    using 1(1) by (auto simp: pg_ready_def)
  have w3: "db_now w3 = db_now w" "sessions w3 = sessions w" "faults w3 = []"
    and cl: "clock w1 = clock w" "clock w2 = clock w" "clock w3 = clock w"
    using o only_rng_fields(2) k(3) by metis+
  note q' = pg_query_Inr [OF q]
  then have cr: "CreateSession \<lparr>cs_ID = sha256_Sum256 handle, cs_Subject = ns_Subject ns,
       cs_KeyID = kd, cs_Payload = sealed, cs_AccessExpiresAt = Expiry tok,
       cs_MaxSessionAge = pg_age s\<rparr> (db_now w) (sessions w) = (Inr (db_now w, db_now w + pg_age s), sessions w')"
    by (auto simp: w3 prod_eq_iff)
  have w': "clock w' = clock w" "faults w' = []"
    using q' w3 cl by auto
  have f: "faithful (pg_json s) \<lparr>pp_Version = pgPayloadV1, pp_Subject = ns_Subject ns,
       pp_Token = Some tok, pp_IDToken = ns_IDToken ns\<rparr>"
    using 1(3) by (simp add: st pg_payload_of_def content_def)
  have "openPayload s now (sha256_Sum256 handle) sealed = Inr (pg_payload_of (content st))"
    if "clock w' \<le> now" for now
    using openPayload_sealPayload [OF k(1) p _ f] that cl w'
    by (simp add: st pg_payload_of_def content_def)
  then have "pg_row_holds s w' (sha256_Sum256 handle) (content st)"
    unfolding pg_row_holds_def by (simp add: lookup_CreateSession [OF cr]) (simp add: st content_def)
  moreover have "\<exists>cur. rowID s now v = Inr (sha256_Sum256 handle, cur)" if "clock w' \<le> now" for now
    using OpenHandle_SealHandle [OF k(1) h, of now] that w' cl by (auto simp: rowID_Inr)
  moreover have "table_inv (sessions w')"
    using table_inv_statements(1) [OF k(2), of "\<lparr>cs_ID = sha256_Sum256 handle, cs_Subject = ns_Subject ns,
       cs_KeyID = kd, cs_Payload = sealed, cs_AccessExpiresAt = Expiry tok,
       cs_MaxSessionAge = pg_age s\<rparr>" "db_now w"] cr by simp
  ultimately show ?case
    using k w' t by (auto simp: pg_ready_def pg_holds_def st content_def)
next
  case (2 w h c r w')
  then show ?case
    using pg_Get_holds [OF 2(1,2)] by (auto simp: content_def pg_later_def pg_ready_def)
next
  case (3 w h c)
  then show ?case
    using pg_Get_holds [OF 3(1,2)] by (auto simp: error_simps)
next
  case (4 w h c tok st w')
  obtain session w1 i cur sealed kd w2 rows where g: "pg_Get s Background h w = (Inr (Some session), w1)"
    and i: "rowID s (clock w1) h = Inr (i, cur)"
    and p: "sealPayload s i \<lparr>pp_Version = pgPayloadV1, pp_Subject = Subject session,
       pp_Token = Some tok, pp_IDToken = IDToken session\<rparr> w1 = (Inr (sealed, kd), w2)"
    and o: "only_rng w1 w2" and q: "pg_query Background (UpdateSession kd sealed (Expiry tok) i) w2 = (Inr rows, w')"
    and st: "st = session\<lparr>st_Token := Some tok\<rparr>"
    using 4(3) by (elim pg_Update_steps) auto
  have w1: "w1 = w" and ses: "Handle session = h" "content session = c" "Subject session = c_Subject c" "IDToken session = c_IDToken c"
    using g pg_Get_holds [OF 4(1,2)] by (auto simp: content_def split: if_splits)
  have k: "keyring_inv (sealer_keyring (pg_sealer s))" "table_inv (sessions w)" "faults w = []"
    using 4(1) by (auto simp: pg_ready_def)
  have w2: "db_now w2 = db_now w" "sessions w2 = sessions w" "faults w2 = []" "clock w2 = clock w"
    using o only_rng_fields(2) k(3) w1 by metis+
  have w': "sessions w' = snd (UpdateSession kd sealed (Expiry tok) i (db_now w) (sessions w))"
      "clock w' = clock w" "faults w' = []" "db_now w' = db_now w"
    using pg_query_Inr [OF q] w2 by auto
  obtain i' where i': "\<forall>now \<ge> clock w. \<exists>cur. rowID s now h = Inr (i', cur)" "pg_row_holds s w i' c"
    using 4(2) by (auto simp: pg_holds_def)
  have ii: "i' = i"
    using i'(1) i w1 by fastforce
  have f: "faithful (pg_json s) \<lparr>pp_Version = pgPayloadV1, pp_Subject = Subject session,
       pp_Token = Some tok, pp_IDToken = IDToken session\<rparr>"
    using 4(4) by (simp add: ses pg_payload_of_def)
  have "openPayload s now i sealed = Inr (pg_payload_of (c\<lparr>c_Token := Some tok\<rparr>))" if "clock w' \<le> now" for now
    using openPayload_sealPayload [OF k(1) p _ f] that w' by (simp add: ses pg_payload_of_def w1)
  moreover obtain r where r: "lookup_row (sessions w) i = Some r" "row_created_at r = c_IssuedAt c"
      "row_expires_at r = c_IssuedAt c + pg_age s"
    using i'(2) by (auto simp: pg_row_holds_def ii)
  ultimately have "pg_row_holds s w' i (c\<lparr>c_Token := Some tok\<rparr>)"
    using lookup_row_Some [OF r(1)] by (simp add: pg_row_holds_def w'(1) lookup_UpdateSession)
  moreover have "content st = c\<lparr>c_Token := Some tok\<rparr>"
    unfolding st ses(2) [symmetric] by (simp add: content_def)
  moreover have "pg_ready s w'"
    using k w' by (simp add: pg_ready_def table_inv_statements)
  ultimately show ?case
    using i'(1) ii w' ses by (auto simp: pg_holds_def st)
next
  case (5 w t st w')
  obtain handle cur v where h: "OpenHandle (pg_sealer s) (clock w) (Handle t) = Inr (handle, cur)"
    and v: "SealHandle (pg_sealer s) handle w = (Inr v, w')" and o: "only_rng w w'"
    and st: "st = t\<lparr>Handle := v, Stale := False\<rparr>"
    using 5(4) by (elim pg_Reseal_steps) auto
  have k: "keyring_inv (sealer_keyring (pg_sealer s))"
    using 5(1) by (auto simp: pg_ready_def)
  have w': "db_now w' = db_now w" "sessions w' = sessions w" "faults w' = faults w" "clock w' = clock w"
    using o only_rng_fields(2) by metis+
  obtain i where i: "\<forall>now \<ge> clock w. \<exists>cur. rowID s now (Handle t) = Inr (i, cur)" "pg_row_holds s w i (content t)"
    using 5(2) by (auto simp: pg_holds_def)
  have "i = sha256_Sum256 handle"
    using i(1) h by (fastforce simp: rowID_Inr)
  then have "\<exists>cur. rowID s now v = Inr (i, cur)" if "clock w' \<le> now" for now
    using OpenHandle_SealHandle [OF k v, of now] that w' by (auto simp: rowID_Inr)
  moreover have "pg_row_holds s w' i (content t)"
    using i(2) w' by (simp add: pg_row_holds_def)
  ultimately show ?case
    using 5(1) w' by (auto simp: pg_holds_def pg_ready_def st content_def)
next
  case (6 w w' h c)
  then have "sessions w' = sessions w" and le: "clock w \<le> clock w'"
    by (simp_all add: pg_later_def)
  have up: "P now" if "\<forall>now \<ge> clock w. P now" "clock w' \<le> now" for P :: "time \<Rightarrow> bool" and now
    using that le order_trans by blast
  obtain i where i: "\<forall>now \<ge> clock w. \<exists>cur. rowID s now h = Inr (i, cur)" "pg_row_holds s w i c"
    using 6(2) by (auto simp: pg_holds_def)
  obtain r where r: "lookup_row (sessions w') i = Some r" "row_created_at r = c_IssuedAt c"
      "row_expires_at r = c_IssuedAt c + pg_age s"
      "\<forall>now \<ge> clock w. openPayload s now i (row_payload r) = Inr (pg_payload_of c)"
    using i(2) \<open>sessions w' = sessions w\<close> by (auto simp: pg_row_holds_def)
  show ?case
    unfolding pg_holds_def pg_row_holds_def using r(1-3) up [OF i(1)] up [OF r(4)] by blast
next
  case (7 w w')
  then show ?case by (simp add: pg_ready_def pg_later_def)
next
  case (8 w w')
  then show ?case by (simp add: pg_later_def)
qed

section \<open>Properties\<close>

lemma int64_small: "- (2 ^ 63) \<le> x \<Longrightarrow> x < 2 ^ 63 \<Longrightarrow> int64 x = x"
  by (simp add: int64_def)

definition sample_pg_codec :: "pgPayload codec" where
  "sample_pg_codec =
     \<lparr>json_Marshal = (\<lambda>p. Inr [5]),
      json_Unmarshal = (\<lambda>data. Inr \<lparr>pp_Version = 1, pp_Subject = ''u'',
        pp_Token = Some \<lparr>AccessToken = ''a'', TokenType = ''Bearer'', RefreshToken = ''r'', Expiry = 900,
          ExpiresIn = 0\<rparr>, pp_IDToken = ''i''\<rparr>)\<rparr>"

definition sample_pg_session :: NewSession where
  "sample_pg_session = \<lparr>ns_Subject = ''u'',
     ns_Token = Some \<lparr>AccessToken = ''a'', TokenType = ''Bearer'', RefreshToken = ''r'', Expiry = 900,
          ExpiresIn = 0\<rparr>, ns_IDToken = ''i''\<rparr>"

definition sample_pg :: Store where
  "sample_pg = \<lparr>pg_sealer = sample_sealer, pg_conf = apply_options [], pg_json = sample_pg_codec\<rparr>"

definition sample_pg_world :: "time \<Rightarrow> bytes \<Rightarrow> table \<Rightarrow> pg_world" where
  "sample_pg_world t r tbl = \<lparr>clock = t, rng = r, sessions = tbl, db_now = t, faults = [], locked_rows = []\<rparr>"

lemma sample_pg_inv: "keyring_inv (sealer_keyring (pg_sealer sample_pg))"
  by (simp add: sample_pg_def sample_sealer_def keyring_inv_sample)

lemma sample_pg_age: "pg_age sample_pg = 43200000000000"
  by (simp add: pg_age_def sample_pg_def apply_options_def default_conf_def interval_def Let_def)

lemma sample_pg_New: "pg_New sample_pg_codec True (Some sample_keyring) ''s'' [] = Inr sample_pg"
proof -
  have "conf_validate (apply_options []) = Inr ()"
    by (simp add: conf_validate_def apply_options_def default_conf_def int64_def refreshPollMax_def Let_def)
  then show ?thesis
    by (simp add: pg_New_def sample_sealer sample_pg_def)
qed

lemma sample_pg_ready: "table_inv tbl \<Longrightarrow> pg_ready sample_pg (sample_pg_world t r tbl)"
  by (simp add: pg_ready_def sample_pg_inv sample_pg_world_def)

text \<open>A creation with the sealer and the settings of the sample, over any codec that writes the payload.\<close>

lemma sample_sealer_Create:
  assumes s: "pg_sealer s = sample_sealer" and tok: "ns_Token ns = Some tok"
    and data: "json_Marshal (pg_json s) \<lparr>pp_Version = pgPayloadV1, pp_Subject = ns_Subject ns, pp_Token = Some tok,
      pp_IDToken = ns_IDToken ns\<rparr> = Inr data"
  obtains st w' where "pg_Create s Background ns (sample_pg_world 150 (replicate 80 9) []) = (Inr (Some st), w')"
    and "content st = \<lparr>c_Subject = ns_Subject ns, c_Token = Some tok, c_IDToken = ns_IDToken ns, c_IssuedAt = 150\<rparr>"
proof -
  let ?w = "sample_pg_world 150 (replicate 80 9) []"
  have rnd: "rand_Read handleLength ?w = (Inr (replicate 32 9), ?w\<lparr>rng := replicate 48 9\<rparr>)"
    by (simp add: rand_Read_Inr handleLength_def sample_pg_world_def)
  obtain v where v: "SealHandle sample_sealer (replicate 32 9) (?w\<lparr>rng := replicate 48 9\<rparr>) =
      (Inr v, ?w\<lparr>rng := replicate 36 9\<rparr>)"
    by (auto simp: SealHandle_Inr sample_sealer_def sealKind_Inr sealingKey_sample sample_pg_world_def)
  obtain raw kd where p: "SealPayload sample_sealer (sha256_Sum256 (replicate 32 9)) data (?w\<lparr>rng := replicate 36 9\<rparr>) =
      (Inr (raw, kd), ?w\<lparr>rng := replicate 24 9\<rparr>)"
    by (auto simp: SealPayload_Inr sample_sealer_def sealKindRaw_Inr sealingKey_sample sample_pg_world_def)
  have q: "pg_query Background (CreateSession arg) (?w\<lparr>rng := replicate 24 9\<rparr>) =
      (Inr (150, 150 + cs_MaxSessionAge arg), snd (pg_query Background (CreateSession arg) (?w\<lparr>rng := replicate 24 9\<rparr>)))"
    for arg
    by (simp add: pg_query_answered sample_pg_world_def CreateSession_def)
  let ?st = "\<lparr>Handle = v, Subject = ns_Subject ns, st_Token = Some tok, IDToken = ns_IDToken ns, IssuedAt = 150,
        ExpiresAt = 150 + pg_age s, Stale = False\<rparr>"
  have "fst (pg_Create s Background ns ?w) = Inr (Some ?st)"
    unfolding pg_Create_def sealPayload_def tok data option.simps rnd prod.case sum.case Let_def s v p
    by (subst q) (simp add: pg_age_def)
  then show thesis
    by (intro that [of ?st "snd (pg_Create s Background ns ?w)"]) (simp_all add: prod_eq_iff content_def)
qed

lemma sample_pg_Create:
  obtains st w' where "pg_Create sample_pg Background sample_pg_session
      (sample_pg_world 150 (replicate 80 9) []) = (Inr (Some st), w')"
    and "content st = \<lparr>c_Subject = ''u'', c_Token = ns_Token sample_pg_session, c_IDToken = ''i'',
      c_IssuedAt = 150\<rparr>"
  by (rule sample_sealer_Create [of sample_pg sample_pg_session])
    (auto simp: sample_pg_def sample_pg_codec_def sample_pg_session_def)



text \<open>A store that could be built has a positive maximum age, lease, timeouts and wait, and
  a lease that outlasts the token request and the write-back together, as long as the two
  timeouts do not add up to more than the 64 bits of a duration.\<close>

theorem New_lease_covers:
  assumes "pg_New j db keyring name opts = Inr s"
  shows "pg_conf s = apply_options opts \<and>
    0 < maxSessionAge (pg_conf s) \<and> 0 < refreshLease (pg_conf s) \<and> 0 < tokenRequestTimeout (pg_conf s) \<and>
    0 < refreshWait (pg_conf s) \<and> 0 < writeTimeout (pg_conf s) \<and> 0 \<le> refreshMargin (pg_conf s) \<and>
    (tokenRequestTimeout (pg_conf s) + writeTimeout (pg_conf s) > maxDuration \<or>
     tokenRequestTimeout (pg_conf s) + writeTimeout (pg_conf s) < refreshLease (pg_conf s))"
proof -
  have c: "pg_conf s = apply_options opts" and v: "conf_validate (apply_options opts) = Inr ()"
    using assms by (auto simp: pg_New_def Let_def split: if_splits sum.splits)
  let ?c = "apply_options opts"
  have pos: "0 < maxSessionAge ?c" "0 < refreshLease ?c" "0 < tokenRequestTimeout ?c"
      "0 < refreshWait ?c" "0 < writeTimeout ?c" "0 \<le> refreshMargin ?c"
    and l: "\<not> refreshLease ?c \<le> int64 (tokenRequestTimeout ?c + writeTimeout ?c)"
    using v by (simp_all add: conf_validate_def split: if_splits)
  have "int64 (tokenRequestTimeout ?c + writeTimeout ?c) = tokenRequestTimeout ?c + writeTimeout ?c"
    if "tokenRequestTimeout ?c + writeTimeout ?c \<le> maxDuration"
    by (rule int64_small) (use that pos in simp_all)
  then have "tokenRequestTimeout ?c + writeTimeout ?c > maxDuration \<or>
      tokenRequestTimeout ?c + writeTimeout ?c < refreshLease ?c"
    using l by linarith
  then show ?thesis
    unfolding c using pos by blast
qed

lemma New_lease_covers_witness:
  "tokenRequestTimeout (pg_conf sample_pg) + writeTimeout (pg_conf sample_pg) > maxDuration \<or>
   tokenRequestTimeout (pg_conf sample_pg) + writeTimeout (pg_conf sample_pg) < refreshLease (pg_conf sample_pg)"
  using New_lease_covers [OF sample_pg_New] by blast

text \<open>The bound on the timeouts is needed: the sum is computed in 64 bits, so two timeouts that
  overflow it pass the check with any lease at all.\<close>

theorem conf_validate_overflow:
  "conf_validate \<lparr>maxSessionAge = Hour, refreshLease = 1, tokenRequestTimeout = 2 ^ 62,
     refreshMargin = 0, writeTimeout = 2 ^ 62, refreshWait = Second, refreshWaitSet = True\<rparr> = Inr ()"
  by (simp add: conf_validate_def int64_def)

lemma pg_Get_outage:
  assumes "rowID s (clock w) h = Inr ic" and "db_failed ctx w"
  shows "\<exists>e. fst (pg_Get s ctx h w) = Inl e \<and> \<not> errors_Is e ErrNoSession \<and> \<not> errors_Is e ErrRefreshRejected"
proof -
  obtain i cur where ic: "ic = (i, cur)" by (cases ic)
  have "\<exists>w'. pg_query ctx (GetSession i) w \<in>
      {(Inl (Sentinel ErrContextDone), w'), (Inl (New ''connection refused''), w'), (Inl (New ''connection reset''), w')}"
    using assms(2) by (auto simp: db_failed_def pg_query_def Let_def neq_Nil_conv split: fault.splits)
  then show ?thesis
    using assms(1) by (auto simp: pg_Get_def ic error_simps)
qed

text \<open>A storage outage never looks like a missing session, and everything else that keeps
  \<open>Get\<close> from answering does: its error wraps \<open>ErrNoSession\<close> unless the read of the row itself
  failed.\<close>

theorem pg_Get_errors:
  assumes "fst (pg_Get s ctx h w) = Inl e"
  shows "errors_Is e ErrNoSession \<longleftrightarrow> \<not> db_failed ctx w \<or> (\<exists>e'. rowID s (clock w) h = Inl e')"
proof (cases "rowID s (clock w) h")
  case (Inl e')
  then show ?thesis
    using assms rowID_Inl [OF Inl] by (simp add: pg_Get_def)
next
  case (Inr ic)
  obtain i cur where ic: "ic = (i, cur)" by (cases ic)
  show ?thesis
  proof (cases "db_failed ctx w")
    case True
    then have "\<exists>w'. pg_query ctx (GetSession i) w \<in>
        {(Inl (Sentinel ErrContextDone), w'), (Inl (New ''connection refused''), w'), (Inl (New ''connection reset''), w')}"
      by (auto simp: db_failed_def pg_query_def Let_def neq_Nil_conv split: fault.splits)
    then show ?thesis
      using assms Inr True by (auto simp: pg_Get_def ic error_simps)
  next
    case False
    have "errors_Is e ErrNoSession"
      using assms Inr pg_query_Inl [OF _ False, of "GetSession i"]
      by (auto simp: pg_Get_def ic error_simps GetSession_def openPayload_Inl
          split: prod.splits sum.splits if_splits option.splits)
    then show ?thesis using False by blast
  qed
qed

lemma pg_Get_errors_witness:
  "errors_Is (projl (fst (pg_Get sample_pg Background ''!'' (sample_pg_world 150 [] [])))) ErrNoSession"
proof -
  have g: "fst (pg_Get sample_pg Background ''!'' (sample_pg_world 150 [] [])) =
      Inl (Errorf [] [Sentinel ErrNoSession, Errorf ''open session handle'' [Sentinel ErrNotSealed]])"
    by (simp add: pg_Get_def rowID_def OpenHandle_def openKind_def base64_DecodeString_def
        base64_index_def RawURLEncoding_def base64_url_def)
  show ?thesis
    using pg_Get_errors [OF g] g by (simp add: db_failed_def sample_pg_world_def)
qed

lemma pg_Delete_answered:
  assumes "rowID s (clock w) v = Inr (i, cur)" and "\<not> db_failed ctx w"
  shows "fst (pg_Delete s ctx v w) = Inr ()"
proof (cases "pg_query ctx (DeleteSession i) w")
  case (Pair r w1)
  then show ?thesis
    using assms pg_query_Inl [of ctx "DeleteSession i" w _ w1]
    by (cases r) (auto simp: pg_Delete_def DeleteSession_def Let_def split: prod.splits)
qed

lemma pg_Delete_revoked:
  assumes "table_inv (sessions w)" and "rowID s (clock w) v = Inr (i, cur)"
    and "pg_Delete s ctx v w = (Inr (), w')"
    and "lookup_row (sessions wx) i = lookup_row (sessions w') i" and "rowID s (clock wx) u = Inr (i, curx)" and "\<not> db_failed ctxx wx"
  shows "\<exists>e. fst (pg_Get s ctxx u wx) = Inl e \<and> errors_Is e ErrNoSession"
proof -
  obtain n where q: "pg_query ctx (DeleteSession i) w = (Inr n, w')"
    using assms(2,3) by (auto simp: pg_Delete_def split: prod.splits sum.splits)
  have "lookup_row (sessions wx) i = None"
    using pg_query_Inr [OF q] assms(1,4) by (simp add: lookup_DeleteSession)
  then have g: "fst (GetSession i (db_now wx) (sessions wx)) = Inl (Sentinel ErrNoRows)"
    by (simp add: GetSession_def)
  obtain r w3 where r: "pg_query ctxx (GetSession i) wx = (r, w3)"
    by (cases "pg_query ctxx (GetSession i) wx")
  have "r = Inl (Sentinel ErrNoRows)"
  proof (cases r)
    case (Inl e)
    then show ?thesis using pg_query_Inl [OF r [unfolded Inl] assms(6)] g by simp
  next
    case (Inr x)
    then show ?thesis using pg_query_Inr [OF r [unfolded Inr]] g by simp
  qed
  then show ?thesis
    by (simp add: pg_Get_def assms(5) r error_simps)
qed

text \<open>Logout is a revocation: once a session's row is deleted, and as long as no row is
  created under the same digest, no handle that names the row resolves, whichever key it was sealed
  under and wherever it was copied to.\<close>

theorem pg_Delete_revokes:
  assumes "table_inv (sessions w)" and "rowID s (clock w) v = Inr (i, cur)"
    and "pg_Delete s ctx v w = (Inr (), w')"
    and "lookup_row (sessions wx) i = lookup_row (sessions w') i" and "rowID s (clock wx) u = Inr (i, curx)" and "\<not> db_failed ctxx wx"
  shows "\<exists>e. fst (pg_Get s ctxx u wx) = Inl e \<and> errors_Is e ErrNoSession"
  by (rule pg_Delete_revoked [OF assms])

lemma sample_pg_handle:
  obtains v where "rowID sample_pg 150 v = Inr (sha256_Sum256 [7, 8], True)"
    and "rowID sample_pg 250 v = Inr (sha256_Sum256 [7, 8], False)"
proof -
  obtain v w1 where v: "SealHandle sample_sealer [7, 8] \<lparr>clock = 150, rng = replicate 20 (9 :: byte)\<rparr> = (Inr v, w1)"
    by (auto simp: SealHandle_Inr sample_sealer_def sealKind_Inr sealingKey_sample)
  have "OpenHandle sample_sealer t v = Inr ([7, 8], sealingKey (Some sample_keyring) t = Some (sample_entry 1 100))"
    if "150 \<le> t" for t
    using open_sealKind_fact [OF keyring_inv_sample, of sessionKindHandle "''cookie:s''" "[7, 8]"
        "\<lparr>clock = 150, rng = replicate 20 (9 :: byte)\<rparr>" v w1 t] v that
    by (simp add: SealHandle_Inr sample_sealer_def OpenHandle_def session_kinds sealingKey_sample)
  then have "rowID sample_pg 150 v = Inr (sha256_Sum256 [7, 8], True)"
    "rowID sample_pg 250 v = Inr (sha256_Sum256 [7, 8], False)"
    by (simp_all add: rowID_def sample_pg_def sealingKey_sample sample_entry_def)
  then show thesis by (rule that)
qed

lemma pg_Delete_revokes_witness:
  "\<exists>v e. fst (pg_Get sample_pg Background v (sample_pg_world 250 [] [])) = Inl e \<and> errors_Is e ErrNoSession"
proof -
  let ?r = "(sample_row 1 1000)\<lparr>row_id := sha256_Sum256 [7, 8]\<rparr>"
  obtain v where v: "rowID sample_pg 150 v = Inr (sha256_Sum256 [7, 8], True)"
    "rowID sample_pg 250 v = Inr (sha256_Sum256 [7, 8], False)"
    by (rule sample_pg_handle)
  have "pg_Delete sample_pg Background v (sample_pg_world 150 [] [?r]) = (Inr (), sample_pg_world 150 [] [])"
    using v by (simp add: pg_Delete_def sample_pg_world_def pg_query_answered DeleteSession_def sql_delete_def)
  from pg_Delete_revokes [OF _ _ this, where u = v and wx = "sample_pg_world 250 [] []" and ctxx = Background]
  show ?thesis
    using v by (fastforce simp: table_inv_def sample_pg_world_def db_failed_def)
qed

text \<open>A session that could not be created leaves no row behind, unless the database stored it
  and the reply was lost; and the cookie value handed back names the row that was stored.\<close>

theorem pg_Create_all_or_nothing:
  fixes w :: "'a pg_world_scheme"
  assumes "table_inv (sessions w)" and "pg_Create s ctx ns w = (r, w')"
  shows "case r of
      Inl e \<Rightarrow> sessions w' = sessions w \<or> (faults w \<noteq> [] \<and> hd (faults w) = ReplyLost)
    | Inr st \<Rightarrow> \<exists>t row. st = Some t \<and> sessions w' = sessions w @ [row] \<and>
        row_subject row = ns_Subject ns \<and> row_created_at row = IssuedAt t \<and> row_expires_at row = ExpiresAt t \<and>
        (keyring_inv (sealer_keyring (pg_sealer s)) \<longrightarrow>
          (\<exists>cur. rowID s (clock w) (Handle t) = Inr (row_id row, cur)))"
proof (cases r)
  case (Inl e)
  have "sessions w' = sessions w \<or> (faults w \<noteq> [] \<and> hd (faults w) = ReplyLost)"
  proof (rule ccontr)
    assume n: "\<not> ?thesis"
    have q: "sessions v' = sessions v"
      if "pg_query ctx (CreateSession arg) v = (Inl e', v')" "\<not> (faults v \<noteq> [] \<and> hd (faults v) = ReplyLost)"
      for arg e' and v v' :: "'a pg_world_scheme"
      using that by (auto simp: pg_query_def Let_def CreateSession_def split: list.splits fault.splits if_splits)
    show False
      using n assms(2) Inl
      by (auto simp: pg_Create_def Let_def split: option.splits prod.splits sum.splits
          dest!: rand_Read_only SealHandle_only sealPayload_only only_rng_fields(2) dest: q)
  qed
  then show ?thesis using Inl by simp
next
  case (Inr st)
  obtain tok handle w1 v w2 sealed kd w3 where h: "SealHandle (pg_sealer s) handle w1 = (Inr v, w2)"
    and o: "only_rng w w1" "only_rng w1 w2" "only_rng w2 w3"
    and q: "pg_query ctx (CreateSession \<lparr>cs_ID = sha256_Sum256 handle, cs_Subject = ns_Subject ns,
       cs_KeyID = kd, cs_Payload = sealed, cs_AccessExpiresAt = Expiry tok,
       cs_MaxSessionAge = pg_age s\<rparr>) w3 = (Inr (db_now w, db_now w + pg_age s), w')"
    and st: "st = Some \<lparr>Handle = v, Subject = ns_Subject ns, st_Token = Some tok, IDToken = ns_IDToken ns,
       IssuedAt = db_now w, ExpiresAt = db_now w + pg_age s, Stale = False\<rparr>"
    using assms(2) unfolding Inr by (elim pg_Create_steps) auto
  have w3: "sessions w3 = sessions w" "db_now w3 = db_now w" "clock w1 = clock w"
    using o only_rng_fields(2) by metis+
  show ?thesis
    using pg_query_Inr [OF q] OpenHandle_SealHandle [OF _ h, of "clock w"] w3
    by (auto simp: Inr st CreateSession_def rowID_Inr split: if_splits)
qed

lemma pg_Create_all_or_nothing_witness:
  "\<exists>w' row. sessions w' = [row] \<and> row_subject row = ''u'' \<and> row_created_at row = 150 \<and>
     (\<exists>st. pg_Create sample_pg Background sample_pg_session (sample_pg_world 150 (replicate 80 9) []) = (Inr st, w'))"
proof -
  obtain st w' where c: "pg_Create sample_pg Background sample_pg_session
      (sample_pg_world 150 (replicate 80 9) []) = (Inr (Some st), w')"
    and st: "content st = \<lparr>c_Subject = ''u'', c_Token = ns_Token sample_pg_session, c_IDToken = ''i'',
      c_IssuedAt = 150\<rparr>"
    by (rule sample_pg_Create)
  show ?thesis
    using pg_Create_all_or_nothing [OF _ c] c st
    by (fastforce simp: table_inv_def sample_pg_world_def content_def sample_pg_session_def)
qed

end
