(* ===== verification/PgRefresh.thy ===== *)
theory PgRefresh
  imports PgStore
begin

text \<open>
  \<open>refresh.go\<close>: \<open>Store.Refresh\<close> as a machine that stops at every point where another
  process can act, that is before each statement, the exchange and the wait: the state of a call
  is where it stands and its variables.  \<open>refresh_step\<close> runs it to the next such point.
  \<open>pg_Refresh\<close> is the call run on its own; theory \<open>PgFleet\<close> interleaves many.
\<close>

section \<open>The state of a call\<close>

datatype refresh_pc =
    Top
  | Lease
  | Waiting time
  | Exchanging bytes HowdahSession
  | Writing bytes HowdahSession pgPayload Token
  | Failing bytes go_error
  | Returned "StoredToken option result"

record refresh_call =
  rc_id :: bytes
  rc_t :: StoredToken
  rc_ctx :: Context
  rc_pc :: refresh_pc
  pass :: nat
  seenRefreshedAt :: time
  seenFailedAt :: "time option"
  backoff :: duration
  deadline :: time
  lostWriteReads :: nat

definition maxLostWriteReads :: nat where "maxLostWriteReads = 2"

definition ErrRefreshFailed :: go_error where
  "ErrRefreshFailed = Errorf ''a concurrent refresh of the session failed'' [Sentinel ErrRefreshRejected]"

definition advanced :: "time option \<Rightarrow> time option \<Rightarrow> bool" where
  "advanced now seen =
     (case now of
        None \<Rightarrow> False
      | Some n \<Rightarrow> (case seen of None \<Rightarrow> True | Some s \<Rightarrow> n > s))"

definition session_of :: "StoredToken \<Rightarrow> HowdahSession \<Rightarrow> pgPayload \<Rightarrow> StoredToken" where
  "session_of t row payload =
     \<lparr>Handle = Handle t, Subject = pp_Subject payload, st_Token = pp_Token payload,
      IDToken = pp_IDToken payload, IssuedAt = row_created_at row, ExpiresAt = row_expires_at row,
      Stale = Stale t\<rparr>"

abbreviation returns :: "refresh_call \<Rightarrow> StoredToken option result \<Rightarrow> refresh_call" where
  "returns c r \<equiv> c\<lparr>rc_pc := Returned r\<rparr>"

section \<open>The steps\<close>

text \<open>Up to the loop.\<close>

definition refresh_start :: "Store \<Rightarrow> Context \<Rightarrow> StoredToken option \<Rightarrow> 'a world_scheme \<Rightarrow> refresh_call result" where
  "refresh_start s ctx t w =
     (case t of
        None \<Rightarrow> Inl (New ''a session is required'')
      | Some t \<Rightarrow>
          (case rowID s (clock w) (Handle t) of
             Inl e \<Rightarrow> Inl e
           | Inr (i, _) \<Rightarrow>
               Inr \<lparr>rc_id = i, rc_t = t, rc_ctx = ctx, rc_pc = Top, pass = 0,
                    seenRefreshedAt = zeroTime, seenFailedAt = None, backoff = refreshPollMin,
                    deadline = clock w + refreshWait (pg_conf s), lostWriteReads = 0\<rparr>))"

text \<open>The top of the loop: the deadline, the read of the row and what it says.\<close>

definition refresh_top ::
  "Store \<Rightarrow> refresh_call \<Rightarrow> 'a pg_world_scheme \<Rightarrow> refresh_call \<times> 'a pg_world_scheme" where
  "refresh_top s c w =
     (if pass c > 0 \<and> lostWriteReads c = 0 \<and> \<not> clock w < deadline c then
        (returns c (Inl (Sentinel ErrRefreshTimeout)), w)
      else let c = (if lostWriteReads c > 0 then c\<lparr>lostWriteReads := lostWriteReads c - 1\<rparr> else c) in
        (case pg_query (rc_ctx c) (GetSession (rc_id c)) w of
           (Inl e, w1) \<Rightarrow>
             (returns c (if errors_Is e ErrNoRows
                then Inl (Errorf ''unknown session handle'' [Sentinel ErrNoSession])
                else Inl (Errorf ''read the session row'' [e])), w1)
         | (Inr (row, dbNow), w1) \<Rightarrow>
             if \<not> row_expires_at row > dbNow then
               (returns c (Inl (Errorf ''the session expired'' [Sentinel ErrNoSession])), w1)
             else
               (case openPayload s (clock w1) (rc_id c) (row_payload row) of
                  Inl e \<Rightarrow> (returns c (Inl e), w1)
                | Inr payload \<Rightarrow>
                    if pass c = 0 then
                      let c = c\<lparr>seenRefreshedAt := row_refreshed_at row,
                                seenFailedAt := row_refresh_failed_at row\<rparr> in
                      (case pp_Token payload of
                         None \<Rightarrow> (returns c (Inl (New ''nil pointer dereference'')), w1)
                       | Some tok \<Rightarrow>
                           if time_Sub (Expiry tok) (clock w1) > refreshMargin (pg_conf s)
                           then (returns c (Inr (Some (session_of (rc_t c) row payload))), w1)
                           else (c\<lparr>rc_pc := Lease\<rparr>, w1))
                    else if row_refreshed_at row > seenRefreshedAt c then
                      (returns c (Inr (Some (session_of (rc_t c) row payload))), w1)
                    else if advanced (row_refresh_failed_at row) (seenFailedAt c) then
                      (returns c (Inl ErrRefreshFailed), w1)
                    else (c\<lparr>rc_pc := Lease\<rparr>, w1))))"

text \<open>The nonce and the lease; a call that does not get the lease goes to wait.\<close>

definition refresh_lease ::
  "Store \<Rightarrow> refresh_call \<Rightarrow> 'a pg_world_scheme \<Rightarrow> refresh_call \<times> 'a pg_world_scheme" where
  "refresh_lease s c w =
     (case rand_Read leaseNonceLength w of
        (Inl e, w1) \<Rightarrow> (returns c (Inl (Errorf ''generate a lease nonce'' [e])), w1)
      | (Inr nonce, w1) \<Rightarrow>
          (case pg_query (rc_ctx c) (TakeRefreshLease (interval (refreshLease (pg_conf s))) nonce (rc_id c)
                  (seenRefreshedAt c) (seenFailedAt c)) w1 of
             (Inl e, w2) \<Rightarrow>
               (if errors_Is e ErrNoRows then c\<lparr>rc_pc := Waiting (clock w2 + backoff c)\<rparr>
                else returns c (Inl (Errorf ''take the refresh lease'' [e])), w2)
           | (Inr lease, w2) \<Rightarrow> (c\<lparr>rc_pc := Exchanging nonce lease\<rparr>, w2)))"

text \<open>The end of the wait: the context's end, where that comes first, or the next pass.\<close>

definition refresh_wake :: "refresh_call \<Rightarrow> 'a pg_world_scheme \<Rightarrow> refresh_call \<times> 'a pg_world_scheme" where
  "refresh_wake c w =
     (if ctx_Err (rc_ctx c) (clock w)
      then (returns c (Inl (Errorf ''wait for a concurrent refresh'' [Sentinel ErrContextDone])), w)
      else (c\<lparr>rc_pc := Top, backoff := min (2 * backoff c) refreshPollMax, pass := pass c + 1\<rparr>, w))"

text \<open>A lost lease goes back to the top of the loop.\<close>

definition lease_lost :: "refresh_call \<Rightarrow> refresh_call" where
  "lease_lost c = c\<lparr>rc_pc := Top, lostWriteReads := min (lostWriteReads c + 1) maxLostWriteReads,
     pass := pass c + 1\<rparr>"

text \<open>\<open>runExchange\<close>, up to the answer of the exchange.\<close>

definition refresh_exchange ::
  "Store \<Rightarrow> 'a pg_world_scheme exchange \<Rightarrow> refresh_call \<Rightarrow> bytes \<Rightarrow> HowdahSession \<Rightarrow>
   'a pg_world_scheme \<Rightarrow> refresh_call \<times> 'a pg_world_scheme" where
  "refresh_exchange s exchange c nonce lease w =
     (case openPayload s (clock w) (rc_id c) (row_payload lease) of
        Inl e \<Rightarrow> (returns c (Inl e), w)
      | Inr payload \<Rightarrow>
          (case exchange (WithTimeout (WithoutCancel (rc_ctx c)) (clock w) (tokenRequestTimeout (pg_conf s)))
                  (pp_Token payload) w of
             (Inl e, w1) \<Rightarrow> (c\<lparr>rc_pc := Failing nonce e\<rparr>, w1)
           | (Inr None, w1) \<Rightarrow> (c\<lparr>rc_pc := Failing nonce (New ''the exchange returned no token'')\<rparr>, w1)
           | (Inr (Some tok), w1) \<Rightarrow> (c\<lparr>rc_pc := Writing nonce lease payload tok\<rparr>, w1)))"

text \<open>\<open>runExchange\<close>, the fenced write-back.\<close>

definition refresh_write ::
  "Store \<Rightarrow> refresh_call \<Rightarrow> bytes \<Rightarrow> HowdahSession \<Rightarrow> pgPayload \<Rightarrow> Token \<Rightarrow>
   'a pg_world_scheme \<Rightarrow> refresh_call \<times> 'a pg_world_scheme" where
  "refresh_write s c nonce lease payload tok w =
     (let refreshed = payload\<lparr>pp_Token := Some tok\<rparr> in
      case sealPayload s (rc_id c) refreshed w of
        (Inl e, w1) \<Rightarrow> (returns c (Inl e), w1)
      | (Inr (sealed, kd), w1) \<Rightarrow>
          (case pg_query (WithTimeout (WithoutCancel (rc_ctx c)) (clock w1) (writeTimeout (pg_conf s)))
                  (CommitRefresh sealed kd (Expiry tok) (rc_id c) nonce) w1 of
             (Inl e, w2) \<Rightarrow> (returns c (Inl (Errorf ''write the refreshed session'' [e])), w2)
           | (Inr rows, w2) \<Rightarrow>
               if rows = 0 then (lease_lost c, w2)
               else (returns c (Inr (Some \<lparr>Handle = Handle (rc_t c), Subject = pp_Subject refreshed,
                       st_Token = Some tok, IDToken = pp_IDToken refreshed,
                       IssuedAt = row_created_at lease, ExpiresAt = row_expires_at lease,
                       Stale = Stale (rc_t c)\<rparr>)), w2)))"

text \<open>\<open>refreshFailed\<close> and \<open>markRefreshFailed\<close>.\<close>

definition markRefreshFailed ::
  "Store \<Rightarrow> Context \<Rightarrow> bytes \<Rightarrow> bytes \<Rightarrow> 'a pg_world_scheme \<Rightarrow> nat result \<times> 'a pg_world_scheme" where
  "markRefreshFailed s ctx i nonce w =
     (case pg_query (WithTimeout (WithoutCancel ctx) (clock w) (writeTimeout (pg_conf s)))
             (FailRefresh i nonce) w of
        (Inl e, w1) \<Rightarrow> (Inl (Errorf ''mark the refresh as failed'' [e]), w1)
      | (Inr rows, w1) \<Rightarrow> (Inr rows, w1))"

definition refresh_failed ::
  "Store \<Rightarrow> refresh_call \<Rightarrow> bytes \<Rightarrow> go_error \<Rightarrow> 'a pg_world_scheme \<Rightarrow>
   refresh_call \<times> 'a pg_world_scheme" where
  "refresh_failed s c nonce cause w =
     (let err = Errorf ''exchange the refresh token'' [cause] in
      case markRefreshFailed s (rc_ctx c) (rc_id c) nonce w of
        (Inl markErr, w1) \<Rightarrow>
          (returns c (Inl (Errorf [] [err, Errorf ''record the failed refresh'' [markErr]])), w1)
      | (Inr rows, w1) \<Rightarrow>
          if rows = 0 then (lease_lost c, w1) else (returns c (Inl err), w1))"

definition refresh_step ::
  "Store \<Rightarrow> 'a pg_world_scheme exchange \<Rightarrow> refresh_call \<Rightarrow> 'a pg_world_scheme \<Rightarrow>
   refresh_call \<times> 'a pg_world_scheme" where
  "refresh_step s exchange c w =
     (case rc_pc c of
        Top \<Rightarrow> refresh_top s c w
      | Lease \<Rightarrow> refresh_lease s c w
      | Waiting _ \<Rightarrow> refresh_wake c w
      | Exchanging nonce lease \<Rightarrow> refresh_exchange s exchange c nonce lease w
      | Writing nonce lease payload tok \<Rightarrow> refresh_write s c nonce lease payload tok w
      | Failing nonce cause \<Rightarrow> refresh_failed s c nonce cause w
      | Returned _ \<Rightarrow> (c, w))"

section \<open>A call on its own\<close>

text \<open>Nobody else acts, so a wait lasts until its timer or the context's end, whichever is
  first, on both clocks.\<close>

definition wait :: "refresh_call \<Rightarrow> 'a pg_world_scheme \<Rightarrow> 'a pg_world_scheme" where
  "wait c w =
     (case rc_pc c of
        Waiting until \<Rightarrow>
          let wake = (case ctx_Done (rc_ctx c) of None \<Rightarrow> until | Some t \<Rightarrow> min t until);
              d = max 0 (wake - clock w)
          in w\<lparr>clock := clock w + d, db_now := db_now w + d\<rparr>
      | _ \<Rightarrow> w)"

fun refresh_run ::
  "Store \<Rightarrow> 'a pg_world_scheme exchange \<Rightarrow> nat \<Rightarrow> refresh_call \<Rightarrow> 'a pg_world_scheme \<Rightarrow>
   (StoredToken option result \<times> 'a pg_world_scheme) option" where
  "refresh_run s exchange 0 c w = None"
| "refresh_run s exchange (Suc n) c w =
     (case rc_pc c of
        Returned r \<Rightarrow> Some (r, w)
      | _ \<Rightarrow> (case refresh_step s exchange c (wait c w) of (c', w') \<Rightarrow> refresh_run s exchange n c' w'))"

definition pg_Refresh ::
  "nat \<Rightarrow> Store \<Rightarrow> Context \<Rightarrow> StoredToken option \<Rightarrow> 'a pg_world_scheme exchange \<Rightarrow>
   'a pg_world_scheme \<Rightarrow> (StoredToken option result \<times> 'a pg_world_scheme) option" where
  "pg_Refresh fuel s ctx t exchange w =
     (case refresh_start s ctx t w of
        Inl e \<Rightarrow> Some (Inl e, w)
      | Inr c \<Rightarrow> refresh_run s exchange fuel c w)"

text \<open>The store as the interface sees it.  The loop of a refresh has fuel; theorem
  \<open>pg_Refresh_terminates\<close> says how much is enough for it never to run out.\<close>

definition pg_token_store :: "nat \<Rightarrow> Store \<Rightarrow> 'a pg_world_scheme TokenStore" where
  "pg_token_store fuel s =
     \<lparr>ts_Create = pg_Create s, ts_Get = pg_Get s, ts_Update = pg_Update s,
      ts_Reseal = (\<lambda>ctx t. pg_Reseal s (Some t)), ts_Delete = pg_Delete s,
      ts_Refresh = (\<lambda>ctx t exchange w.
        case pg_Refresh fuel s ctx (Some t) exchange w of
          Some r \<Rightarrow> r
        | None \<Rightarrow> (Inl (New ''out of fuel''), w)),
      ts_DeleteExpired = pg_DeleteExpired s\<rparr>"

section \<open>What the steps do\<close>

lemma openPayload_Inr_token: "openPayload s now i raw = Inr p \<Longrightarrow> \<exists>tok. pp_Token p = Some tok"
  by (auto simp: openPayload_def split: sum.splits prod.splits if_splits)

lemma refresh_top_Lease:
  assumes "refresh_top s c w = (c', w')" and "rc_pc c' = Lease"
  shows "c' = c\<lparr>rc_pc := Lease, lostWriteReads := lostWriteReads c - 1,
      seenRefreshedAt := seenRefreshedAt c', seenFailedAt := seenFailedAt c'\<rparr>"
  using assms by (auto simp: refresh_top_def Let_def split: if_splits prod.splits sum.splits option.splits)

lemma refresh_top_pc:
  "refresh_top s c w = (c', w') \<Longrightarrow> rc_pc c' = Lease \<or> (\<exists>r. rc_pc c' = Returned r)"
  by (auto simp: refresh_top_def Let_def split: if_splits prod.splits sum.splits option.splits)

lemma pg_query_same: "pg_query ctx q w = (r, w') \<Longrightarrow> clock w' = clock w \<and> db_now w' = db_now w \<and> rng w' = rng w"
  by (metis pg_query_clock snd_conv)

lemma rand_Read_same: "rand_Read n v = (r, v') \<Longrightarrow> sessions v' = sessions v \<and> db_now v' = db_now v \<and>
    faults v' = faults v \<and> clock v' = clock v"
  using only_rng_fields(2) [OF rand_Read_only] by blast

lemma refresh_lease_pc:
  "refresh_lease s c w = (c', w') \<Longrightarrow> (\<exists>pc. c' = c\<lparr>rc_pc := pc\<rparr>) \<and>
     (rc_pc c' = Waiting (clock w + backoff c) \<or> (\<exists>n l. rc_pc c' = Exchanging n l) \<or> (\<exists>r. rc_pc c' = Returned r))"
  by (auto simp: refresh_lease_def split: if_splits prod.splits sum.splits
      dest!: pg_query_same rand_Read_same)

lemma refresh_exchange_pc:
  "refresh_exchange s ex c n l w = (c', w') \<Longrightarrow> (\<exists>pc. c' = c\<lparr>rc_pc := pc\<rparr>) \<and>
     ((\<exists>e. rc_pc c' = Failing n e) \<or> (\<exists>p t. rc_pc c' = Writing n l p t) \<or> (\<exists>r. rc_pc c' = Returned r))"
  by (auto simp: refresh_exchange_def split: prod.splits sum.splits option.splits)

lemma refresh_write_pc:
  "refresh_write s c n l p t w = (c', w') \<Longrightarrow> c' = lease_lost c \<or> (\<exists>r. c' = returns c r)"
  by (auto simp: refresh_write_def Let_def split: if_splits prod.splits sum.splits)

lemma refresh_failed_pc:
  "refresh_failed s c n e w = (c', w') \<Longrightarrow> c' = lease_lost c \<or> (\<exists>r. c' = returns c r)"
  by (auto simp: refresh_failed_def Let_def split: if_splits prod.splits sum.splits)

lemma refresh_step_const:
  "refresh_step s ex c w = (c', w') \<Longrightarrow> rc_id c' = rc_id c \<and> rc_t c' = rc_t c \<and> rc_ctx c' = rc_ctx c \<and> deadline c' = deadline c"
  using refresh_lease_pc [of s c w c' w']
  by (auto simp: refresh_step_def refresh_top_def refresh_wake_def lease_lost_def Let_def
      dest!: refresh_exchange_pc refresh_write_pc refresh_failed_pc
      split: refresh_pc.splits if_splits prod.splits sum.splits option.splits)

section \<open>Properties\<close>

text \<open>C19. What a refresh hands back is what the row holds at that moment, under the caller's own
  handle: whether it was read or exchanged, the token it returns is the one every other reader of
  the row gets.\<close>

theorem refresh_returns_row:
  assumes step: "refresh_step s exchange c w = (c', w')"
    and ret: "rc_pc c' = Returned (Inr (Some st))" "\<And>r. rc_pc c \<noteq> Returned r"
    and inv: "table_inv (sessions w)" "keyring_inv (sealer_keyring (pg_sealer s))"
    and codec: "\<And>n l p t. rc_pc c = Writing n l p t \<Longrightarrow>
      pp_Version p = pgPayloadV1 \<and> faithful (pg_json s) (p\<lparr>pp_Token := Some t\<rparr>)"
  shows "Handle st = Handle (rc_t c) \<and> Stale st = Stale (rc_t c) \<and>
    (\<exists>row p. lookup_row (sessions w') (rc_id c) = Some row \<and>
       (\<forall>now. clock w' = now \<longrightarrow> openPayload s now (rc_id c) (row_payload row) = Inr p) \<and>
       st_Token st = pp_Token p \<and> Subject st = pp_Subject p \<and> IDToken st = pp_IDToken p)"
proof (cases "rc_pc c")
  case Top
  then have t: "refresh_top s c w = (c', w')"
    using step by (simp add: refresh_step_def)
  obtain row w1 now p where q: "pg_query (rc_ctx c) (GetSession (rc_id c)) w = (Inr (row, now), w1)"
    and p: "openPayload s (clock w1) (rc_id c) (row_payload row) = Inr p"
    and st: "st = session_of (rc_t c) row p" and w1: "w1 = w'"
    using t ret(1) by (auto simp: refresh_top_def Let_def split: if_splits prod.splits sum.splits option.splits)
  have "lookup_row (sessions w) (rc_id c) = Some row" "sessions w' = sessions w"
    using pg_query_Inr [OF q] w1 by (auto simp: GetSession_def split: option.splits)
  then show ?thesis
    using p st w1 by (auto simp: session_of_def)
next
  case (Writing n l p tok)
  then have t: "refresh_write s c n l p tok w = (c', w')"
    using step by (simp add: refresh_step_def)
  let ?p = "p\<lparr>pp_Token := Some tok\<rparr>"
  obtain sealed kd w1 ctx rows where sl: "sealPayload s (rc_id c) ?p w = (Inr (sealed, kd), w1)"
    and q: "pg_query ctx (CommitRefresh sealed kd (Expiry tok) (rc_id c) n) w1 = (Inr rows, w')"
    and rows: "rows \<noteq> 0"
    and st: "st = \<lparr>Handle = Handle (rc_t c), Subject = pp_Subject ?p,
                       st_Token = Some tok, IDToken = pp_IDToken ?p,
                       IssuedAt = row_created_at l, ExpiresAt = row_expires_at l, Stale = Stale (rc_t c)\<rparr>"
    using t ret(1) by (auto simp: refresh_write_def Let_def lease_lost_def split: if_splits prod.splits sum.splits)
  have w1: "sessions w1 = sessions w" "clock w1 = clock w"
    using only_rng_fields(2) [OF sealPayload_only [OF sl]] by auto
  have rw: "fst (CommitRefresh sealed kd (Expiry tok) (rc_id c) n (db_now w1) (sessions w)) = Inr rows"
    and w': "sessions w' = snd (CommitRefresh sealed kd (Expiry tok) (rc_id c) n (db_now w1) (sessions w))"
      "clock w' = clock w"
    using pg_query_Inr [OF q] w1 by auto
  obtain r where r: "lookup_row (sessions w) (rc_id c) = Some r" "row_refresh_lease_nonce r = Some n"
    using rw rows by (auto simp: fst_CommitRefresh [OF inv(1)] split: option.splits if_splits)
  have "openPayload s (clock w') (rc_id c) sealed = Inr ?p"
    using openPayload_sealPayload [OF inv(2) sl, of "clock w'"] codec [OF Writing] w'(2) by simp
  then show ?thesis
    using r lookup_row_Some [OF r(1)]
    by (auto simp: w'(1) lookup_CommitRefresh holds_lease_def st)
qed (use step ret in \<open>auto simp: refresh_step_def refresh_wake_def lease_lost_def refresh_lease_def
      refresh_exchange_def refresh_failed_def Let_def split: if_splits prod.splits sum.splits option.splits\<close>)

definition sample_stored :: StoredToken where
  "sample_stored = \<lparr>Handle = ''h'', Subject = ''u'', st_Token = ns_Token sample_pg_session, IDToken = [],
     IssuedAt = 150, ExpiresAt = 1150, Stale = False\<rparr>"

definition sample_pg_payload :: pgPayload where
  "sample_pg_payload = \<lparr>pp_Version = 1, pp_Subject = ''u'', pp_Token = ns_Token sample_pg_session,
     pp_IDToken = ''i''\<rparr>"

lemma sample_pg_faithful: "faithful (pg_json sample_pg) sample_pg_payload"
  by (simp add: faithful_def sample_pg_def sample_pg_codec_def sample_pg_payload_def sample_pg_session_def)

lemma sample_sealed: "\<exists>raw. \<forall>now \<ge> 150. openPayload sample_pg now i raw = Inr sample_pg_payload"
proof -
  obtain raw kd w1 where p: "sealPayload sample_pg i sample_pg_payload \<lparr>clock = 150, rng = replicate 20 (9 :: byte)\<rparr> =
      (Inr (raw, kd), w1)"
    by (auto simp: sealPayload_def sample_pg_def sample_pg_codec_def SealPayload_Inr sample_sealer_def
        sealKindRaw_Inr sealingKey_sample)
  have "openPayload sample_pg now i raw = Inr sample_pg_payload" if "150 \<le> now" for now
    by (rule openPayload_sealPayload [OF sample_pg_inv p _ sample_pg_faithful])
      (use that in \<open>simp_all add: sample_pg_payload_def pgPayloadV1_def sample_pg_session_def\<close>)
  then show ?thesis by blast
qed

definition sample_call :: "refresh_pc \<Rightarrow> nat \<Rightarrow> nat \<Rightarrow> refresh_call" where
  "sample_call pc n l = \<lparr>rc_id = [1], rc_t = sample_stored, rc_ctx = Background, rc_pc = pc, pass = n,
     seenRefreshedAt = 10, seenFailedAt = None, backoff = refreshPollMin, deadline = 0,
     lostWriteReads = l\<rparr>"

lemma refresh_returns_row_witness:
  "\<exists>st w. st_Token st = ns_Token sample_pg_session \<and> Handle st = ''h'' \<and>
     rc_pc (fst (refresh_step sample_pg (\<lambda>ctx tok w. (Inr tok, w)) (sample_call Top 1 1) (w :: pg_world))) =
       Returned (Inr (Some st))"
proof -
  obtain raw where "\<forall>now \<ge> 150. openPayload sample_pg now [1] raw = Inr sample_pg_payload"
    using sample_sealed by blast
  then have raw: "openPayload sample_pg now [1] raw = Inr sample_pg_payload" if "150 \<le> now" for now
    using that by blast
  let ?row = "(sample_row 1 1000)\<lparr>row_payload := raw, row_refreshed_at := 20\<rparr>"
  let ?w = "sample_pg_world 250 [] [?row]"
  let ?st = "session_of sample_stored ?row sample_pg_payload"
  have step: "refresh_step sample_pg (\<lambda>ctx tok w. (Inr tok, w)) (sample_call Top 1 1) ?w =
      (returns (sample_call Top 1 0) (Inr (Some ?st)), ?w)"
    by (simp add: refresh_step_def refresh_top_def sample_call_def pg_query_answered sample_pg_world_def
        GetSession_def lookup_row_Cons raw Let_def sample_row_def)
  have "Handle ?st = Handle (rc_t (sample_call Top 1 1)) \<and> Stale ?st = Stale (rc_t (sample_call Top 1 1)) \<and>
    (\<exists>row p. lookup_row (sessions ?w) (rc_id (sample_call Top 1 1)) = Some row \<and>
       (\<forall>now. clock ?w = now \<longrightarrow> openPayload sample_pg now (rc_id (sample_call Top 1 1)) (row_payload row) = Inr p) \<and>
       st_Token ?st = pp_Token p \<and> Subject ?st = pp_Subject p \<and> IDToken ?st = pp_IDToken p)"
    by (rule refresh_returns_row [OF step])
      (simp_all add: sample_call_def table_inv_def sample_pg_world_def sample_pg_inv)
  then have "Handle ?st = ''h''" "st_Token ?st = ns_Token sample_pg_session"
    using raw [of 250]
    by (auto simp: sample_call_def sample_stored_def sample_pg_world_def lookup_row_Cons sample_pg_payload_def
        sample_row_def)
  moreover have "rc_pc (fst (refresh_step sample_pg (\<lambda>ctx tok w. (Inr tok, w)) (sample_call Top 1 1) ?w)) =
       Returned (Inr (Some ?st))"
    by (simp only: step fst_conv) simp
  ultimately show ?thesis by blast
qed

text \<open>The counter of lost writes never gets past one, so its cap never binds.\<close>

definition lost_inv :: "refresh_call \<Rightarrow> bool" where
  "lost_inv c \<longleftrightarrow> (case rc_pc c of
      Top \<Rightarrow> lostWriteReads c \<le> 1 | Returned _ \<Rightarrow> lostWriteReads c \<le> 1 | _ \<Rightarrow> lostWriteReads c = 0)"

lemma lost_inv_step:
  assumes "lost_inv c" and "refresh_step s exchange c w = (c', w')"
  shows "lost_inv c'"
proof (cases "rc_pc c")
  case Top
  then show ?thesis
    using assms by (auto simp: refresh_step_def refresh_top_def lost_inv_def Let_def
        split: if_splits prod.splits sum.splits option.splits)
next
  case Lease
  then show ?thesis
    using assms refresh_lease_pc [of s c w c' w']
    by (auto simp: refresh_step_def lost_inv_def split: refresh_pc.splits)
next
  case (Exchanging n l)
  then show ?thesis
    using assms refresh_exchange_pc [of s exchange c n l w c' w']
    by (auto simp: refresh_step_def lost_inv_def split: refresh_pc.splits)
next
  case (Writing n l p t)
  then show ?thesis
    using assms refresh_write_pc [of s c n l p t w c' w']
    by (auto simp: refresh_step_def lost_inv_def lease_lost_def split: refresh_pc.splits)
next
  case (Failing n e)
  then show ?thesis
    using assms refresh_failed_pc [of s c n e w c' w']
    by (auto simp: refresh_step_def lost_inv_def lease_lost_def split: refresh_pc.splits)
qed (use assms in \<open>auto simp: refresh_step_def refresh_wake_def lost_inv_def split: if_splits\<close>)

section \<open>Termination on its own\<close>

text \<open>An exchange that leaves the database alone: it only takes time.\<close>

definition quiet :: "'a pg_world_scheme exchange \<Rightarrow> bool" where
  "quiet exchange \<longleftrightarrow> (\<forall>ctx tok w r w'. exchange ctx tok w = (r, w') \<longrightarrow>
     sessions w' = sessions w \<and> clock w \<le> clock w')"

definition has_lease :: "refresh_call \<Rightarrow> bytes \<Rightarrow> 'a pg_world_scheme \<Rightarrow> bool" where
  "has_lease c n w \<longleftrightarrow> (\<exists>r. lookup_row (sessions w) (rc_id c) = Some r \<and> row_refresh_lease_nonce r = Some n)"

definition alone_inv :: "refresh_call \<Rightarrow> 'a pg_world_scheme \<Rightarrow> bool" where
  "alone_inv c w \<longleftrightarrow> 0 < backoff c \<and> table_inv (sessions w) \<and>
     (case rc_pc c of
        Top \<Rightarrow> lostWriteReads c = 0
      | Lease \<Rightarrow> lostWriteReads c = 0
      | Waiting u \<Rightarrow> lostWriteReads c = 0 \<and> clock w < u
      | Exchanging n l \<Rightarrow> has_lease c n w
      | Writing n l p t \<Rightarrow> has_lease c n w
      | Failing n e \<Rightarrow> has_lease c n w
      | Returned r \<Rightarrow> True)"

definition steps_left :: "refresh_call \<Rightarrow> 'a world_scheme \<Rightarrow> nat" where
  "steps_left c w =
     (let d = nat (deadline c - clock w) in
      case rc_pc c of
        Top \<Rightarrow> if pass c > 0 \<and> \<not> clock w < deadline c then 1 else 4 * d + 5
      | Lease \<Rightarrow> 4 * d + 4
      | Waiting u \<Rightarrow> 4 * d + 3
      | Exchanging n l \<Rightarrow> 3
      | Writing n l p t \<Rightarrow> 2
      | Failing n e \<Rightarrow> 2
      | Returned r \<Rightarrow> 0)"

lemma pg_query_table_inv:
  "pg_query ctx q w = (r, w') \<Longrightarrow> table_inv (sessions w) \<Longrightarrow>
     table_inv (snd (q (db_now w) (sessions w))) \<Longrightarrow> table_inv (sessions w')"
  using pg_query_sessions [of ctx q w] by auto

lemma alone_top:
  assumes "alone_inv c w" and "rc_pc c = Top" and "refresh_top s c w = (c', w')"
  shows "alone_inv c' w' \<and> steps_left c' w' < steps_left c w"
proof -
  have w': "clock w' = clock w" "table_inv (sessions w')"
    using assms by (auto simp: refresh_top_def Let_def alone_inv_def table_inv_statements(9)
        split: if_splits prod.splits sum.splits option.splits
        dest: pg_query_same pg_query_table_inv)
  show ?thesis
    using refresh_top_pc [OF assms(3)] refresh_top_Lease [OF assms(3)] assms(1,2) w'
  proof (elim disjE exE)
    assume l: "rc_pc c' = Lease"
    then have c': "c' = c\<lparr>rc_pc := Lease, lostWriteReads := lostWriteReads c - 1,
      seenRefreshedAt := seenRefreshedAt c', seenFailedAt := seenFailedAt c'\<rparr>"
      using refresh_top_Lease [OF assms(3)] by blast
    have "\<not> (pass c > 0 \<and> \<not> clock w < deadline c)"
      using assms l by (auto simp: refresh_top_def alone_inv_def split: if_splits)
    then show ?thesis
      using assms(1,2) w' by (subst (1 2) c') (auto simp: alone_inv_def steps_left_def Let_def)
  next
    fix r assume "rc_pc c' = Returned r"
    moreover have "backoff c' = backoff c"
      using assms(3) by (auto simp: refresh_top_def Let_def split: if_splits prod.splits sum.splits option.splits)
    ultimately show ?thesis
      using assms(1,2) w' by (auto simp: alone_inv_def steps_left_def Let_def)
  qed
qed

lemma alone_lease:
  assumes "alone_inv c w" and "rc_pc c = Lease" and "refresh_lease s c w = (c', w')"
  shows "alone_inv c' w' \<and> steps_left c' w' < steps_left c w"
proof -
  have t: "table_inv (sessions w)" "0 < backoff c" "lostWriteReads c = 0"
    using assms(1,2) by (auto simp: alone_inv_def)
  have w': "clock w' = clock w" "table_inv (sessions w')"
    using assms(3) t(1) by (auto simp: refresh_lease_def
        split: if_splits prod.splits sum.splits dest!: rand_Read_same
        dest: pg_query_same pg_query_table_inv simp: table_inv_statements)
  have ex: "has_lease c' n w'" if ex: "rc_pc c' = Exchanging n l" for n l
  proof -
    obtain w1 where r: "rand_Read leaseNonceLength w = (Inr n, w1)"
      and q: "pg_query (rc_ctx c) (TakeRefreshLease (interval (refreshLease (pg_conf s))) n (rc_id c)
                  (seenRefreshedAt c) (seenFailedAt c)) w1 = (Inr l, w')"
      and id: "rc_id c' = rc_id c"
      using assms(3) ex by (auto simp: refresh_lease_def split: if_splits prod.splits sum.splits)
    have s1: "sessions w1 = sessions w"
      using rand_Read_same [OF r] by simp
    obtain row where "lookup_row (sessions w) (rc_id c) = Some row"
        "lease_guard (rc_id c) (seenRefreshedAt c) (seenFailedAt c) (db_now w1) row"
      using pg_query_Inr [OF q] by (auto simp: s1 fst_TakeRefreshLease [OF t(1)] split: option.splits if_splits)
    then show ?thesis
      using pg_query_Inr [OF q] by (auto simp: has_lease_def id s1 lookup_TakeRefreshLease)
  qed
  show ?thesis
    using refresh_lease_pc [OF assms(3)] t w' ex assms(2)
    by (auto simp: alone_inv_def steps_left_def Let_def)
qed

lemma alone_exchange:
  assumes "alone_inv c w" and "rc_pc c = Exchanging n l" and "quiet exchange"
    and "refresh_exchange s exchange c n l w = (c', w')"
  shows "alone_inv c' w' \<and> steps_left c' w' < steps_left c w"
proof -
  have t: "table_inv (sessions w)" "0 < backoff c" "has_lease c n w"
    using assms(1,2) by (auto simp: alone_inv_def)
  have "sessions w' = sessions w"
    using assms(3,4) by (auto simp: refresh_exchange_def quiet_def split: prod.splits sum.splits option.splits)
  then show ?thesis
    using refresh_exchange_pc [OF assms(4)] t assms(2)
    by (auto simp: alone_inv_def steps_left_def has_lease_def)
qed

lemma alone_write:
  assumes "alone_inv c w" and "rc_pc c = Writing n l p t"
    and "refresh_write s c n l p t w = (c', w')"
  shows "(\<exists>r. c' = returns c r) \<and> table_inv (sessions w')"
proof -
  have t: "table_inv (sessions w)" "has_lease c n w"
    using assms(1,2) by (auto simp: alone_inv_def)
  show ?thesis
    using assms(3) t
    by (auto simp: refresh_write_def Let_def has_lease_def fst_CommitRefresh table_inv_statements
        split: if_splits prod.splits sum.splits dest!: sealPayload_only only_rng_fields(2)
        dest: pg_query_Inr pg_query_table_inv)
qed

lemma alone_failed:
  assumes "alone_inv c w" and "rc_pc c = Failing n e"
    and "refresh_failed s c n e w = (c', w')"
  shows "(\<exists>r. c' = returns c r) \<and> table_inv (sessions w')"
proof -
  have t: "table_inv (sessions w)" "has_lease c n w"
    using assms(1,2) by (auto simp: alone_inv_def)
  show ?thesis
    using assms(3) t
    by (auto simp: refresh_failed_def markRefreshFailed_def Let_def has_lease_def fst_FailRefresh table_inv_statements
        split: if_splits prod.splits sum.splits dest: pg_query_Inr pg_query_table_inv)
qed

lemma alone_step:
  assumes inv: "alone_inv c w" and pc: "\<And>r. rc_pc c \<noteq> Returned r" and q: "quiet exchange"
    and step: "refresh_step s exchange c (wait c w) = (c', w')"
  shows "alone_inv c' w' \<and> steps_left c' w' < steps_left c w"
proof (cases "rc_pc c")
  case (Waiting u)
  let ?w = "wait c w"
  have t: "sessions ?w = sessions w" "clock w < u" "0 < backoff c" "table_inv (sessions w)" "lostWriteReads c = 0"
    using inv Waiting by (auto simp: alone_inv_def wait_def Let_def)
  have s: "refresh_wake c ?w = (c', w')"
    using step Waiting by (simp add: refresh_step_def)
  show ?thesis
  proof (cases "ctx_Err (rc_ctx c) (clock ?w)")
    case True
    then show ?thesis
      using s t Waiting by (auto simp: refresh_wake_def alone_inv_def steps_left_def Let_def)
  next
    case False
    have "clock w < clock ?w"
      using False t(2) Waiting by (auto simp: wait_def Let_def ctx_Err_def split: option.splits)
    moreover have "c' = c\<lparr>rc_pc := Top, backoff := min (2 * backoff c) refreshPollMax, pass := pass c + 1\<rparr>" "w' = ?w"
      using s False by (auto simp: refresh_wake_def)
    ultimately show ?thesis
      using t Waiting by (auto simp: alone_inv_def steps_left_def Let_def refreshPollMax_def)
  qed
next
  case Top
  then show ?thesis
    using alone_top [OF inv Top] step by (auto simp: refresh_step_def wait_def)
next
  case Lease
  then show ?thesis
    using alone_lease [OF inv Lease] step by (auto simp: refresh_step_def wait_def)
next
  case (Exchanging n l)
  then show ?thesis
    using alone_exchange [OF inv Exchanging q] step by (auto simp: refresh_step_def wait_def)
next
  case (Writing n l p t)
  then show ?thesis
    using alone_write [OF inv Writing] step inv
    by (fastforce simp: refresh_step_def wait_def alone_inv_def steps_left_def)
next
  case (Failing n e)
  then show ?thesis
    using alone_failed [OF inv Failing] step inv
    by (fastforce simp: refresh_step_def wait_def alone_inv_def steps_left_def)
qed (use pc in simp)

lemma alone_run:
  "alone_inv c w \<Longrightarrow> quiet exchange \<Longrightarrow> steps_left c w < n \<Longrightarrow> \<exists>r. refresh_run s exchange n c w = Some r"
proof (induction n arbitrary: c w)
  case (Suc n)
  show ?case
  proof (cases "\<exists>r. rc_pc c = Returned r")
    case False
    obtain c' w' where step: "refresh_step s exchange c (wait c w) = (c', w')"
      by fastforce
    have "alone_inv c' w' \<and> steps_left c' w' < steps_left c w"
      by (rule alone_step [OF Suc.prems(1) _ Suc.prems(2) step]) (use False in blast)
    then have "\<exists>r. refresh_run s exchange n c' w' = Some r"
      using Suc by auto
    then show ?thesis
      using False step by (auto split: refresh_pc.split)
  qed auto
qed simp

text \<open>C9. A call nobody interferes with returns, within its own waiting budget: with an exchange
  that leaves the database alone, four steps for each nanosecond of the budget and six more are
  always enough, whatever the statements' faults, the provider's answer, and the state of the row
  it starts from.\<close>

theorem pg_Refresh_terminates:
  assumes "table_inv (sessions w)" and "quiet exchange"
    and "4 * nat (refreshWait (pg_conf s)) + 6 \<le> fuel"
  shows "\<exists>r. pg_Refresh fuel s ctx t exchange w = Some r"
proof (cases "refresh_start s ctx t w")
  case (Inr c)
  then have c: "rc_pc c = Top" "pass c = 0" "lostWriteReads c = 0" "backoff c = refreshPollMin"
      "deadline c = clock w + refreshWait (pg_conf s)"
    by (auto simp: refresh_start_def split: option.splits sum.splits prod.splits)
  have "\<exists>r. refresh_run s exchange fuel c w = Some r"
    by (rule alone_run [OF _ assms(2)])
      (use assms(1,3) c in \<open>auto simp: alone_inv_def steps_left_def refreshPollMin_def Let_def\<close>)
  then show ?thesis
    using Inr by (simp add: pg_Refresh_def)
qed (simp add: pg_Refresh_def)

lemma pg_Refresh_terminates_witness:
  "\<exists>r. pg_Refresh (4 * nat (refreshWait (pg_conf sample_pg)) + 6) sample_pg Background (Some sample_stored)
     (\<lambda>ctx tok w. (Inl (Sentinel ErrRefreshRejected), w)) (sample_pg_world 150 [] []) = Some r"
  using pg_Refresh_terminates [of "sample_pg_world 150 [] []" "\<lambda>ctx tok w. (Inl (Sentinel ErrRefreshRejected), w)" sample_pg]
  by (simp add: sample_pg_world_def table_inv_def quiet_def)

section \<open>Lost leases\<close>

text \<open>An exchange during which another replica takes the lease over and lets it expire: what a
  provider that answers after the lease brings about.\<close>

definition overtaken :: "'a pg_world_scheme exchange" where
  "overtaken ctx tok w =
     (Inr tok, w\<lparr>clock := clock w + Second, db_now := db_now w + Second,
        sessions := map (\<lambda>r. r\<lparr>row_refresh_lease_until := Some (db_now w),
                               row_refresh_lease_nonce := Some []\<rparr>) (sessions w)\<rparr>)"

definition lost_row :: "bytes \<Rightarrow> time \<Rightarrow> time option \<Rightarrow> HowdahSession" where
  "lost_row raw e u = (sample_row 1 e)\<lparr>row_payload := raw, row_refresh_lease_until := u,
     row_refresh_lease_nonce := (if u = None then None else Some [])\<rparr>"

definition lost_world :: "bytes \<Rightarrow> time \<Rightarrow> time \<Rightarrow> nat \<Rightarrow> time option \<Rightarrow> pg_world" where
  "lost_world raw e t n u = \<lparr>clock = t, rng = replicate n 9, sessions = [lost_row raw e u], db_now = t,
     faults = [], locked_rows = []\<rparr>"

text \<open>One turn of the loop: past its deadline, the call reads, takes the lease, exchanges and loses
  the write-back, and is where it was, ready to read past its deadline again.\<close>

lemma lost_turn:
  assumes raw: "\<And>now. 150 \<le> now \<Longrightarrow> openPayload sample_pg now [1] raw = Inr sample_pg_payload"
    and t: "150 \<le> t" "t + Second < e" and u: "\<And>x. u = Some x \<Longrightarrow> x < t" and p: "0 < p"
  shows "refresh_run sample_pg overtaken (k + 4) (sample_call Top p 1) (lost_world raw e t (n + 28) u) =
    refresh_run sample_pg overtaken k (sample_call Top (p + 1) 1) (lost_world raw e (t + Second) n (Some t))"
proof -
  let ?c = "\<lambda>pc. sample_call pc p 0"
  let ?w = "lost_world raw e t (n + 28) u"
  let ?w1 = "?w\<lparr>rng := replicate (n + 12) 9,
    sessions := [(lost_row raw e u)\<lparr>row_refresh_lease_until := Some (t + interval (refreshLease (pg_conf sample_pg))),
      row_refresh_lease_nonce := Some (replicate 16 9)\<rparr>]\<rparr>"
  let ?l = "(lost_row raw e u)\<lparr>row_refresh_lease_until := Some (t + interval (refreshLease (pg_conf sample_pg))),
      row_refresh_lease_nonce := Some (replicate 16 9)\<rparr>"
  let ?tok = "the (ns_Token sample_pg_session)"
  have 1: "refresh_step sample_pg overtaken (sample_call Top p 1) ?w = (?c Lease, ?w)"
    using t p by (simp add: refresh_step_def refresh_top_def sample_call_def pg_query_answered lost_world_def
        GetSession_def lookup_row_Cons raw Let_def lost_row_def sample_row_def advanced_def)
  have g: "lease_guard [1] 10 None t (lost_row raw e u)"
    using u t by (auto simp: lease_guard_def lease_free_def lost_row_def sample_row_def split: option.split)
  have 2: "refresh_step sample_pg overtaken (?c Lease) ?w = (?c (Exchanging (replicate 16 9) ?l), ?w1)"
    using g by (simp add: refresh_step_def refresh_lease_def sample_call_def rand_Read_def leaseNonceLength_def
        lost_world_def pg_query_answered TakeRefreshLease_def Let_def sql_update_def)
  have tk: "pp_Token sample_pg_payload = Some ?tok"
    by (simp add: sample_pg_payload_def sample_pg_session_def)
  let ?w2 = "lost_world raw e (t + Second) (n + 12) (Some t)"
  have 3: "refresh_step sample_pg overtaken (?c (Exchanging (replicate 16 9) ?l)) ?w1 =
      (?c (Writing (replicate 16 9) ?l sample_pg_payload ?tok), ?w2)"
    using raw t by (simp add: refresh_step_def refresh_exchange_def sample_call_def lost_world_def lost_row_def
        sample_row_def overtaken_def tk)
  obtain sealed kd where s: "sealPayload sample_pg [1] (sample_pg_payload\<lparr>pp_Token := Some ?tok\<rparr>) ?w2 =
      (Inr (sealed, kd), lost_world raw e (t + Second) n (Some t))"
  proof -
    obtain key where k: "sealingKey (Some sample_keyring) (t + Second) = Some key"
      using sealingKey_monotone_fact [OF keyring_inv_sample sealingKey_sample(1), of "t + Second"] t by auto
    show thesis
      by (rule that) (auto simp: sealPayload_def sample_pg_def sample_pg_codec_def SealPayload_Inr
          sample_sealer_def sealKindRaw_Inr lost_world_def k)
  qed
  have ctx: "\<not> ctx_Err (WithTimeout (WithoutCancel Background) x d) x" if "0 < d" for x d
    using that by (simp add: ctx_Err_def ctx_Done_def WithTimeout_def WithDeadline_def WithoutCancel_def Background_def)
  have wt: "0 < writeTimeout (pg_conf sample_pg)"
    by (simp add: sample_pg_def apply_options_def default_conf_def Let_def)
  have 4: "refresh_step sample_pg overtaken (?c (Writing (replicate 16 9) ?l sample_pg_payload ?tok)) ?w2 =
      (sample_call Top (p + 1) 1, lost_world raw e (t + Second) n (Some t))"
    using ctx [OF wt] s by (simp add: refresh_step_def refresh_write_def sample_call_def Let_def)
      (simp add: lost_world_def pg_query_answered CommitRefresh_def sql_update_def
        holds_lease_def lost_row_def lease_lost_def maxLostWriteReads_def)
  have pc: "rc_pc (sample_call pc m l) = pc" for pc m l
    by (simp add: sample_call_def)
  have w: "wait (sample_call pc m l) v = v" if "\<forall>x. pc \<noteq> Waiting x" for pc m l and v :: pg_world
    using that by (auto simp: wait_def pc split: refresh_pc.split)
  have k: "k + 4 = Suc (Suc (Suc (Suc k)))" by simp
  show ?thesis
    unfolding k by (simp add: pc w 1 2 3 4 del: One_nat_def)
qed


end
