(* ===== verification/PgFleet.thy ===== *)
theory PgFleet
  imports PgRefresh
begin

text \<open>
  Many calls of \<open>Store.Refresh\<close>, on any number of replicas, over one database: a transition
  system whose steps are the steps of theory \<open>PgRefresh\<close> in any order, sessions created and
  deleted at any time, processes that stop in the middle of a call and leave its lease behind,
  faults of the database, and time.  Time does not pass the bounds the code
  sets: an exchange is over within the token request timeout of the lease, and a write-back or
  failure marker within the write timeout of the exchange's answer.  An application's own
  \<open>Update\<close> is not among the steps: it takes the lease away by design.
\<close>

section \<open>The system\<close>

record fleet =
  fl_world :: pg_world
  fl_calls :: "nat \<Rightarrow> refresh_call option"
  fl_since :: "nat \<Rightarrow> time"
  fl_used :: "bytes set"

definition nonce_of :: "refresh_call \<Rightarrow> bytes option" where
  "nonce_of c =
     (case rc_pc c of
        Exchanging n l \<Rightarrow> Some n
      | Writing n l p t \<Rightarrow> Some n
      | Failing n e \<Rightarrow> Some n
      | _ \<Rightarrow> None)"

text \<open>How long the call may stay in the phase it is in.\<close>

definition phase_limit :: "Store \<Rightarrow> refresh_call \<Rightarrow> duration option" where
  "phase_limit s c =
     (case rc_pc c of
        Exchanging n l \<Rightarrow> Some (tokenRequestTimeout (pg_conf s))
      | Writing n l p t \<Rightarrow> Some (writeTimeout (pg_conf s))
      | Failing n e \<Rightarrow> Some (writeTimeout (pg_conf s))
      | _ \<Rightarrow> None)"

definition awake :: "refresh_call \<Rightarrow> pg_world \<Rightarrow> bool" where
  "awake c w = (case rc_pc c of Waiting u \<Rightarrow> u \<le> clock w \<or> ctx_Err (rc_ctx c) (clock w) | _ \<Rightarrow> True)"

text \<open>The nonce a call at its lease statement is about to draw.\<close>

definition next_nonce :: "pg_world \<Rightarrow> bytes" where
  "next_nonce w = take leaseNonceLength (rng w)"

inductive fleet_step :: "Store \<Rightarrow> fleet \<Rightarrow> fleet \<Rightarrow> bool" for s where
  Begin: "fl_calls f i = None \<Longrightarrow> refresh_start s ctx t (fl_world f) = Inr c \<Longrightarrow>
    fleet_step s f (f\<lparr>fl_calls := (fl_calls f)(i \<mapsto> c)\<rparr>)"
| Step: "fl_calls f i = Some c \<Longrightarrow> awake c (fl_world f) \<Longrightarrow>
    (rc_pc c = Lease \<Longrightarrow> next_nonce (fl_world f) \<notin> fl_used f) \<Longrightarrow>
    refresh_step s (\<lambda>ctx tok w. (answer, w)) c (fl_world f) = (c', w') \<Longrightarrow>
    fleet_step s f \<lparr>fl_world = w', fl_calls = (fl_calls f)(i \<mapsto> c'),
      fl_since = (fl_since f)(i := db_now w'),
      fl_used = (if rc_pc c = Lease then insert (next_nonce (fl_world f)) (fl_used f) else fl_used f)\<rparr>"
| Delete: "fleet_step s f (f\<lparr>fl_world := (fl_world f)\<lparr>sessions := snd (sql_delete p (sessions (fl_world f)))\<rparr>\<rparr>)"
| Create: "(\<And>i c. fl_calls f i = Some c \<Longrightarrow> rc_id c \<noteq> cs_ID arg) \<Longrightarrow>
    fleet_step s f (f\<lparr>fl_world := (fl_world f)\<lparr>sessions :=
      snd (CreateSession arg (db_now (fl_world f)) (sessions (fl_world f)))\<rparr>\<rparr>)"
| Tick: "0 \<le> d \<Longrightarrow>
    (\<And>i c l. fl_calls f i = Some c \<Longrightarrow> phase_limit s c = Some l \<Longrightarrow> db_now (fl_world f) + d \<le> fl_since f i + l) \<Longrightarrow>
    fleet_step s f (f\<lparr>fl_world := (fl_world f)\<lparr>clock := clock (fl_world f) + d,
      db_now := db_now (fl_world f) + d\<rparr>\<rparr>)"
| Crash: "fleet_step s f (f\<lparr>fl_calls := (fl_calls f)(i := None)\<rparr>)"
| Fault: "fleet_step s f (f\<lparr>fl_world := (fl_world f)\<lparr>faults := fs\<rparr>\<rparr>)"
| Random: "fleet_step s f (f\<lparr>fl_world := (fl_world f)\<lparr>rng := r\<rparr>\<rparr>)"

inductive_cases fleet_stepE: "fleet_step s f f'"

inductive fleet_reachable :: "Store \<Rightarrow> fleet \<Rightarrow> bool" for s where
  Init: "table_inv (sessions w) \<Longrightarrow>
    fleet_reachable s \<lparr>fl_world = w, fl_calls = \<lambda>i. None, fl_since = \<lambda>i. 0, fl_used = used\<rparr>"
| Next: "fleet_reachable s f \<Longrightarrow> fleet_step s f f' \<Longrightarrow> fleet_reachable s f'"

section \<open>The invariant\<close>

text \<open>What a call that has taken a lease can rely on, since the instant \<open>t\<close> its phase began: as
  long as its row is there, the lease in it is its own and outlasts what the call still has
  to do.\<close>

definition leased :: "Store \<Rightarrow> pg_world \<Rightarrow> time \<Rightarrow> refresh_call \<Rightarrow> bool" where
  "leased s w t c =
     (let T = tokenRequestTimeout (pg_conf s); W = writeTimeout (pg_conf s);
          own = (\<lambda>n left. \<forall>r. lookup_row (sessions w) (rc_id c) = Some r \<longrightarrow>
            row_refresh_lease_nonce r = Some n \<and>
            (\<exists>u. row_refresh_lease_until r = Some u \<and> t + left \<le> u))
      in case rc_pc c of
           Exchanging n l \<Rightarrow> db_now w \<le> t + T \<and> own n (T + W) \<and>
             (\<forall>r. lookup_row (sessions w) (rc_id c) = Some r \<longrightarrow> row_payload r = row_payload l)
         | Writing n l p tok \<Rightarrow> db_now w \<le> t + W \<and> own n W
         | Failing n e \<Rightarrow> db_now w \<le> t + W \<and> own n W
         | _ \<Rightarrow> True)"

definition fleet_inv :: "Store \<Rightarrow> fleet \<Rightarrow> bool" where
  "fleet_inv s f \<longleftrightarrow> table_inv (sessions (fl_world f)) \<and>
     (\<forall>i c. fl_calls f i = Some c \<longrightarrow> leased s (fl_world f) (fl_since f i) c) \<and>
     (\<forall>i c n. fl_calls f i = Some c \<and> nonce_of c = Some n \<longrightarrow> n \<in> fl_used f) \<and>
     (\<forall>i j c d. fl_calls f i = Some c \<and> fl_calls f j = Some d \<and> nonce_of c \<noteq> None \<and> nonce_of d \<noteq> None \<and>
        rc_id c = rc_id d \<longrightarrow> i = j)"

definition covered :: "Store \<Rightarrow> bool" where
  "covered s \<longleftrightarrow> 0 < tokenRequestTimeout (pg_conf s) \<and> 0 < writeTimeout (pg_conf s) \<and>
     tokenRequestTimeout (pg_conf s) + writeTimeout (pg_conf s) \<le> interval (refreshLease (pg_conf s))"

lemma fleet_invD:
  assumes "fleet_inv s f"
  shows "table_inv (sessions (fl_world f))"
    "fl_calls f i = Some c \<Longrightarrow> leased s (fl_world f) (fl_since f i) c"
    "fl_calls f i = Some c \<Longrightarrow> nonce_of c = Some n \<Longrightarrow> n \<in> fl_used f"
    "fl_calls f i = Some c \<Longrightarrow> fl_calls f j = Some d \<Longrightarrow> nonce_of c \<noteq> None \<Longrightarrow> nonce_of d \<noteq> None \<Longrightarrow>
      rc_id c = rc_id d \<Longrightarrow> i = j"
  using assms unfolding fleet_inv_def by blast+

text \<open>Whoever leaves the lease and the payload of the call's row alone, or removes the row, keeps
  the call's lease.\<close>

lemma leased_keep:
  assumes "leased s w t c" and "db_now w' = db_now w"
    and "\<And>r'. lookup_row (sessions w') (rc_id c) = Some r' \<Longrightarrow>
      \<exists>r. lookup_row (sessions w) (rc_id c) = Some r \<and> row_refresh_lease_nonce r' = row_refresh_lease_nonce r \<and>
        row_refresh_lease_until r' = row_refresh_lease_until r \<and> row_payload r' = row_payload r"
  shows "leased s w' t c"
  using assms(1,2) assms(3) unfolding leased_def Let_def
  by (cases "rc_pc c") (simp_all, metis+)

lemma leased_same: "leased s w t c \<Longrightarrow> sessions w' = sessions w \<Longrightarrow> db_now w' = db_now w \<Longrightarrow> leased s w' t c"
  by (erule leased_keep) auto

lemma leased_idle: "nonce_of c = None \<Longrightarrow> leased s w t c"
  by (auto simp: nonce_of_def leased_def Let_def split: refresh_pc.splits)

text \<open>The lease of an active call is not free.\<close>

lemma leased_not_free:
  assumes "leased s w t c" and "nonce_of c \<noteq> None" and "0 < writeTimeout (pg_conf s)"
    and "lookup_row (sessions w) (rc_id c) = Some r"
  shows "\<not> lease_free (db_now w) r \<and> row_refresh_lease_nonce r = nonce_of c"
  using assms by (auto simp: leased_def nonce_of_def lease_free_def Let_def split: refresh_pc.splits)

text \<open>What a step does to the table and to the call.\<close>

lemma pg_query_cases:
  "pg_query ctx q w = (r, w') \<Longrightarrow> db_now w' = db_now w \<and> rng w' = rng w \<and>
     (sessions w' = sessions w \<or> sessions w' = snd (q (db_now w) (sessions w)))"
  using pg_query_sessions [of ctx q w] pg_query_same by fastforce

lemma sealPayload_same: "sealPayload s i p v = (r, v') \<Longrightarrow> sessions v' = sessions v \<and> db_now v' = db_now v"
  using only_rng_fields(2) [OF sealPayload_only] by blast

lemma step_idle:
  assumes "refresh_step s (\<lambda>ctx tok w. (answer, w)) c w = (c', w')" and "nonce_of c = None" and "rc_pc c \<noteq> Lease"
  shows "sessions w' = sessions w \<and> db_now w' = db_now w \<and> nonce_of c' = None"
proof (cases "rc_pc c")
  case Top
  then have t: "refresh_top s c w = (c', w')"
    using assms(1) by (simp add: refresh_step_def)
  then have "sessions w' = sessions w \<and> db_now w' = db_now w"
    by (auto simp: refresh_top_def Let_def table_inv_statements(9)
        split: if_splits prod.splits sum.splits option.splits dest!: pg_query_cases)
  then show ?thesis
    using refresh_top_pc [OF t] by (auto simp: nonce_of_def)
qed (use assms in \<open>auto simp: refresh_step_def refresh_wake_def nonce_of_def split: if_splits\<close>)

lemma step_lease:
  assumes "refresh_step s ex c w = (c', w')" and "rc_pc c = Lease" and "table_inv (sessions w)"
  shows "rc_id c' = rc_id c \<and> db_now w' = db_now w \<and>
    (sessions w' = sessions w \<or> sessions w' = snd (TakeRefreshLease (interval (refreshLease (pg_conf s)))
       (next_nonce w) (rc_id c) (seenRefreshedAt c) (seenFailedAt c) (db_now w) (sessions w))) \<and>
    (nonce_of c' = None \<or>
      (\<exists>r. lookup_row (sessions w) (rc_id c) = Some r \<and>
         lease_guard (rc_id c) (seenRefreshedAt c) (seenFailedAt c) (db_now w) r \<and>
         rc_pc c' = Exchanging (next_nonce w)
           (r\<lparr>row_refresh_lease_until := Some (db_now w + interval (refreshLease (pg_conf s))),
              row_refresh_lease_nonce := Some (next_nonce w)\<rparr>) \<and>
         sessions w' = snd (TakeRefreshLease (interval (refreshLease (pg_conf s)))
           (next_nonce w) (rc_id c) (seenRefreshedAt c) (seenFailedAt c) (db_now w) (sessions w))))"
proof -
  have l: "refresh_lease s c w = (c', w')"
    using assms(1,2) by (simp add: refresh_step_def)
  show ?thesis
  proof (cases "rand_Read leaseNonceLength w")
    case (Pair r w1)
    note w1 = rand_Read_same [OF Pair]
    show ?thesis
    proof (cases r)
      case (Inl e)
      then show ?thesis
        using l Pair w1 by (auto simp: refresh_lease_def nonce_of_def)
    next
      case (Inr n)
      have n: "n = next_nonce w"
        using Pair Inr by (simp add: rand_Read_Inr next_nonce_def)
      obtain q w2 where q: "pg_query (rc_ctx c) (TakeRefreshLease (interval (refreshLease (pg_conf s))) n
          (rc_id c) (seenRefreshedAt c) (seenFailedAt c)) w1 = (q, w2)"
        by fastforce
      note q2 = pg_query_cases [OF q]
      show ?thesis
      proof (cases q)
        case (Inl e)
        then show ?thesis
          using l Pair w1 Inr q q2 n by (auto simp: refresh_lease_def nonce_of_def)
      next
        case (Inr lease)
        then show ?thesis
          using l Pair w1 \<open>r = Inr n\<close> q pg_query_Inr [OF q [unfolded Inr]] n
          by (auto simp: refresh_lease_def nonce_of_def fst_TakeRefreshLease [OF assms(3)]
              split: option.splits if_splits)
      qed
    qed
  qed
qed

lemma step_exchange:
  assumes "refresh_step s (\<lambda>ctx tok w. (answer, w)) c w = (c', w')" and "rc_pc c = Exchanging n l"
  shows "w' = w \<and> rc_id c' = rc_id c \<and>
    (nonce_of c' = None \<or> (\<exists>p t. rc_pc c' = Writing n l p t) \<or> (\<exists>e. rc_pc c' = Failing n e))"
  using assms by (auto simp: refresh_step_def refresh_exchange_def nonce_of_def
      split: prod.splits sum.splits option.splits)

lemma step_fenced:
  assumes "refresh_step s ex c w = (c', w')" and "nonce_of c = Some n" and "\<And>l. rc_pc c \<noteq> Exchanging n l"
  shows "db_now w' = db_now w \<and> nonce_of c' = None \<and>
    (sessions w' = sessions w \<or>
     (\<exists>pl k e. sessions w' = snd (CommitRefresh pl k e (rc_id c) n (db_now w) (sessions w))) \<or>
     sessions w' = snd (FailRefresh (rc_id c) n (db_now w) (sessions w)))"
proof (cases "rc_pc c")
  case (Writing m l p t)
  then have "refresh_write s c n l p t w = (c', w')"
    using assms by (simp add: refresh_step_def nonce_of_def)
  then show ?thesis
    by (auto simp: refresh_write_def Let_def nonce_of_def lease_lost_def
        split: if_splits prod.splits sum.splits dest!: pg_query_cases sealPayload_same) blast+
next
  case (Failing m e)
  then have "refresh_failed s c n e w = (c', w')"
    using assms by (simp add: refresh_step_def nonce_of_def)
  then show ?thesis
    by (auto simp: refresh_failed_def markRefreshFailed_def Let_def nonce_of_def lease_lost_def
        split: if_splits prod.splits sum.splits dest!: pg_query_cases)
qed (use assms in \<open>auto simp: nonce_of_def\<close>)

lemma map_option_same: "(\<And>r. x = Some r \<Longrightarrow> f r = r) \<Longrightarrow> map_option f x = x"
  by (cases x) auto

text \<open>Where a call stands, for the four kinds of step it can take.\<close>

lemma call_phase:
  obtains (lease) "rc_pc c = Lease" | (exchange) n l where "rc_pc c = Exchanging n l"
    | (fenced) n where "nonce_of c = Some n" "\<And>l. rc_pc c \<noteq> Exchanging n l"
    | (idle) "nonce_of c = None" "rc_pc c \<noteq> Lease"
  by (cases "rc_pc c") (auto simp: nonce_of_def)

text \<open>A step of one call leaves the row and the lease of the others alone.\<close>

lemma step_other_row:
  assumes inv: "fleet_inv s f" and cov: "covered s"
    and c: "fl_calls f i = Some c" and d: "fl_calls f j = Some d" "i \<noteq> j" and act: "nonce_of d \<noteq> None"
    and step: "refresh_step s (\<lambda>ctx tok w. (answer, w)) c (fl_world f) = (c', w')"
  shows "lookup_row (sessions w') (rc_id d) = lookup_row (sessions (fl_world f)) (rc_id d) \<and>
    db_now w' = db_now (fl_world f) \<and> (nonce_of c' \<noteq> None \<longrightarrow> rc_id c' \<noteq> rc_id d)"
proof -
  let ?w = "fl_world f"
  note ld = fleet_invD(2) [OF inv d(1)] and tbl = fleet_invD(1) [OF inv]
  have W: "0 < writeTimeout (pg_conf s)"
    using cov by (simp add: covered_def)
  have row: "\<not> lease_guard (rc_id c) (seenRefreshedAt c) (seenFailedAt c) (db_now ?w) r"
    if "lookup_row (sessions ?w) (rc_id d) = Some r" for r
    using leased_not_free [OF ld act W that] by (simp add: lease_guard_def)
  have other: "rc_id c \<noteq> rc_id d" if "nonce_of c \<noteq> None"
    using fleet_invD(4) [OF inv c d(1)] act d(2) that by blast
  show ?thesis
  proof (cases rule: call_phase [of c])
    case lease
    then show ?thesis
      using step_lease [OF step lease tbl] row by (auto simp: lookup_TakeRefreshLease intro!: map_option_same)
  next
    case (exchange n l)
    then show ?thesis
      using step_exchange [OF step exchange] other by (auto simp: nonce_of_def)
  next
    case (fenced n)
    then have "\<not> holds_lease (rc_id c) n r" if "lookup_row (sessions ?w) (rc_id d) = Some r" for r
      using lookup_row_Some [OF that] other by (auto simp: holds_lease_def)
    then show ?thesis
      using step_fenced [OF step fenced] by (auto simp: lookup_CommitRefresh lookup_FailRefresh intro!: map_option_same)
  next
    case idle
    then show ?thesis
      using step_idle [OF step idle] by auto
  qed
qed

lemma step_other:
  assumes inv: "fleet_inv s f" and cov: "covered s"
    and c: "fl_calls f i = Some c" and d: "fl_calls f j = Some d" "i \<noteq> j"
    and step: "refresh_step s (\<lambda>ctx tok w. (answer, w)) c (fl_world f) = (c', w')"
  shows "leased s w' (fl_since f j) d \<and> (nonce_of c' \<noteq> None \<and> nonce_of d \<noteq> None \<longrightarrow> rc_id c' \<noteq> rc_id d)"
proof (cases "nonce_of d = None")
  case True
  then show ?thesis by (simp add: leased_idle)
next
  case False
  note row = step_other_row [OF inv cov c d False step]
  have "leased s w' (fl_since f j) d"
    by (rule leased_keep [OF fleet_invD(2) [OF inv d(1)]]) (use row in auto)
  then show ?thesis
    using row by blast
qed

lemma step_self:
  assumes inv: "fleet_inv s f" and cov: "covered s" and c: "fl_calls f i = Some c"
    and step: "refresh_step s (\<lambda>ctx tok w. (answer, w)) c (fl_world f) = (c', w')"
  shows "leased s w' (db_now w') c' \<and> table_inv (sessions w') \<and>
    (\<forall>n. nonce_of c' = Some n \<longrightarrow> n = next_nonce (fl_world f) \<and> rc_pc c = Lease \<or> nonce_of c = Some n)"
proof -
  let ?w = "fl_world f"
  note ld = fleet_invD(2) [OF inv c] and tbl = fleet_invD(1) [OF inv]
  show ?thesis
  proof (cases rule: call_phase [of c])
    case lease
    note l = step_lease [OF step lease tbl]
    have "leased s w' (db_now w') c'" if act: "nonce_of c' \<noteq> None"
    proof -
      obtain r where "lookup_row (sessions ?w) (rc_id c) = Some r"
        "lease_guard (rc_id c) (seenRefreshedAt c) (seenFailedAt c) (db_now ?w) r"
        "rc_pc c' = Exchanging (next_nonce ?w)
           (r\<lparr>row_refresh_lease_until := Some (db_now ?w + interval (refreshLease (pg_conf s))),
              row_refresh_lease_nonce := Some (next_nonce ?w)\<rparr>)"
        "sessions w' = snd (TakeRefreshLease (interval (refreshLease (pg_conf s)))
           (next_nonce ?w) (rc_id c) (seenRefreshedAt c) (seenFailedAt c) (db_now ?w) (sessions ?w))"
        using l act by blast
      then show ?thesis
        using cov conjunct1 [OF l] conjunct1 [OF conjunct2 [OF l]]
        by (simp add: leased_def Let_def lookup_TakeRefreshLease covered_def)
    qed
    then have "leased s w' (db_now w') c'"
      using leased_idle by blast
    moreover have "table_inv (sessions w')"
      using l tbl by (auto simp: table_inv_statements)
    ultimately show ?thesis
      using l lease by (auto simp: nonce_of_def)
  next
    case (exchange n l)
    note l = step_exchange [OF step exchange]
    have "leased s w' (db_now w') c'" if "nonce_of c' \<noteq> None"
    proof -
      have "0 < writeTimeout (pg_conf s)"
        using cov by (simp add: covered_def)
      then show ?thesis
        using l that ld exchange by (fastforce simp: leased_def Let_def)
    qed
    then have "leased s w' (db_now w') c'"
      using leased_idle by blast
    then show ?thesis
      using l exchange tbl by (auto simp: nonce_of_def)
  next
    case (fenced n)
    note l = step_fenced [OF step fenced]
    then show ?thesis
      using tbl leased_idle by (auto simp: table_inv_statements)
  next
    case idle
    note l = step_idle [OF step idle]
    then show ?thesis
      using tbl leased_idle by auto
  qed
qed

lemma lookup_CreateSession_other:
  "i \<noteq> cs_ID arg \<Longrightarrow> lookup_row (snd (CreateSession arg now tbl)) i = lookup_row tbl i"
  by (auto simp: CreateSession_def lookup_row_append lookup_row_Cons split: option.splits)

lemma fleet_inv_step_call:
  assumes inv: "fleet_inv s f" and cov: "covered s" and c: "fl_calls f i = Some c"
    and step: "refresh_step s (\<lambda>ctx tok w. (answer, w)) c (fl_world f) = (c', w')"
  shows "fleet_inv s \<lparr>fl_world = w', fl_calls = (fl_calls f)(i \<mapsto> c'), fl_since = (fl_since f)(i := db_now w'),
      fl_used = (if rc_pc c = Lease then insert (next_nonce (fl_world f)) (fl_used f) else fl_used f)\<rparr>"
  using step_self [OF inv cov c step] step_other [OF inv cov c _ _ step] fleet_invD(3,4) [OF inv] c
  unfolding fleet_inv_def by (auto split: if_splits) metis+

lemma fleet_inv_world:
  assumes inv: "fleet_inv s f" and "table_inv (sessions w')"
    and "\<And>i c. fl_calls f i = Some c \<Longrightarrow> leased s w' (fl_since f i) c"
  shows "fleet_inv s (f\<lparr>fl_world := w'\<rparr>)"
  using assms unfolding fleet_inv_def by auto

lemma fleet_inv_step:
  assumes "fleet_step s f f'" and "fleet_inv s f" and "covered s"
  shows "fleet_inv s f'"
  using assms(1)
proof cases
  case (Begin i ctx t c)
  have "nonce_of c = None"
    using Begin(3) by (auto simp: refresh_start_def nonce_of_def split: option.splits sum.splits prod.splits)
  then show ?thesis
    using assms(2) leased_idle [of c] unfolding Begin(1) fleet_inv_def by (auto split: if_splits)
next
  case (Step i c answer c' w')
  then show ?thesis
    using fleet_inv_step_call [OF assms(2,3) Step(2) Step(5)] by simp
next
  case (Delete p)
  note tbl = fleet_invD(1) [OF assms(2)]
  show ?thesis
    unfolding Delete
  proof (rule fleet_inv_world [OF assms(2)], goal_cases)
    case 1
    then show ?case by (simp add: table_inv_sql_delete tbl)
  next
    case (2 i c)
    show ?case
      by (rule leased_keep [OF fleet_invD(2) [OF assms(2) 2]])
        (auto simp: lookup_sql_delete [OF tbl] split: option.splits if_splits)
  qed
next
  case (Create arg)
  note tbl = fleet_invD(1) [OF assms(2)]
  show ?thesis
    unfolding Create(1)
  proof (rule fleet_inv_world [OF assms(2)], goal_cases)
    case 1
    then show ?case by (simp add: table_inv_statements tbl)
  next
    case (2 i c)
    show ?case
      by (rule leased_keep [OF fleet_invD(2) [OF assms(2) 2]]) (simp_all add: lookup_CreateSession_other Create(2) [OF 2])
  qed
next
  case (Tick d)
  note tbl = fleet_invD(1) [OF assms(2)]
  show ?thesis
    unfolding Tick(1)
  proof (rule fleet_inv_world [OF assms(2)], goal_cases)
    case 1
    then show ?case by (simp add: tbl)
  next
    case (2 i c)
    show ?case
      using fleet_invD(2) [OF assms(2) 2] Tick(3) [OF 2]
      by (auto simp: leased_def phase_limit_def Let_def split: refresh_pc.splits)
  qed
next
  case (Crash i)
  then show ?thesis
    using assms(2) unfolding Crash fleet_inv_def by (auto split: if_splits)
next
  case (Fault fs)
  show ?thesis
    unfolding Fault
  proof (rule fleet_inv_world [OF assms(2)], goal_cases)
    case 1
    then show ?case by (simp add: fleet_invD(1) [OF assms(2)])
  next
    case (2 i c)
    show ?case by (rule leased_same [OF fleet_invD(2) [OF assms(2) 2]]) simp_all
  qed
next
  case (Random r)
  show ?thesis
    unfolding Random
  proof (rule fleet_inv_world [OF assms(2)], goal_cases)
    case 1
    then show ?case by (simp add: fleet_invD(1) [OF assms(2)])
  next
    case (2 i c)
    show ?case by (rule leased_same [OF fleet_invD(2) [OF assms(2) 2]]) simp_all
  qed
qed

lemma fleet_reachable_inv: "fleet_reachable s f \<Longrightarrow> covered s \<Longrightarrow> fleet_inv s f"
proof (induction rule: fleet_reachable.induct)
  case (Init w used)
  then show ?case by (simp add: fleet_inv_def)
next
  case (Next f f')
  then show ?case using fleet_inv_step by blast
qed

section \<open>Properties\<close>

text \<open>A fleet in which a call has taken the lease of a row and is exchanging its token.\<close>

lemma sample_fleet_alone:
  "\<exists>f c n l r. fleet_reachable sample_pg f \<and> fl_calls f = [0 \<mapsto> c] \<and> rc_pc c = Exchanging n l \<and>
     lookup_row (sessions (fl_world f)) (rc_id c) = Some r \<and> clock (fl_world f) = 250 \<and>
     openPayload sample_pg 250 (rc_id c) (row_payload l) = Inr sample_pg_payload"
proof -
  let ?i = "sha256_Sum256 [7, 8]"
  obtain v where v: "rowID sample_pg 150 v = Inr (?i, True)" "rowID sample_pg 250 v = Inr (?i, False)"
    by (rule sample_pg_handle)
  obtain raw where raw: "\<forall>now \<ge> 150. openPayload sample_pg now ?i raw = Inr sample_pg_payload"
    using sample_sealed by blast
  let ?row = "(sample_row 1 1000)\<lparr>row_id := ?i, row_payload := raw\<rparr>"
  let ?w = "sample_pg_world 250 (replicate 16 9) [?row]"
  let ?t = "sample_stored\<lparr>Handle := v\<rparr>"
  let ?c = "\<lparr>rc_id = ?i, rc_t = ?t, rc_ctx = Background, rc_pc = Top, pass = 0, seenRefreshedAt = zeroTime,
     seenFailedAt = None, backoff = refreshPollMin, deadline = 250 + refreshWait (pg_conf sample_pg),
     lostWriteReads = 0\<rparr>"
  have margin: "refreshMargin (pg_conf sample_pg) = 10 * Second"
    by (simp add: sample_pg_def apply_options_def default_conf_def Let_def)
  let ?f0 = "\<lparr>fl_world = ?w, fl_calls = \<lambda>i. None, fl_since = \<lambda>i. 0, fl_used = {}\<rparr> :: fleet"
  have 0: "fleet_reachable sample_pg ?f0"
    by (rule fleet_reachable.Init) (simp add: sample_pg_world_def table_inv_def)
  have "refresh_start sample_pg Background (Some ?t) ?w = Inr ?c"
    using v by (simp add: refresh_start_def sample_pg_world_def)
  then have "fleet_step sample_pg ?f0 (?f0\<lparr>fl_calls := (fl_calls ?f0)(0 \<mapsto> ?c)\<rparr>)" (is "fleet_step _ _ ?f1")
    by (intro fleet_step.Begin) simp_all
  with 0 have 1: "fleet_reachable sample_pg ?f1"
    by (rule fleet_reachable.Next)
  let ?c1 = "?c\<lparr>rc_pc := Lease, seenRefreshedAt := 10, seenFailedAt := None\<rparr>"
  have tok: "pp_Token sample_pg_payload = ns_Token sample_pg_session" "Expiry (the (ns_Token sample_pg_session)) = 900"
      "ns_Token sample_pg_session \<noteq> None"
    by (simp_all add: sample_pg_payload_def sample_pg_session_def)
  have top: "refresh_step sample_pg (\<lambda>ctx tok w. (Inr None, w)) ?c ?w = (?c1, ?w)"
    using raw tok margin by (auto simp: refresh_step_def refresh_top_def pg_query_answered sample_pg_world_def
        GetSession_def lookup_row_Cons Let_def sample_row_def time_Sub_def)
  obtain f2 where f2: "fleet_step sample_pg ?f1 f2" "fl_world f2 = ?w" "fl_calls f2 = [0 \<mapsto> ?c1]" "fl_used f2 = {}"
    using fleet_step.Step [of ?f1 0 ?c sample_pg "Inr None" ?c1 ?w] top by (auto simp: awake_def)
  from 1 f2(1) have 2: "fleet_reachable sample_pg f2"
    by (rule fleet_reachable.Next)
  let ?l = "?row\<lparr>row_refresh_lease_until := Some (250 + interval (refreshLease (pg_conf sample_pg))),
      row_refresh_lease_nonce := Some (replicate 16 9)\<rparr>"
  let ?c2 = "?c1\<lparr>rc_pc := Exchanging (replicate 16 9) ?l\<rparr>"
  let ?w2 = "sample_pg_world 250 [] [?l]"
  have lease: "refresh_step sample_pg (\<lambda>ctx tok w. (Inr None, w)) ?c1 ?w = (?c2, ?w2)"
    by (simp add: refresh_step_def refresh_lease_def rand_Read_def leaseNonceLength_def
        sample_pg_world_def pg_query_answered TakeRefreshLease_def Let_def sql_update_def
        lease_guard_def lease_free_def sample_row_def)
  obtain f3 where f3: "fleet_step sample_pg f2 f3" "fl_world f3 = ?w2" "fl_calls f3 = [0 \<mapsto> ?c2]"
    using fleet_step.Step [of f2 0 ?c1 sample_pg "Inr None" ?c2 ?w2] lease f2 by (auto simp: awake_def)
  from 2 f3(1) have "fleet_reachable sample_pg f3"
    by (rule fleet_reachable.Next)
  then show ?thesis
    using f3 raw by (intro exI [of _ f3] exI [of _ ?c2]) (simp add: sample_pg_world_def lookup_row_Cons)
qed

lemma sample_fleet:
  "\<exists>f c n l r. fleet_reachable sample_pg f \<and> fl_calls f 0 = Some c \<and> rc_pc c = Exchanging n l \<and>
     lookup_row (sessions (fl_world f)) (rc_id c) = Some r"
  using sample_fleet_alone by (metis fun_upd_same)

lemma covered_sample: "covered sample_pg"
  by (simp add: covered_def sample_pg_def apply_options_def default_conf_def Let_def interval_def)



text \<open>The token a refresher posts is the session's current one: while it exchanges, the payload
  it took with the lease is still what the row holds.\<close>

theorem fleet_posts_current_token:
  assumes "fleet_reachable s f" and "covered s"
    and "fl_calls f i = Some c" and "rc_pc c = Exchanging n l"
    and "lookup_row (sessions (fl_world f)) (rc_id c) = Some r"
  shows "row_payload r = row_payload l \<and> row_refresh_lease_nonce r = Some n \<and>
    \<not> lease_free (db_now (fl_world f)) r"
proof -
  note l = fleet_invD(2) [OF fleet_reachable_inv [OF assms(1,2)] assms(3)]
  have n: "nonce_of c = Some n"
    using assms(4) by (simp add: nonce_of_def)
  show ?thesis
    using l leased_not_free [OF l _ _ assms(5)] assms(2,4,5) n by (simp add: leased_def covered_def Let_def)
qed

lemma fleet_posts_current_token_witness:
  "\<exists>f n. fleet_reachable sample_pg f \<and> (\<exists>r \<in> set (sessions (fl_world f)). row_refresh_lease_nonce r = Some n \<and>
     \<not> lease_free (db_now (fl_world f)) r)"
proof -
  obtain f c n l r where f: "fleet_reachable sample_pg f" "fl_calls f 0 = Some c" "rc_pc c = Exchanging n l"
    and r: "lookup_row (sessions (fl_world f)) (rc_id c) = Some r"
    using sample_fleet by blast
  show ?thesis
    using fleet_posts_current_token [OF f(1) covered_sample f(2,3) r] f(1) lookup_row_Some [OF r] by blast
qed

text \<open>C8. A refresher inside its bounds does not lose its lease to another: as long as the session is
  there, neither its write-back nor its failure marker is fenced out.\<close>

theorem fleet_not_fenced_out:
  assumes "fleet_reachable s f" and "covered s"
    and "fl_calls f i = Some c" and "nonce_of c = Some n"
    and r: "lookup_row (sessions (fl_world f)) (rc_id c) = Some r"
    and "refresh_step s (\<lambda>ctx tok w. (answer, w)) c (fl_world f) = (c', w')"
  shows "rc_pc c' \<noteq> Top"
proof
  assume "rc_pc c' = Top"
  note inv = fleet_reachable_inv [OF assms(1,2)]
  have nn: "row_refresh_lease_nonce r = Some n"
    using leased_not_free [OF fleet_invD(2) [OF inv assms(3)] _ _ r] assms(2,4) by (simp add: covered_def)
  note cnt = fst_CommitRefresh [OF fleet_invD(1) [OF inv]] fst_FailRefresh [OF fleet_invD(1) [OF inv]]
  show False
    using assms(4,6) \<open>rc_pc c' = Top\<close> r nn
    by (auto simp: refresh_step_def nonce_of_def refresh_exchange_def refresh_write_def refresh_failed_def
        markRefreshFailed_def Let_def cnt
        split: refresh_pc.splits if_splits prod.splits sum.splits option.splits
        dest!: sealPayload_same dest: pg_query_Inr)
qed

lemma fleet_not_fenced_out_witness:
  "\<exists>f c w. fleet_reachable sample_pg f \<and> fl_calls f 0 = Some c \<and> nonce_of c \<noteq> None \<and>
     rc_pc (fst (refresh_step sample_pg (\<lambda>ctx tok w. (Inr None, w)) c (fl_world f))) \<noteq> Top"
proof -
  obtain f c n l r where f: "fleet_reachable sample_pg f" "fl_calls f 0 = Some c" "rc_pc c = Exchanging n l"
    and r: "lookup_row (sessions (fl_world f)) (rc_id c) = Some r"
    using sample_fleet by blast
  have n: "nonce_of c = Some n"
    by (simp add: nonce_of_def f(3))
  obtain c' w' where step: "refresh_step sample_pg (\<lambda>ctx tok w. (Inr None, w)) c (fl_world f) = (c', w')"
    by fastforce
  have "rc_pc c' \<noteq> Top"
    by (rule fleet_not_fenced_out [OF f(1) covered_sample f(2) n r step])
  then show ?thesis
    using f n step by (metis fst_conv option.distinct(1))
qed

end
