(* ===== verification/PgSpec.thy ===== *)
theory PgSpec
  imports PgStore
begin

text \<open>
  What the store of \<open>pgstore.go\<close> is, seen from outside: a map from the names of sessions to what they
  hold and when they end, in which a session that has ended is not there.  The requests a caller
  makes are steps of the map, each answered or failed, and a failed one has either not happened or
  happened without the caller being told.  The operations on the table, with their sealing, their
  statements and whatever goes wrong with the database, refine the map.
\<close>

section \<open>The map\<close>

type_synonym session_map = "bytes \<rightharpoonup> session_content \<times> time"

text \<open>What is asked for: a new session, the session of a handle, other tokens for it, its end, the end
  of every session of a subject, and the removal of a batch of what has ended.\<close>

datatype 'h request =
    Begin NewSession
  | Look 'h
  | Replace 'h Token
  | End 'h
  | EndSubject string
  | Sweep int

datatype answer = Found session_content time | Absent | Done | Failed

definition without_subject :: "string \<Rightarrow> session_map \<Rightarrow> session_map" where
  "without_subject u m =
     (\<lambda>i. case m i of Some (c, e) \<Rightarrow> if c_Subject c = u then None else Some (c, e) | None \<Rightarrow> None)"

text \<open>A handle is known by the name it seals, or not at all.\<close>

definition named :: "session_map \<Rightarrow> bytes option \<Rightarrow> (session_content \<times> time) option" where
  "named m h = Option.bind h m"

inductive session_step ::
  "time \<Rightarrow> duration \<Rightarrow> session_map \<Rightarrow> bytes option request \<Rightarrow> answer \<Rightarrow> session_map \<Rightarrow> bool"
  for now age m where
  begun: "ns_Token ns \<noteq> None \<Longrightarrow> m i = None \<Longrightarrow>
     c = \<lparr>c_Subject = ns_Subject ns, c_Token = ns_Token ns, c_IDToken = ns_IDToken ns, c_IssuedAt = now\<rparr> \<Longrightarrow>
     m' = (if now < now + age then m(i \<mapsto> (c, now + age)) else m) \<Longrightarrow>
     session_step now age m (Begin ns) (Found c (now + age)) m'"
| looked: "named m h = Some (c, e) \<Longrightarrow> session_step now age m (Look h) (Found c e) m"
| not_found: "named m h = None \<Longrightarrow> session_step now age m (Look h) Absent m"
| replaced: "m i = Some (c, e) \<Longrightarrow> c' = c\<lparr>c_Token := Some tok\<rparr> \<Longrightarrow>
     session_step now age m (Replace (Some i) tok) (Found c' e) (m(i \<mapsto> (c', e)))"
| not_replaced: "named m h = None \<Longrightarrow> session_step now age m (Replace h tok) Absent m"
| ended: "session_step now age m (End (Some i)) Done (m(i := None))"
| unknown: "session_step now age m (End None) Done m"
| subject_ended: "u \<noteq> [] \<Longrightarrow> session_step now age m (EndSubject u) Done (without_subject u m)"
| swept: "session_step now age m (Sweep n) Done m"
| unanswered: "session_step now age m q a m' \<Longrightarrow> session_step now age m q Failed m'"
| failed: "session_step now age m q Failed m"

section \<open>The operations as requests\<close>

definition answer_session :: "StoredToken option result \<Rightarrow> answer" where
  "answer_session r =
     (case r of
        Inr (Some t) \<Rightarrow> Found (content t) (ExpiresAt t)
      | Inr None \<Rightarrow> Failed
      | Inl e \<Rightarrow> if errors_Is e ErrNoSession then Absent else Failed)"

definition answer_done :: "'r result \<Rightarrow> answer" where
  "answer_done r = (case r of Inr _ \<Rightarrow> Done | Inl e \<Rightarrow> Failed)"

fun perform :: "Store \<Rightarrow> Context \<Rightarrow> string request \<Rightarrow> 'a pg_world_scheme \<Rightarrow> answer \<times> 'a pg_world_scheme" where
  "perform s ctx (Begin ns) w = apfst answer_session (pg_Create s ctx ns w)"
| "perform s ctx (Look h) w = apfst answer_session (pg_Get s ctx h w)"
| "perform s ctx (Replace h tok) w = apfst answer_session (pg_Update s ctx h (Some tok) w)"
| "perform s ctx (End h) w = apfst answer_done (pg_Delete s ctx h w)"
| "perform s ctx (EndSubject u) w = apfst answer_done (pg_DeleteSubject s ctx u w)"
| "perform s ctx (Sweep n) w = apfst answer_done (pg_DeleteExpired s ctx n w)"

section \<open>The map a table stands for\<close>

definition row_content :: "HowdahSession \<Rightarrow> pgPayload \<Rightarrow> session_content" where
  "row_content r p = \<lparr>c_Subject = pp_Subject p, c_Token = pp_Token p, c_IDToken = pp_IDToken p,
     c_IssuedAt = row_created_at r\<rparr>"

definition row_session :: "Store \<Rightarrow> time \<Rightarrow> time \<Rightarrow> HowdahSession \<Rightarrow> (session_content \<times> time) option" where
  "row_session s now dbNow r =
     (if row_expires_at r \<le> dbNow then None
      else case openPayload s now (row_id r) (row_payload r) of
        Inl e \<Rightarrow> None
      | Inr p \<Rightarrow> Some (row_content r p, row_expires_at r))"

definition abs_table :: "Store \<Rightarrow> time \<Rightarrow> time \<Rightarrow> table \<Rightarrow> session_map" where
  "abs_table s now dbNow tbl i = Option.bind (lookup_row tbl i) (row_session s now dbNow)"

definition abs_sessions :: "Store \<Rightarrow> 'a pg_world_scheme \<Rightarrow> session_map" where
  "abs_sessions s w = abs_table s (clock w) (db_now w) (sessions w)"

definition handle_name :: "Store \<Rightarrow> 'a pg_world_scheme \<Rightarrow> string \<Rightarrow> bytes option" where
  "handle_name s w h = (case rowID s (clock w) h of Inl e \<Rightarrow> None | Inr (i, current) \<Rightarrow> Some i)"

text \<open>What every operation keeps: the names are distinct, and a row that opens is filed under the
  subject its payload has.  An error of the codec is not taken for a session that is not there.\<close>

definition filed :: "Store \<Rightarrow> time \<Rightarrow> HowdahSession \<Rightarrow> bool" where
  "filed s now r \<longleftrightarrow>
     (case openPayload s now (row_id r) (row_payload r) of
        Inl e \<Rightarrow> True
      | Inr p \<Rightarrow> pp_Subject p = row_subject r)"

definition wf_table :: "Store \<Rightarrow> time \<Rightarrow> table \<Rightarrow> bool" where
  "wf_table s now tbl \<longleftrightarrow> table_inv tbl \<and> (\<forall>r \<in> set tbl. filed s now r)"

definition pg_wf :: "Store \<Rightarrow> 'a pg_world_scheme \<Rightarrow> bool" where
  "pg_wf s w \<longleftrightarrow> keyring_inv (sealer_keyring (pg_sealer s)) \<and> wf_table s (clock w) (sessions w)"

definition codec_sane :: "'p codec \<Rightarrow> bool" where
  "codec_sane j \<longleftrightarrow> (\<forall>p e. json_Marshal j p = Inl e \<longrightarrow> \<not> errors_Is e ErrNoSession)"

text \<open>What a request would have the store write is read back as it was.\<close>

definition writable :: "Store \<Rightarrow> 'a pg_world_scheme \<Rightarrow> string request \<Rightarrow> bool" where
  "writable s w q \<longleftrightarrow>
     (case q of
        Begin ns \<Rightarrow> faithful (pg_json s) \<lparr>pp_Version = pgPayloadV1, pp_Subject = ns_Subject ns,
          pp_Token = ns_Token ns, pp_IDToken = ns_IDToken ns\<rparr>
      | Replace h tok \<Rightarrow>
          (case named (abs_sessions s w) (handle_name s w h) of
             Some (c, e) \<Rightarrow> faithful (pg_json s) (pg_payload_of (c\<lparr>c_Token := Some tok\<rparr>))
           | None \<Rightarrow> True)
      | _ \<Rightarrow> True)"

section \<open>Lemmas\<close>

lemma abs_sessions_cong:
  "sessions w' = sessions w \<Longrightarrow> clock w' = clock w \<Longrightarrow> db_now w' = db_now w \<Longrightarrow>
     abs_sessions s w' = abs_sessions s w"
  by (simp add: abs_sessions_def fun_eq_iff)

lemma pg_wf_cong: "sessions w' = sessions w \<Longrightarrow> clock w' = clock w \<Longrightarrow> pg_wf s w' = pg_wf s w"
  by (simp add: pg_wf_def)

lemma sealKindRaw_error: "sealKindRaw k kind d p w = (Inl e, w') \<Longrightarrow> \<not> errors_Is e ErrNoSession"
  by (auto simp: sealKindRaw_def rand_Read_def Let_def error_simps split: prod.splits sum.splits option.splits if_splits)

lemma seal_errors:
  "SealHandle ss h w = (Inl e, w') \<Longrightarrow> \<not> errors_Is e ErrNoSession"
  "sealPayload s i p w = (Inl e, w') \<Longrightarrow> codec_sane (pg_json s) \<Longrightarrow> \<not> errors_Is e ErrNoSession"
  by (auto simp: SealHandle_def sealKind_def sealPayload_def SealPayload_def codec_sane_def error_simps
      dest: sealKindRaw_error split: prod.splits sum.splits)

text \<open>A statement is executed, or it is not, and one that was answered was executed.\<close>

lemma pg_query_frame:
  "pg_query ctx q w = (r, w') \<Longrightarrow> clock w' = clock w \<and> db_now w' = db_now w \<and>
     (sessions w' = sessions w \<or> sessions w' = snd (q (db_now w) (sessions w)))"
  by (auto simp: pg_query_def Let_def split: list.splits fault.splits if_splits)

lemma pg_query_answer:
  "pg_query ctx q w = (r, w') \<Longrightarrow> r = fst (q (db_now w) (sessions w)) \<and> sessions w' = snd (q (db_now w) (sessions w)) \<or>
     (\<exists>e. r = Inl e \<and> \<not> errors_Is e ErrNoSession \<and> \<not> errors_Is e ErrNoRows)"
  by (auto simp: pg_query_def Let_def error_simps split: list.splits fault.splits if_splits)

lemma openPayload_token: "openPayload s now i raw = Inr p \<Longrightarrow> pp_Version p = pgPayloadV1 \<and> pp_Token p \<noteq> None"
  by (auto simp: openPayload_def split: sum.splits prod.splits if_splits)

text \<open>A read finds what the map has.\<close>

lemma pg_Get_named:
  assumes "pg_Get s ctx h w = (r, w')"
  shows "sessions w' = sessions w \<and> clock w' = clock w \<and> db_now w' = db_now w \<and>
    (case r of
       Inr (Some t) \<Rightarrow> \<exists>i. handle_name s w h = Some i \<and> abs_sessions s w i = Some (content t, ExpiresAt t)
     | Inr None \<Rightarrow> False
     | Inl e \<Rightarrow> errors_Is e ErrNoSession \<longrightarrow> named (abs_sessions s w) (handle_name s w h) = None)"
proof (cases "rowID s (clock w) h")
  case (Inl e)
  then show ?thesis
    using assms by (auto simp: pg_Get_def handle_name_def named_def)
next
  case (Inr ic)
  obtain i cur where ic: "ic = (i, cur)" by (cases ic)
  obtain a w1 where q: "pg_query ctx (GetSession i) w = (a, w1)"
    by (cases "pg_query ctx (GetSession i) w")
  have get: "GetSession i (db_now w) (sessions w) =
      ((case lookup_row (sessions w) i of None \<Rightarrow> Inl (Sentinel ErrNoRows) | Some r \<Rightarrow> Inr (r, db_now w)), sessions w)"
    by (simp add: GetSession_def split: option.split)
  have same: "sessions w1 = sessions w" "clock w1 = clock w" "db_now w1 = db_now w"
    using pg_query_frame [OF q] by (auto simp: get)
  have w': "w' = w1"
    using assms q by (auto simp: pg_Get_def Inr ic split: sum.splits prod.splits if_splits)
  have name: "handle_name s w h = Some i"
    by (simp add: handle_name_def Inr ic)
  show ?thesis
  proof (cases a)
    case (Inl e)
    have r: "r = (if errors_Is e ErrNoRows then Inl (Errorf ''unknown session handle'' [Sentinel ErrNoSession])
        else Inl (Errorf ''read the session row'' [e]))"
      using assms q by (simp add: pg_Get_def Inr ic Inl)
    have "lookup_row (sessions w) i = None \<and> errors_Is e ErrNoRows \<or> \<not> errors_Is e ErrNoSession \<and> \<not> errors_Is e ErrNoRows"
      using pg_query_answer [OF q] Inl by (auto simp: get split: option.splits)
    then show ?thesis
      using same w' name by (auto simp: r named_def abs_sessions_def abs_table_def error_simps)
  next
    case b: (Inr rn)
    then obtain row where rn: "rn = (row, db_now w)" and row: "lookup_row (sessions w) i = Some row"
      using pg_query_answer [OF q] by (auto simp: get split: option.splits)
    have "row_id row = i"
      using lookup_row_Some [OF row] by simp
    then have a: "abs_sessions s w i = row_session s (clock w) (db_now w) row" "handle_name s w h = Some i"
      using row name by (simp_all add: abs_sessions_def abs_table_def)
    have r: "r = (if \<not> row_expires_at row > db_now w then Inl (Errorf ''the session expired'' [Sentinel ErrNoSession])
        else case openPayload s (clock w) (row_id row) (row_payload row) of
          Inl e \<Rightarrow> Inl e
        | Inr payload \<Rightarrow> Inr (Some \<lparr>Handle = h, Subject = pp_Subject payload,
            st_Token = pp_Token payload, IDToken = pp_IDToken payload,
            IssuedAt = row_created_at row, ExpiresAt = row_expires_at row, Stale = (\<not> cur)\<rparr>))"
      using assms q \<open>row_id row = i\<close> by (auto simp: pg_Get_def Inr ic b rn same split: sum.split)
    show ?thesis
      using same w' a
      by (cases "openPayload s (clock w) (row_id row) (row_payload row)")
        (auto simp: r named_def row_session_def row_content_def content_def)
  qed
qed

text \<open>What each statement does to the map of its table.\<close>

lemma wf_table_lookup:
  assumes "table_inv tbl"
  shows "wf_table s now tbl \<longleftrightarrow> (\<forall>i r. lookup_row tbl i = Some r \<longrightarrow> filed s now r)"
  using assms unfolding wf_table_def by (metis lookup_row_Some lookup_row_eq)

lemma wf_table_sub: "wf_table s now tbl \<Longrightarrow> table_inv tbl' \<Longrightarrow> set tbl' \<subseteq> set tbl \<Longrightarrow> wf_table s now tbl'"
  by (auto simp: wf_table_def)

lemma CreateSession_map:
  assumes "wf_table s now tbl" and "CreateSession arg dbNow tbl = (Inr (c, e), tbl')"
    and "openPayload s now (cs_ID arg) (cs_Payload arg) = Inr p" and "pp_Subject p = cs_Subject arg"
  shows "wf_table s now tbl' \<and> abs_table s now dbNow tbl (cs_ID arg) = None \<and>
    abs_table s now dbNow tbl' =
      (if dbNow < dbNow + cs_MaxSessionAge arg
       then (abs_table s now dbNow tbl)(cs_ID arg \<mapsto>
         (\<lparr>c_Subject = pp_Subject p, c_Token = pp_Token p, c_IDToken = pp_IDToken p, c_IssuedAt = dbNow\<rparr>,
          dbNow + cs_MaxSessionAge arg))
       else abs_table s now dbNow tbl)"
proof -
  have none: "lookup_row tbl (cs_ID arg) = None"
    using assms(2) by (auto simp: CreateSession_def split: if_splits)
  have "table_inv tbl'"
    using table_inv_statements(1) [of tbl arg dbNow] assms(1,2) by (simp add: wf_table_def)
  then have "wf_table s now tbl'"
    using assms(1,3,4) by (subst wf_table_lookup)
      (auto simp: lookup_CreateSession [OF assms(2)] filed_def wf_table_def dest: lookup_row_Some)
  moreover have "abs_table s now dbNow tbl (cs_ID arg) = None"
    by (simp add: abs_table_def none)
  ultimately show ?thesis
    using assms(3) none by (auto simp: fun_eq_iff abs_table_def lookup_CreateSession [OF assms(2)] row_session_def
        row_content_def)
qed

lemma UpdateSession_map:
  assumes "wf_table s now tbl" and "abs_table s now dbNow tbl i = Some (c, e)"
    and "openPayload s now i pl = Inr p" and "pp_Subject p = c_Subject c"
  shows "fst (UpdateSession k pl x i dbNow tbl) = Inr 1 \<and> wf_table s now (snd (UpdateSession k pl x i dbNow tbl)) \<and>
    abs_table s now dbNow (snd (UpdateSession k pl x i dbNow tbl)) = (abs_table s now dbNow tbl)
      (i \<mapsto> (\<lparr>c_Subject = pp_Subject p, c_Token = pp_Token p, c_IDToken = pp_IDToken p,
               c_IssuedAt = c_IssuedAt c\<rparr>, e))"
proof -
  obtain r where r: "lookup_row tbl i = Some r" "row_session s now dbNow r = Some (c, e)"
    using assms(2) by (auto simp: abs_table_def bind_eq_Some_conv)
  then have i: "row_id r = i" "r \<in> set tbl"
    using lookup_row_Some by blast+
  have subj: "row_subject r = c_Subject c"
    and "row_created_at r = c_IssuedAt c" "row_expires_at r = e" "\<not> e \<le> dbNow"
    using r(2) i assms(1)
    by (auto simp: row_session_def row_content_def wf_table_def filed_def split: if_splits sum.splits)
  moreover have inv: "table_inv tbl"
    using assms(1) by (simp add: wf_table_def)
  moreover have "wf_table s now (snd (UpdateSession k pl x i dbNow tbl))"
    unfolding wf_table_lookup [OF table_inv_statements(4) [of k pl x i dbNow tbl, THEN iffD2, OF inv]]
  proof (intro allI impI)
    fix j z'
    assume "lookup_row (snd (UpdateSession k pl x i dbNow tbl)) j = Some z'"
    then obtain z where z: "lookup_row tbl j = Some z"
      and z': "z' = (if row_id z = i then z\<lparr>row_key_id := k, row_payload := pl, row_access_expires_at := x,
        row_refreshed_at := dbNow, row_refresh_lease_until := None, row_refresh_lease_nonce := None,
        row_refresh_failed_at := None\<rparr> else z)"
      by (auto simp: lookup_UpdateSession)
    have "z = r" if "row_id z = i"
      using that z r(1) lookup_row_Some [OF z] by simp
    moreover have "filed s now z"
      using assms(1) lookup_row_Some [OF z] by (simp add: wf_table_def)
    ultimately show "filed s now z'"
      using assms(3,4) subj i(1) by (auto simp: z' filed_def)
  qed
  ultimately show ?thesis
    using r(1) i assms(3)
    by (auto simp: fst_UpdateSession fun_eq_iff abs_table_def lookup_UpdateSession row_session_def row_content_def
        bind_map_option o_def dest: lookup_row_Some intro!: bind_option_cong)
qed

lemma sql_delete_map:
  assumes "wf_table s now tbl"
  shows "wf_table s now (snd (sql_delete p tbl))"
    "abs_table s now dbNow (snd (sql_delete p tbl)) i =
       (case lookup_row tbl i of
          Some r \<Rightarrow> if p r then None else row_session s now dbNow r
        | None \<Rightarrow> None)"
proof -
  have inv: "table_inv tbl"
    using assms by (simp add: wf_table_def)
  show "wf_table s now (snd (sql_delete p tbl))"
    by (rule wf_table_sub [OF assms table_inv_sql_delete [OF inv]]) (auto simp: sql_delete_def)
  show "abs_table s now dbNow (snd (sql_delete p tbl)) i =
       (case lookup_row tbl i of
          Some r \<Rightarrow> if p r then None else row_session s now dbNow r
        | None \<Rightarrow> None)"
    by (simp add: abs_table_def lookup_sql_delete [OF inv] split: option.split)
qed

lemma DeleteSession_map:
  assumes "wf_table s now tbl"
  shows "wf_table s now (snd (DeleteSession i dbNow tbl))"
    "abs_table s now dbNow (snd (DeleteSession i dbNow tbl)) = (abs_table s now dbNow tbl)(i := None)"
  using sql_delete_map [OF assms]
  by (auto simp: DeleteSession_def fun_eq_iff abs_table_def dest: lookup_row_Some split: option.splits)

lemma DeleteSubjectSessions_map:
  assumes "wf_table s now tbl"
  shows "wf_table s now (snd (DeleteSubjectSessions u dbNow tbl))"
    "abs_table s now dbNow (snd (DeleteSubjectSessions u dbNow tbl)) = without_subject u (abs_table s now dbNow tbl)"
proof -
  show "wf_table s now (snd (DeleteSubjectSessions u dbNow tbl))"
    using sql_delete_map(1) [OF assms] by (simp add: DeleteSubjectSessions_def)
  have "c_Subject c = row_subject r" if "lookup_row tbl i = Some r" "row_session s now dbNow r = Some (c, e)" for i r c e
    using that assms lookup_row_Some [OF that(1)]
    by (auto simp: row_session_def row_content_def wf_table_def filed_def split: if_splits sum.splits)
  then show "abs_table s now dbNow (snd (DeleteSubjectSessions u dbNow tbl)) =
      without_subject u (abs_table s now dbNow tbl)"
    using sql_delete_map(2) [OF assms]
    by (fastforce simp: DeleteSubjectSessions_def fun_eq_iff abs_table_def without_subject_def split: option.splits)
qed

lemma DeleteExpiredSessions_map:
  assumes "wf_table s now tbl"
  shows "wf_table s now (snd (DeleteExpiredSessions locked n dbNow tbl))"
    "abs_table s now dbNow (snd (DeleteExpiredSessions locked n dbNow tbl)) = abs_table s now dbNow tbl"
proof -
  show "wf_table s now (snd (DeleteExpiredSessions locked n dbNow tbl))"
    using sql_delete_map(1) [OF assms] by (simp add: DeleteExpiredSessions_def)
  have "row_session s now dbNow r = None"
    if l: "lookup_row tbl i = Some r" and b: "row_id r \<in> set (expired_batch locked n dbNow tbl)" for i r
  proof -
    obtain r' where "r' \<in> set tbl" "row_id r' = row_id r" "row_expires_at r' \<le> dbNow"
      using b by (auto simp: expired_batch_def dest!: in_set_takeD)
    moreover have "r' = r"
      using calculation(1,2) l assms lookup_row_Some [OF l] lookup_row_eq
      by (metis option.inject wf_table_def)
    ultimately show ?thesis
      by (simp add: row_session_def)
  qed
  then show "abs_table s now dbNow (snd (DeleteExpiredSessions locked n dbNow tbl)) = abs_table s now dbNow tbl"
    using sql_delete_map(2) [OF assms]
    by (auto simp: DeleteExpiredSessions_def fun_eq_iff abs_table_def split: option.splits)
qed

section \<open>The simulation\<close>

definition stepped :: "Store \<Rightarrow> 'a pg_world_scheme \<Rightarrow> string request \<Rightarrow> answer \<Rightarrow> 'a pg_world_scheme \<Rightarrow> bool" where
  "stepped s w q a w' \<longleftrightarrow> pg_wf s w' \<and> clock w' = clock w \<and> db_now w' = db_now w \<and>
     session_step (db_now w) (pg_age s) (abs_sessions s w) (map_request (handle_name s w) q) a (abs_sessions s w')"

definition same_rows :: "'a pg_world_scheme \<Rightarrow> 'a pg_world_scheme \<Rightarrow> bool" where
  "same_rows w w' \<longleftrightarrow> sessions w' = sessions w \<and> clock w' = clock w \<and> db_now w' = db_now w"

lemma same_rows_refl [simp]: "same_rows w w"
  by (simp add: same_rows_def)

lemma same_rows_only: "only_rng w w' \<Longrightarrow> same_rows w w'"
  using only_rng_fields(2) by (auto simp: same_rows_def)

lemma same_rows_trans: "same_rows a b \<Longrightarrow> same_rows b c \<Longrightarrow> same_rows a c"
  by (simp add: same_rows_def)

lemma same_rows_abs: "same_rows w w' \<Longrightarrow>
    abs_sessions s w' = abs_sessions s w \<and> pg_wf s w' = pg_wf s w \<and> clock w' = clock w \<and> db_now w' = db_now w"
  using abs_sessions_cong [of w' w s] pg_wf_cong [of w' w s] by (auto simp: same_rows_def)

lemma stepped_failed: "pg_wf s w \<Longrightarrow> same_rows w w' \<Longrightarrow> stepped s w q Failed w'"
  using same_rows_abs by (auto simp: stepped_def intro: session_step.failed)

lemma answer_failed: "\<not> errors_Is e ErrNoSession \<Longrightarrow> answer_session (Inl e) = Failed"
  by (simp add: answer_session_def)

text \<open>A statement that was executed, or whose failure left the table alone.\<close>

lemma pg_query_write:
  assumes "pg_query ctx st w = (r, w')"
  obtains (refused) e where "r = Inl e" "\<not> errors_Is e ErrNoSession" "same_rows w w'"
    | (executed) "sessions w' = snd (st (db_now w) (sessions w))" "clock w' = clock w" "db_now w' = db_now w"
      "r = fst (st (db_now w) (sessions w)) \<or> (\<exists>e. r = Inl e \<and> \<not> errors_Is e ErrNoSession)"
  using pg_query_answer [OF assms] pg_query_frame [OF assms] by (auto simp: same_rows_def)

abbreviation created :: "Store \<Rightarrow> NewSession \<Rightarrow> bytes \<Rightarrow> bytes \<Rightarrow> bytes \<Rightarrow> time \<Rightarrow> CreateSessionParams" where
  "created s ns i kd sealed x \<equiv> \<lparr>cs_ID = i, cs_Subject = ns_Subject ns, cs_KeyID = kd, cs_Payload = sealed,
     cs_AccessExpiresAt = x, cs_MaxSessionAge = pg_age s\<rparr>"

abbreviation created_payload :: "NewSession \<Rightarrow> pgPayload" where
  "created_payload ns \<equiv> \<lparr>pp_Version = pgPayloadV1, pp_Subject = ns_Subject ns, pp_Token = ns_Token ns,
     pp_IDToken = ns_IDToken ns\<rparr>"

text \<open>A creation fails before its statement, or comes to it with a sealed handle and payload.\<close>

lemma pg_Create_stages:
  assumes "pg_Create s ctx ns w = (r, w')" and "codec_sane (pg_json s)"
  obtains (early) e where "r = Inl e" "\<not> errors_Is e ErrNoSession" "same_rows w w'"
    | (statement) tok i v w2 sealed kd w3 rq where "ns_Token ns = Some tok" "same_rows w w2" "same_rows w w3"
      "sealPayload s i (created_payload ns) w2 = (Inr (sealed, kd), w3)"
      "pg_query ctx (CreateSession (created s ns i kd sealed (Expiry tok))) w3 = (rq, w')"
      "r = (case rq of Inl e \<Rightarrow> Inl (Errorf ''create the session row'' [e])
         | Inr (createdAt, expiresAt) \<Rightarrow> Inr (Some \<lparr>Handle = v, Subject = ns_Subject ns,
            st_Token = Some tok, IDToken = ns_IDToken ns,
            IssuedAt = createdAt, ExpiresAt = expiresAt, Stale = False\<rparr>))"
proof (cases "ns_Token ns")
  case None
  then show thesis
    using assms(1) by (intro early) (auto simp: pg_Create_def)
next
  case tok: (Some tok)
  obtain rh w1 where h: "rand_Read handleLength w = (rh, w1)" by (cases "rand_Read handleLength w")
  note o1 = same_rows_only [OF rand_Read_only [OF h]]
  show thesis
  proof (cases rh)
    case (Inl e)
    then show thesis
      using assms(1) h tok o1 by (intro early) (auto simp: pg_Create_def error_simps rand_Read_def split: if_splits)
  next
    case rh: (Inr handle)
    let ?i = "sha256_Sum256 handle"
    obtain rv w2 where v: "SealHandle (pg_sealer s) handle w1 = (rv, w2)" by (cases "SealHandle (pg_sealer s) handle w1")
    note o2 = same_rows_trans [OF o1 same_rows_only [OF SealHandle_only [OF v]]]
    obtain rp w3 where p: "sealPayload s ?i (created_payload ns) w2 = (rp, w3)"
      by (cases "sealPayload s ?i (created_payload ns) w2")
    note o3 = same_rows_trans [OF o2 same_rows_only [OF sealPayload_only [OF p]]]
    show thesis
    proof (cases rv; cases rp)
      fix hv sk
      assume "rv = Inr hv" and "rp = Inr sk"
      moreover obtain sealed kd where sk: "sk = (sealed, kd)" by (cases sk)
      ultimately show thesis
        using assms(1) tok h rh v p sk o2 o3
        by (intro statement [of tok w2 w3 ?i sealed kd
              "fst (pg_query ctx (CreateSession (created s ns ?i kd sealed (Expiry tok))) w3)" hv])
          (auto simp: pg_Create_def pg_age_def split: prod.splits sum.splits)
    qed (use assms(1) tok h rh v p o2 o3 seal_errors(1) [of "pg_sealer s" handle w1]
        seal_errors(2) [of s ?i "created_payload ns" w2, OF _ assms(2)] in \<open>auto intro!: early simp: pg_Create_def error_simps\<close>)
  qed
qed

lemma begin_stepped:
  assumes "pg_Create s ctx ns w = (r, w')" and wf: "pg_wf s w" and "codec_sane (pg_json s)" and "writable s w (Begin ns)"
  shows "stepped s w (Begin ns) (answer_session r) w'"
  using assms(1,3)
proof (cases rule: pg_Create_stages)
  case (early e)
  then show ?thesis
    using stepped_failed [OF wf] by (simp add: answer_failed)
next
  case (statement tok i v w2 sealed kd w3 rq)
  let ?arg = "created s ns i kd sealed (Expiry tok)"
  have w3: "sessions w3 = sessions w" "clock w3 = clock w" "db_now w3 = db_now w" "clock w2 = clock w"
    using statement(2,3) by (simp_all add: same_rows_def)
  have p: "openPayload s (clock w) (cs_ID ?arg) (cs_Payload ?arg) = Inr (created_payload ns)"
    using openPayload_sealPayload [OF _ statement(4), of "clock w"] wf assms(4) w3 statement(1)
    by (simp add: pg_wf_def writable_def)
  from statement(5) show ?thesis
  proof (cases rule: pg_query_write)
    case (refused e)
    then show ?thesis
      using stepped_failed [OF wf same_rows_trans [OF statement(3)]] statement(6) by (simp add: answer_failed error_simps)
  next
    case executed
    show ?thesis
    proof (cases "CreateSession ?arg (db_now w) (sessions w)")
      case (Pair rs tbl')
      consider e where "rs = Inl e" "tbl' = sessions w" "\<not> errors_Is e ErrNoSession"
        | "rs = Inr (db_now w, db_now w + pg_age s)"
        using Pair by (auto simp: CreateSession_def error_simps split: if_splits)
      then show ?thesis
      proof cases
        case 1
        then have "same_rows w w'" and "\<exists>e. rq = Inl e \<and> \<not> errors_Is e ErrNoSession"
          using executed w3 Pair by (auto simp: same_rows_def)
        then show ?thesis
          using stepped_failed [OF wf] statement(6) by (auto simp: answer_failed error_simps)
      next
        case 2
        note m = CreateSession_map [OF _ Pair [unfolded 2] p]
        have "session_step (db_now w) (pg_age s) (abs_sessions s w) (Begin ns)
            (Found \<lparr>c_Subject = ns_Subject ns, c_Token = Some tok, c_IDToken = ns_IDToken ns, c_IssuedAt = db_now w\<rparr>
              (db_now w + pg_age s)) (abs_sessions s w')" and "pg_wf s w'"
          using m wf executed w3 Pair statement(1)
          by (auto simp: abs_sessions_def pg_wf_def intro!: session_step.begun)
        then show ?thesis
          using executed(2-4) Pair 2 w3 statement(6)
          by (auto simp: stepped_def answer_session_def content_def error_simps intro: session_step.unanswered)
      qed
    qed
  qed
qed
lemma look_stepped:
  assumes "pg_Get s ctx h w = (r, w')" and wf: "pg_wf s w"
  shows "stepped s w (Look h) (answer_session r) w'"
proof -
  note g = pg_Get_named [OF assms(1)]
  have rows: "same_rows w w'"
    using g by (simp add: same_rows_def)
  show ?thesis
  proof (cases r)
    case (Inl e)
    show ?thesis
    proof (cases "errors_Is e ErrNoSession")
      case True
      then have "session_step (db_now w) (pg_age s) (abs_sessions s w) (Look (handle_name s w h)) Absent (abs_sessions s w)"
        using g Inl by (intro session_step.not_found) simp
      then show ?thesis
        using True Inl same_rows_abs [OF rows] wf by (simp add: answer_session_def stepped_def)
    qed (use Inl stepped_failed [OF wf rows] in \<open>simp add: answer_failed\<close>)
  next
    case (Inr t)
    then show ?thesis
      using g same_rows_abs [OF rows] wf
      by (auto simp: answer_session_def stepped_def named_def intro!: session_step.looked split: option.splits)
  qed
qed

lemma replace_stepped:
  assumes "pg_Update s ctx h (Some tok) w = (r, w')" and wf: "pg_wf s w" and sane: "codec_sane (pg_json s)"
    and writable: "writable s w (Replace h tok)"
  shows "stepped s w (Replace h tok) (answer_session r) w'"
proof -
  obtain rg w1 where get: "pg_Get s ctx h w = (rg, w1)" by (cases "pg_Get s ctx h w")
  note g = pg_Get_named [OF get]
  have rows1: "same_rows w w1"
    using g by (simp add: same_rows_def)
  show ?thesis
  proof (cases rg)
    case (Inl e)
    then have r: "r = Inl e" "w' = w1"
      using assms(1) get by (simp_all add: pg_Update_def)
    show ?thesis
    proof (cases "errors_Is e ErrNoSession")
      case True
      then have "session_step (db_now w) (pg_age s) (abs_sessions s w) (Replace (handle_name s w h) tok) Absent (abs_sessions s w)"
        using g Inl by (intro session_step.not_replaced) simp
      then show ?thesis
        using True r same_rows_abs [OF rows1] wf by (simp add: answer_session_def stepped_def)
    qed (use r stepped_failed [OF wf rows1] in \<open>simp add: answer_failed\<close>)
  next
    case (Inr ot)
    then obtain ses i where rg: "rg = Inr (Some ses)" and i: "handle_name s w h = Some i"
      and abs: "abs_sessions s w i = Some (content ses, ExpiresAt ses)"
      using g by (auto split: option.splits)
    obtain cur where row: "rowID s (clock w1) h = Inr (i, cur)"
      using i g by (auto simp: handle_name_def split: sum.splits prod.splits)
    let ?p = "\<lparr>pp_Version = pgPayloadV1, pp_Subject = Subject ses, pp_Token = Some tok, pp_IDToken = IDToken ses\<rparr>"
    obtain rp w2 where p: "sealPayload s i ?p w1 = (rp, w2)" by (cases "sealPayload s i ?p w1")
    note rows2 = same_rows_trans [OF rows1 same_rows_only [OF sealPayload_only [OF p]]]
    show ?thesis
    proof (cases rp)
      case (Inl e)
      then have "r = Inl e" "w' = w2"
        using assms(1) get rg row p by (auto simp: pg_Update_def)
      then show ?thesis
        using stepped_failed [OF wf rows2] seal_errors(2) [OF p [unfolded Inl] sane] by (simp add: answer_failed)
    next
      case (Inr sk)
      obtain sealed kd where rp: "rp = Inr (sealed, kd)" using Inr by (cases sk) simp
      let ?st = "UpdateSession kd sealed (Expiry tok) i"
      obtain rq where q: "pg_query ctx ?st w2 = (rq, w')" and r: "r = (case rq of
          Inl e \<Rightarrow> Inl (Errorf ''write the session row'' [e])
        | Inr rows \<Rightarrow> if rows = 0 then Inl (Errorf ''the session was removed while it was being updated''
             [Sentinel ErrNoSession]) else Inr (Some (ses\<lparr>st_Token := Some tok\<rparr>)))"
        using assms(1) by (cases "pg_query ctx ?st w2")
          (auto simp: pg_Update_def get rg row p rp split: sum.splits if_splits)
      have w2: "sessions w2 = sessions w" "clock w2 = clock w" "db_now w2 = db_now w" "clock w1 = clock w"
        using rows1 rows2 by (simp_all add: same_rows_def)
      have "openPayload s (clock w) i sealed = Inr ?p"
        using openPayload_sealPayload [OF _ p [unfolded rp], of "clock w"] wf w2 writable abs i
        by (simp add: pg_wf_def writable_def named_def pg_payload_of_def content_def)
      note m = UpdateSession_map [OF _ abs [unfolded abs_sessions_def] this, of kd "Expiry tok"]
      from q show ?thesis
      proof (cases rule: pg_query_write)
        case (refused e)
        then show ?thesis
          using stepped_failed [OF wf same_rows_trans [OF rows2]] by (simp add: r answer_failed error_simps)
      next
        case executed
        have "session_step (db_now w) (pg_age s) (abs_sessions s w) (Replace (Some i) tok)
            (Found ((content ses)\<lparr>c_Token := Some tok\<rparr>) (ExpiresAt ses)) (abs_sessions s w')" and "pg_wf s w'"
          using m wf executed w2 abs
          by (auto simp: abs_sessions_def pg_wf_def content_def intro!: session_step.replaced)
        moreover have "rq = Inr 1 \<or> (\<exists>e. rq = Inl e \<and> \<not> errors_Is e ErrNoSession)"
          using executed(4) m wf w2 by (simp add: pg_wf_def content_def)
        ultimately show ?thesis
          using i executed(2,3) w2 by (auto simp: r stepped_def answer_session_def content_def error_simps intro: session_step.unanswered)
      qed
    qed
  qed
qed

text \<open>A statement that only removes rows, and what its removal is in the map.\<close>

lemma delete_stepped:
  assumes "pg_query ctx st w = (rq, w')" and wf: "pg_wf s w"
    and "fst (st (db_now w) (sessions w)) = Inr n"
    and "wf_table s (clock w) (snd (st (db_now w) (sessions w)))"
    and "session_step (db_now w) (pg_age s) (abs_sessions s w) (map_request (handle_name s w) q) Done
      (abs_table s (clock w) (db_now w) (snd (st (db_now w) (sessions w))))"
  shows "stepped s w q (case rq of Inl e \<Rightarrow> Failed | Inr _ \<Rightarrow> Done) w'"
  using assms(1)
proof (cases rule: pg_query_write)
  case (refused e)
  then show ?thesis
    using stepped_failed [OF wf] by simp
next
  case executed
  then show ?thesis
    using wf assms(3-5) by (auto simp: stepped_def pg_wf_def abs_sessions_def intro: session_step.unanswered)
qed

lemma end_stepped:
  assumes "pg_Delete s ctx h w = (r, w')" and wf: "pg_wf s w"
  shows "stepped s w (End h) (answer_done r) w'"
proof (cases "rowID s (clock w) h")
  case (Inl e)
  then show ?thesis
    using assms rowID_Inl [OF Inl]
    by (auto simp: pg_Delete_def answer_done_def stepped_def handle_name_def intro: session_step.unknown)
next
  case (Inr ic)
  obtain i cur where ic: "ic = (i, cur)" by (cases ic)
  obtain rq where q: "pg_query ctx (DeleteSession i) w = (rq, w')" and "answer_done r = (case rq of Inl e \<Rightarrow> Failed | Inr _ \<Rightarrow> Done)"
    using assms(1) by (auto simp: pg_Delete_def Inr ic answer_done_def split: prod.splits sum.splits)
  moreover have "stepped s w (End h) (case rq of Inl e \<Rightarrow> Failed | Inr _ \<Rightarrow> Done) w'"
  proof (rule delete_stepped [OF q wf])
    show "fst (DeleteSession i (db_now w) (sessions w)) = Inr (fst (sql_delete (\<lambda>r. row_id r = i) (sessions w)))"
      by (simp add: DeleteSession_def)
    show "wf_table s (clock w) (snd (DeleteSession i (db_now w) (sessions w)))"
      using DeleteSession_map(1) wf by (simp add: pg_wf_def)
    show "session_step (db_now w) (pg_age s) (abs_sessions s w) (map_request (handle_name s w) (End h)) Done
      (abs_table s (clock w) (db_now w) (snd (DeleteSession i (db_now w) (sessions w))))"
      using DeleteSession_map(2) wf
      by (simp add: pg_wf_def handle_name_def Inr ic abs_sessions_def session_step.ended)
  qed
  ultimately show ?thesis by simp
qed

lemma end_subject_stepped:
  assumes "pg_DeleteSubject s ctx u w = (r, w')" and wf: "pg_wf s w"
  shows "stepped s w (EndSubject u) (answer_done r) w'"
proof (cases "u = []")
  case True
  then show ?thesis
    using assms stepped_failed [OF wf, of w] by (auto simp: pg_DeleteSubject_def answer_done_def)
next
  case False
  obtain rq where q: "pg_query ctx (DeleteSubjectSessions u) w = (rq, w')"
    and "answer_done r = (case rq of Inl e \<Rightarrow> Failed | Inr _ \<Rightarrow> Done)"
    using assms(1) False by (auto simp: pg_DeleteSubject_def answer_done_def split: prod.splits sum.splits)
  moreover have "stepped s w (EndSubject u) (case rq of Inl e \<Rightarrow> Failed | Inr _ \<Rightarrow> Done) w'"
  proof (rule delete_stepped [OF q wf])
    show "fst (DeleteSubjectSessions u (db_now w) (sessions w)) = Inr (fst (sql_delete (\<lambda>r. row_subject r = u) (sessions w)))"
      by (simp add: DeleteSubjectSessions_def)
    show "wf_table s (clock w) (snd (DeleteSubjectSessions u (db_now w) (sessions w)))"
      using DeleteSubjectSessions_map(1) wf by (simp add: pg_wf_def)
    show "session_step (db_now w) (pg_age s) (abs_sessions s w) (map_request (handle_name s w) (EndSubject u)) Done
      (abs_table s (clock w) (db_now w) (snd (DeleteSubjectSessions u (db_now w) (sessions w))))"
      using DeleteSubjectSessions_map(2) wf False
      by (simp add: pg_wf_def abs_sessions_def session_step.subject_ended)
  qed
  ultimately show ?thesis by simp
qed

lemma sweep_stepped:
  assumes "pg_DeleteExpired s ctx n w = (r, w')" and wf: "pg_wf s w"
  shows "stepped s w (Sweep n) (answer_done r) w'"
proof (cases "batchSize n")
  case (Inl e)
  then have "r = Inl e" "w' = w"
    using assms(1) by (auto simp: pg_DeleteExpired_def)
  then show ?thesis
    using stepped_failed [OF wf, of w] by (simp add: answer_done_def)
next
  case (Inr b)
  let ?st = "DeleteExpiredSessions (locked_rows w) (nat b)"
  obtain rq where q: "pg_query ctx ?st w = (rq, w')"
    and "answer_done r = (case rq of Inl e \<Rightarrow> Failed | Inr _ \<Rightarrow> Done)"
    using assms(1) Inr by (auto simp: pg_DeleteExpired_def answer_done_def split: prod.splits sum.splits)
  moreover have "stepped s w (Sweep n) (case rq of Inl e \<Rightarrow> Failed | Inr _ \<Rightarrow> Done) w'"
  proof (rule delete_stepped [OF q wf])
    show "fst (?st (db_now w) (sessions w)) = Inr (fst (sql_delete (\<lambda>r. row_id r \<in>
        set (expired_batch (locked_rows w) (nat b) (db_now w) (sessions w))) (sessions w)))"
      by (simp add: DeleteExpiredSessions_def)
    show "wf_table s (clock w) (snd (?st (db_now w) (sessions w)))"
      using DeleteExpiredSessions_map(1) wf by (simp add: pg_wf_def)
    show "session_step (db_now w) (pg_age s) (abs_sessions s w) (map_request (handle_name s w) (Sweep n)) Done
      (abs_table s (clock w) (db_now w) (snd (?st (db_now w) (sessions w))))"
      using DeleteExpiredSessions_map(2) wf
      by (simp add: pg_wf_def abs_sessions_def session_step.swept)
  qed
  ultimately show ?thesis by simp
qed

lemma perform_stepped:
  assumes "perform s ctx q w = (a, w')" and "pg_wf s w" and "codec_sane (pg_json s)" and "writable s w q"
  shows "stepped s w q a w'"
  using assms
  by (cases q) (auto simp: apfst_def map_prod_def begin_stepped look_stepped replace_stepped end_stepped
      end_subject_stepped sweep_stepped split: prod.splits)

section \<open>Histories\<close>

text \<open>Between requests time passes, for the process and for the database; what its random source and
  its connection have in store is open.  In the map what has ended goes.\<close>

definition pg_passes :: "'a pg_world_scheme \<Rightarrow> 'a pg_world_scheme \<Rightarrow> bool" where
  "pg_passes w w' \<longleftrightarrow> sessions w' = sessions w \<and> clock w \<le> clock w' \<and> db_now w \<le> db_now w'"

definition expire :: "time \<Rightarrow> session_map \<Rightarrow> session_map" where
  "expire now m = (\<lambda>i. case m i of Some (c, e) \<Rightarrow> if e \<le> now then None else Some (c, e) | None \<Rightarrow> None)"

inductive session_history ::
  "duration \<Rightarrow> session_map \<Rightarrow> time \<Rightarrow> (bytes option request \<times> answer) list \<Rightarrow> session_map \<Rightarrow> time \<Rightarrow> bool"
  for age m0 t0 where
  started: "session_history age m0 t0 [] m0 t0"
| asked: "session_history age m0 t0 tr m t \<Longrightarrow> session_step t age m q a m' \<Longrightarrow>
     session_history age m0 t0 (tr @ [(q, a)]) m' t"
| passed: "session_history age m0 t0 tr m t \<Longrightarrow> t \<le> t' \<Longrightarrow>
     session_history age m0 t0 tr (expire t' m) t'"

inductive pg_history ::
  "Store \<Rightarrow> 'a pg_world_scheme \<Rightarrow> (bytes option request \<times> answer) list \<Rightarrow> 'a pg_world_scheme \<Rightarrow> bool"
  for s w0 where
  started: "pg_history s w0 [] w0"
| asked: "pg_history s w0 tr w \<Longrightarrow> writable s w q \<Longrightarrow> perform s ctx q w = (a, w') \<Longrightarrow>
     pg_history s w0 (tr @ [(map_request (handle_name s w) q, a)]) w'"
| passed: "pg_history s w0 tr w \<Longrightarrow> pg_passes w w' \<Longrightarrow> pg_history s w0 tr w'"

lemma openPayload_later:
  assumes "keyring_inv (sealer_keyring (pg_sealer s))" and "sealingKey (Some (sealer_keyring (pg_sealer s))) t \<noteq> None"
    and "t \<le> t'"
  shows "openPayload s t' i raw = openPayload s t i raw"
proof -
  obtain a b where "sealingKey (Some (sealer_keyring (pg_sealer s))) t = Some a"
    "sealingKey (Some (sealer_keyring (pg_sealer s))) t' = Some b"
    using assms sealingKey_monotone_fact by blast
  then show ?thesis
    by (auto simp: openPayload_def OpenPayload_def openKindRaw_def Let_def split: option.split sum.split)
qed

definition key_ready :: "Store \<Rightarrow> 'a pg_world_scheme \<Rightarrow> bool" where
  "key_ready s w \<longleftrightarrow> sealingKey (Some (sealer_keyring (pg_sealer s))) (clock w) \<noteq> None"

lemma abs_later:
  assumes k: "keyring_inv (sealer_keyring (pg_sealer s))" and "key_ready s w" and "pg_passes w w'"
  shows "openPayload s (clock w') i raw = openPayload s (clock w) i raw" "key_ready s w'"
    "abs_sessions s w' = expire (db_now w') (abs_sessions s w)"
proof -
  have le: "clock w \<le> clock w'" "db_now w \<le> db_now w'" and ses: "sessions w' = sessions w"
    using assms(3) by (simp_all add: pg_passes_def)
  have o: "openPayload s (clock w') i raw = openPayload s (clock w) i raw" for i raw
    by (rule openPayload_later [OF k _ le(1)]) (use assms(2) in \<open>simp add: key_ready_def\<close>)
  then show "openPayload s (clock w') i raw = openPayload s (clock w) i raw" .
  show "key_ready s w'"
    using assms(2) sealingKey_monotone_fact [OF k _ le(1)] by (auto simp: key_ready_def)
  show "abs_sessions s w' = expire (db_now w') (abs_sessions s w)"
    using le(2) by (auto simp: fun_eq_iff expire_def abs_sessions_def abs_table_def ses row_session_def o
        split: sum.split bind_splits)
qed

lemma pass_map:
  assumes "pg_wf s w" and "key_ready s w" and "pg_passes w w'"
  shows "pg_wf s w' \<and> key_ready s w' \<and> abs_sessions s w' = expire (db_now w') (abs_sessions s w)"
proof -
  have k: "keyring_inv (sealer_keyring (pg_sealer s))"
    using assms(1) by (simp add: pg_wf_def)
  have "pg_wf s w'"
    using assms(1,3) by (simp add: pg_wf_def wf_table_def filed_def pg_passes_def abs_later(1) [OF k assms(2,3)])
  then show ?thesis
    using abs_later(2,3) [OF k assms(2,3)] by blast
qed

text \<open>The JSON of the source asks for this only: no error of the tokens' JSON says there is no session, the
  tokens are read back, and the subject and the ID token are UTF-8.\<close>

lemma codec_sane_pg_codec:
  assumes "\<And>t e. tc_Marshal c t = Inl e \<Longrightarrow> \<not> errors_Is e ErrNoSession"
  shows "codec_sane (pg_codec c)"
  using assms by (auto simp: codec_sane_def pg_codec_def struct_codec_def pgPayload_json_def marshal_token_def
      map_sum_def split: sum.splits option.splits)

lemma writable_pg_codec:
  assumes "pg_json s = pg_codec c"
  shows "\<lbrakk>\<And>t. ns_Token ns = Some t \<Longrightarrow> token_faithful c t; ValidString (ns_Subject ns); ValidString (ns_IDToken ns)\<rbrakk> \<Longrightarrow>
      writable s w (Begin ns)"
    and "\<lbrakk>token_faithful c tok; \<And>i d e. abs_sessions s w i = Some (d, e) \<Longrightarrow> ValidString (c_Subject d) \<and> ValidString (c_IDToken d)\<rbrakk> \<Longrightarrow>
      writable s w (Replace h tok)"
  by (auto simp: writable_def assms named_def pg_payload_of_def pgPayloadV1_def bind_eq_Some_conv
      split: option.splits intro!: pg_codec_faithful)

text \<open>C6. Every history of the store is a history of the map: whatever requests are made, in whatever order
  and however much time passes between them, and whatever the database does with the statements,
  the answers are those of the map, but for those that were lost.\<close>

theorem pg_store_refines:
  assumes "pg_history s w0 tr w" and "pg_wf s w0" and "key_ready s w0" and "codec_sane (pg_json s)"
  shows "session_history (pg_age s) (abs_sessions s w0) (db_now w0) tr (abs_sessions s w) (db_now w)"
proof -
  have "pg_wf s w \<and> key_ready s w \<and>
      session_history (pg_age s) (abs_sessions s w0) (db_now w0) tr (abs_sessions s w) (db_now w)"
    using assms(1)
  proof induction
    case started
    then show ?case
      using assms(2,3) by (simp add: session_history.started)
  next
    case (asked tr w q ctx a w')
    have "stepped s w q a w'"
      using perform_stepped [OF asked(3) _ assms(4) asked(2)] asked.IH by blast
    then show ?case
      using asked.IH session_history.asked [of "pg_age s" "abs_sessions s w0" "db_now w0" tr "abs_sessions s w" "db_now w"]
      by (auto simp: stepped_def key_ready_def)
  next
    case (passed tr w w')
    then show ?case
      using pass_map [of s w w'] session_history.passed [of "pg_age s" "abs_sessions s w0" "db_now w0" tr
          "abs_sessions s w" "db_now w" "db_now w'"]
      by (auto simp: pg_passes_def)
  qed
  then show ?thesis by blast
qed

lemma pg_store_refines_witness:
  "\<exists>c e (w :: pg_world). session_history (pg_age sample_pg) Map.empty 150 [(Begin sample_pg_session, Found c e)]
     (abs_sessions sample_pg w) (db_now w)"
proof -
  let ?w = "sample_pg_world 150 (replicate 80 9) []"
  obtain st w' where new: "pg_Create sample_pg Background sample_pg_session ?w = (Inr (Some st), w')"
    by (rule sample_pg_Create)
  have "pg_history sample_pg ?w ([] @ [(map_request (handle_name sample_pg ?w) (Begin sample_pg_session),
      Found (content st) (ExpiresAt st))]) w'"
    using new
    by (intro pg_history.asked [OF pg_history.started, where ctx = Background])
      (simp_all add: writable_def faithful_def sample_pg_def sample_pg_codec_def sample_pg_session_def
        pgPayloadV1_def answer_session_def)
  moreover have "pg_wf sample_pg ?w" "key_ready sample_pg ?w" "codec_sane (pg_json sample_pg)"
    using sample_pg_inv
    by (simp_all add: pg_wf_def wf_table_def table_inv_def sample_pg_world_def key_ready_def sample_pg_def
        sample_sealer_def sealingKey_sample codec_sane_def sample_pg_codec_def)
  ultimately have "session_history (pg_age sample_pg) (abs_sessions sample_pg ?w) (db_now ?w)
      [(Begin sample_pg_session, Found (content st) (ExpiresAt st))] (abs_sessions sample_pg w') (db_now w')"
    using pg_store_refines by fastforce
  moreover have "abs_sessions sample_pg ?w = Map.empty" "db_now ?w = 150"
    by (simp_all add: abs_sessions_def abs_table_def sample_pg_world_def fun_eq_iff)
  ultimately show ?thesis by auto
qed

end
