(* ===== verification/FleetSpec.thy ===== *)
theory FleetSpec
  imports PgFleet PgSpec
begin

text \<open>
  The fleet of theory \<open>PgFleet\<close> seen through the map of theory \<open>PgSpec\<close>.  A refresh takes many
  steps, on the row, at the provider and in the process, and any number of refreshes of a session
  are interleaved.  In the map each one that succeeds is a single step, at the moment of its
  write-back: it replaces the very token it posted, and nothing else of the session.
\<close>

section \<open>The map under a fleet\<close>

text \<open>What happens to the map: nothing, sessions go, a session begins, or the token of one is
  replaced by the token it was exchanged for.\<close>

datatype fleet_event = Stays | Gone | Begun bytes | Renewed bytes "Token option" Token

inductive shared_step :: "session_map \<Rightarrow> fleet_event \<Rightarrow> session_map \<Rightarrow> bool" for m where
  stays: "shared_step m Stays m"
| gone: "m' \<subseteq>\<^sub>m m \<Longrightarrow> shared_step m Gone m'"
| begun: "m i = None \<Longrightarrow> shared_step m (Begun i) (m(i \<mapsto> (c, e)))"
| renewed: "m i = Some (c, e) \<Longrightarrow> shared_step m (Renewed i (c_Token c) tok) (m(i \<mapsto> (c\<lparr>c_Token := Some tok\<rparr>, e)))"

section \<open>What a call holds\<close>

text \<open>The row a call took the lease of, until its exchange has been written back.\<close>

definition lease_of :: "refresh_call \<Rightarrow> HowdahSession option" where
  "lease_of c =
     (case rc_pc c of
        Exchanging n l \<Rightarrow> Some l
      | Writing n l p t \<Rightarrow> Some l
      | _ \<Rightarrow> None)"

text \<open>As long as the row is there its payload is the one the call took, and the payload the call is
  about to write back is that one with another token.\<close>

definition held :: "Store \<Rightarrow> pg_world \<Rightarrow> refresh_call \<Rightarrow> bool" where
  "held s w c \<longleftrightarrow>
     (\<forall>l r. lease_of c = Some l \<and> lookup_row (sessions w) (rc_id c) = Some r \<longrightarrow> row_payload r = row_payload l) \<and>
     (\<forall>n l p t. rc_pc c = Writing n l p t \<longrightarrow> openPayload s (clock w) (rc_id c) (row_payload l) = Inr p)"

definition fleet_held :: "Store \<Rightarrow> fleet \<Rightarrow> bool" where
  "fleet_held s f \<longleftrightarrow> (\<forall>i c. fl_calls f i = Some c \<longrightarrow> held s (fl_world f) c)"

lemma fleet_heldD: "fleet_held s f \<Longrightarrow> fl_calls f i = Some c \<Longrightarrow> held s (fl_world f) c"
  by (simp add: fleet_held_def)

lemma lease_of_nonce: "nonce_of c = None \<Longrightarrow> lease_of c = None" "rc_pc c = Writing n l p t \<Longrightarrow> lease_of c = Some l"
  by (auto simp: lease_of_def nonce_of_def split: refresh_pc.splits)

lemma held_idle: "lease_of c = None \<Longrightarrow> held s w c"
  using lease_of_nonce(2) by (fastforce simp: held_def)

text \<open>A payload that opens goes on opening.\<close>

lemma openPayload_key: "openPayload s t i raw = Inr p \<Longrightarrow> sealingKey (Some (sealer_keyring (pg_sealer s))) t \<noteq> None"
  by (auto simp: openPayload_def OpenPayload_def openKindRaw_def split: option.splits)

lemma openPayload_stays:
  assumes "keyring_inv (sealer_keyring (pg_sealer s))" and "openPayload s t i raw = Inr p" and "t \<le> t'"
  shows "openPayload s t' i raw = Inr p"
  using openPayload_later [OF assms(1) openPayload_key [OF assms(2)] assms(3)] assms(2) by simp

lemma held_keep:
  assumes "held s w c" and "keyring_inv (sealer_keyring (pg_sealer s))" and "clock w \<le> clock w'"
    and "\<And>r'. lookup_row (sessions w') (rc_id c) = Some r' \<Longrightarrow>
      \<exists>r. lookup_row (sessions w) (rc_id c) = Some r \<and> row_payload r' = row_payload r"
  shows "held s w' c"
  using assms(1,4) openPayload_stays [OF assms(2) _ assms(3)] unfolding held_def by metis

section \<open>The steps of a call\<close>

lemma step_clock: "refresh_step s (\<lambda>ctx tok w. (answer, w)) c w = (c', w') \<Longrightarrow> clock w' = clock w"
proof (cases "rc_pc c")
  case (Writing n l p t)
  then show "refresh_step s (\<lambda>ctx tok w. (answer, w)) c w = (c', w') \<Longrightarrow> clock w' = clock w"
    by (auto simp: refresh_step_def refresh_write_def Let_def
        split: prod.splits sum.splits if_splits dest!: pg_query_same only_rng_fields(1) [OF sealPayload_only])
qed (auto simp: refresh_step_def refresh_top_def refresh_lease_def refresh_wake_def refresh_exchange_def
    refresh_failed_def markRefreshFailed_def Let_def
    split: prod.splits sum.splits option.splits if_splits dest!: pg_query_same rand_Read_same)

lemma step_writing:
  assumes "refresh_step s ex c w = (c', w')" and "rc_pc c = Writing n l p tok"
  shows "sessions w' = sessions w \<or>
    (\<exists>sealed kd w1. sealPayload s (rc_id c) (p\<lparr>pp_Token := Some tok\<rparr>) w = (Inr (sealed, kd), w1) \<and>
       sessions w' = snd (CommitRefresh sealed kd (Expiry tok) (rc_id c) n (db_now w) (sessions w)))"
  using assms by (auto simp: refresh_step_def refresh_write_def Let_def
      split: if_splits prod.splits sum.splits dest!: pg_query_cases dest: sealPayload_same)

lemma step_failing:
  assumes "refresh_step s ex c w = (c', w')" and "rc_pc c = Failing n e"
  shows "sessions w' = sessions w \<or> sessions w' = snd (FailRefresh (rc_id c) n (db_now w) (sessions w))"
  using assms by (auto simp: refresh_step_def refresh_failed_def markRefreshFailed_def Let_def
      split: if_splits prod.splits sum.splits dest!: pg_query_cases)

section \<open>The invariant\<close>

lemma held_step_self:
  assumes inv: "fleet_inv s f" and h: "fleet_held s f" and c: "fl_calls f i = Some c"
    and step: "refresh_step s (\<lambda>ctx tok w. (answer, w)) c (fl_world f) = (c', w')"
  shows "held s w' c'"
proof (cases rule: call_phase [of c])
  case lease
  note l = step_lease [OF step lease fleet_invD(1) [OF inv]]
  show ?thesis
  proof (cases "nonce_of c' = None")
    case False
    then show ?thesis
      using l by (auto simp: held_def lease_of_def lookup_TakeRefreshLease)
  qed (simp add: held_idle lease_of_nonce)
next
  case (exchange n l)
  then have x: "refresh_exchange s (\<lambda>ctx tok w. (answer, w)) c n l (fl_world f) = (c', w')"
    using step by (simp add: refresh_step_def)
  note own = fleet_heldD [OF h c]
  show ?thesis
    using x own exchange
    by (auto simp: held_def lease_of_def refresh_exchange_def split: prod.splits sum.splits option.splits)
next
  case (fenced n)
  then show ?thesis
    using step_fenced [OF step fenced] by (simp add: held_idle lease_of_nonce)
next
  case idle
  then show ?thesis
    using step_idle [OF step idle] by (simp add: held_idle lease_of_nonce)
qed

lemma held_step_other:
  assumes inv: "fleet_inv s f" and cov: "covered s" and kr: "keyring_inv (sealer_keyring (pg_sealer s))"
    and h: "fleet_held s f" and c: "fl_calls f i = Some c" and d: "fl_calls f j = Some d" "i \<noteq> j"
    and step: "refresh_step s (\<lambda>ctx tok w. (answer, w)) c (fl_world f) = (c', w')"
  shows "held s w' d"
proof (cases "nonce_of d = None")
  case False
  show ?thesis
    by (rule held_keep [OF fleet_heldD [OF h d(1)] kr])
      (use step_other_row [OF inv cov c d False step] step_clock [OF step] in auto)
qed (simp add: held_idle lease_of_nonce)

lemma fleet_held_world:
  assumes "fleet_held s f" and "\<And>i c. fl_calls f i = Some c \<Longrightarrow> held s w' c"
  shows "fleet_held s (f\<lparr>fl_world := w'\<rparr>)"
  using assms by (simp add: fleet_held_def)

text \<open>A step that is no call's leaves the rows of the calls alone, or removes them.\<close>

lemma fleet_held_step:
  assumes "fleet_step s f f'" and inv: "fleet_inv s f" and cov: "covered s"
    and kr: "keyring_inv (sealer_keyring (pg_sealer s))" and h: "fleet_held s f"
  shows "fleet_held s f'"
  using assms(1)
proof cases
  case (Begin i ctx t c)
  have "nonce_of c = None"
    using Begin(3) by (auto simp: refresh_start_def nonce_of_def split: option.splits sum.splits prod.splits)
  then show ?thesis
    using h by (simp add: Begin(1) fleet_held_def held_idle lease_of_nonce)
next
  case (Step i c answer c' w')
  then show ?thesis
    using held_step_self [OF inv h Step(2,5)] held_step_other [OF inv cov kr h Step(2) _ _ Step(5)]
    by (auto simp: fleet_held_def)
next
  case (Delete p)
  show ?thesis
    unfolding Delete
    by (intro fleet_held_world [OF h] held_keep [OF fleet_heldD [OF h] kr])
      (auto simp: lookup_sql_delete [OF fleet_invD(1) [OF inv]] split: option.splits if_splits)
next
  case (Create arg)
  show ?thesis
    unfolding Create(1)
    by (intro fleet_held_world [OF h] held_keep [OF fleet_heldD [OF h] kr])
      (simp_all add: lookup_CreateSession_other Create(2))
next
  case (Tick d)
  then show ?thesis
    by (auto intro!: fleet_held_world [OF h] held_keep [OF fleet_heldD [OF h] kr])
next
  case (Crash i)
  then show ?thesis
    using h by (simp add: fleet_held_def)
qed (auto intro!: fleet_held_world [OF h] held_keep [OF fleet_heldD [OF h] kr])

lemma fleet_reachable_held:
  assumes "fleet_reachable s f" and "covered s" and "keyring_inv (sealer_keyring (pg_sealer s))"
  shows "fleet_held s f"
  using assms(1)
proof induction
  case (Next f f')
  then show ?case
    using fleet_held_step [OF Next.hyps(2) fleet_reachable_inv [OF Next.hyps(1) assms(2)] assms(2,3)] by blast
qed (simp add: fleet_held_def)

section \<open>The map of a step\<close>

text \<open>A statement that changes no payload and no end of a session leaves the map as it was.\<close>

lemma abs_sessions_same:
  assumes "clock w' = clock w" and "db_now w' = db_now w"
    and "\<And>i. lookup_row (sessions w') i = map_option f (lookup_row (sessions w) i)"
    and "\<And>r. row_id (f r) = row_id r \<and> row_payload (f r) = row_payload r \<and>
      row_created_at (f r) = row_created_at r \<and> row_expires_at (f r) = row_expires_at r"
  shows "abs_sessions s w' = abs_sessions s w"
proof -
  have "row_session s now t (f r) = row_session s now t r" for now t r
    using assms(4) [of r] by (simp add: row_session_def row_content_def split: sum.split)
  then show ?thesis
    using assms(1-3) by (simp add: abs_sessions_def abs_table_def fun_eq_iff bind_map_option o_def)
qed

lemma abs_TakeRefreshLease:
  assumes "clock w' = clock w" and "db_now w' = db_now w"
    and "sessions w' = snd (TakeRefreshLease d n i sr sf now (sessions w))"
  shows "abs_sessions s w' = abs_sessions s w"
  using assms
  by (intro abs_sessions_same [where f = "\<lambda>r. if lease_guard i sr sf now r
      then r\<lparr>row_refresh_lease_until := Some (now + d), row_refresh_lease_nonce := Some n\<rparr> else r"])
    (simp_all add: lookup_TakeRefreshLease)

lemma abs_FailRefresh:
  assumes "clock w' = clock w" and "db_now w' = db_now w"
    and "sessions w' = snd (FailRefresh i n now (sessions w))"
  shows "abs_sessions s w' = abs_sessions s w"
  using assms
  by (intro abs_sessions_same [where f = "\<lambda>r. if holds_lease i n r
      then r\<lparr>row_refresh_failed_at := Some now, row_refresh_lease_until := None, row_refresh_lease_nonce := None\<rparr>
      else r"])
    (simp_all add: lookup_FailRefresh)

lemma abs_CreateSession:
  assumes "clock w' = clock w" and "db_now w' = db_now w"
    and "sessions w' = snd (CreateSession arg (db_now w) (sessions w))"
  shows "abs_sessions s w' = abs_sessions s w \<or>
    (abs_sessions s w (cs_ID arg) = None \<and>
     (\<exists>c e. abs_sessions s w' = (abs_sessions s w)(cs_ID arg \<mapsto> (c, e))))"
proof -
  have other: "abs_sessions s w' i = abs_sessions s w i" if "i \<noteq> cs_ID arg" for i
    using assms that by (simp add: abs_sessions_def abs_table_def lookup_CreateSession_other)
  show ?thesis
  proof (cases "abs_sessions s w' (cs_ID arg) = abs_sessions s w (cs_ID arg)")
    case True
    then have "abs_sessions s w' = abs_sessions s w"
      using other by (metis ext)
    then show ?thesis ..
  next
    case False
    have none: "lookup_row (sessions w) (cs_ID arg) = None"
      using False assms by (auto simp: CreateSession_def abs_sessions_def abs_table_def split: if_splits)
    then have "abs_sessions s w (cs_ID arg) = None"
      by (simp add: abs_sessions_def abs_table_def)
    moreover obtain x where "abs_sessions s w' (cs_ID arg) = Some x"
      using False calculation by auto
    ultimately show ?thesis
      using other by (cases x) (auto simp: fun_eq_iff)
  qed
qed

lemma commit_renews:
  assumes h: "held s w c" and pc: "rc_pc c = Writing n l p tok"
    and kr: "keyring_inv (sealer_keyring (pg_sealer s))"
    and sl: "sealPayload s (rc_id c) (p\<lparr>pp_Token := Some tok\<rparr>) w = (Inr (sealed, kd), w1)"
    and w': "sessions w' = snd (CommitRefresh sealed kd x (rc_id c) n (db_now w) (sessions w))"
      "clock w' = clock w" "db_now w' = db_now w"
    and codec: "faithful (pg_json s) (p\<lparr>pp_Token := Some tok\<rparr>)"
  shows "shared_step (abs_sessions s w) Stays (abs_sessions s w') \<or>
    shared_step (abs_sessions s w) (Renewed (rc_id c) (pp_Token p) tok) (abs_sessions s w')"
proof -
  let ?i = "rc_id c"
  have p: "openPayload s (clock w) ?i (row_payload l) = Inr p"
    using h pc by (simp add: held_def)
  have sealed: "openPayload s (clock w) ?i sealed = Inr (p\<lparr>pp_Token := Some tok\<rparr>)"
    by (rule openPayload_sealPayload [OF kr sl _ codec]) (use openPayload_token [OF p] in simp_all)
  have other: "abs_sessions s w' j = abs_sessions s w j" if "j \<noteq> ?i" for j
    using that w' by (auto simp: abs_sessions_def abs_table_def lookup_CommitRefresh holds_lease_def
        dest: lookup_row_Some split: bind_splits)
  show ?thesis
  proof (cases "\<exists>r. lookup_row (sessions w) ?i = Some r \<and> row_refresh_lease_nonce r = Some n \<and> db_now w < row_expires_at r")
    case True
    then obtain r where r: "lookup_row (sessions w) ?i = Some r" "row_refresh_lease_nonce r = Some n" "db_now w < row_expires_at r"
      by blast
    have "row_payload r = row_payload l" "row_id r = ?i"
      using h pc r(1) lookup_row_Some [OF r(1)] by (auto simp: held_def lease_of_def)
    then have "abs_sessions s w ?i = Some (row_content r p, row_expires_at r)"
      "abs_sessions s w' ?i = Some ((row_content r p)\<lparr>c_Token := Some tok\<rparr>, row_expires_at r)"
      using r p sealed w'
      by (simp_all add: abs_sessions_def abs_table_def lookup_CommitRefresh holds_lease_def row_session_def row_content_def)
    then have "abs_sessions s w' = (abs_sessions s w)(?i \<mapsto> ((row_content r p)\<lparr>c_Token := Some tok\<rparr>, row_expires_at r))"
      using other by (auto simp: fun_eq_iff)
    then show ?thesis
      using shared_step.renewed [of "abs_sessions s w" ?i "row_content r p" "row_expires_at r" tok]
        \<open>abs_sessions s w ?i = _\<close> by (simp add: row_content_def)
  next
    case False
    then have "abs_sessions s w' ?i = abs_sessions s w ?i"
      using w' by (auto simp: abs_sessions_def abs_table_def lookup_CommitRefresh holds_lease_def row_session_def
          split: bind_splits)
    then have "abs_sessions s w' = abs_sessions s w"
      using other by (metis ext)
    then show ?thesis
      using shared_step.stays by metis
  qed
qed

lemma call_step_map:
  assumes inv: "fleet_inv s f" and h: "fleet_held s f" and kr: "keyring_inv (sealer_keyring (pg_sealer s))"
    and c: "fl_calls f i = Some c" and step: "refresh_step s (\<lambda>ctx tok w. (answer, w)) c (fl_world f) = (c', w')"
    and codec: "\<forall>n l p tok. rc_pc c = Writing n l p tok \<longrightarrow> faithful (pg_json s) (p\<lparr>pp_Token := Some tok\<rparr>)"
  shows "shared_step (abs_sessions s (fl_world f)) Stays (abs_sessions s w') \<or>
    (\<exists>n l p tok. rc_pc c = Writing n l p tok \<and>
       shared_step (abs_sessions s (fl_world f)) (Renewed (rc_id c) (pp_Token p) tok) (abs_sessions s w'))"
proof -
  let ?w = "fl_world f"
  note t = step_clock [OF step]
  have stays: ?thesis if "abs_sessions s w' = abs_sessions s ?w"
    using shared_step.stays that by metis
  have keep: ?thesis if "db_now w' = db_now ?w" and "sessions w' = sessions ?w"
    using t that by (intro stays abs_sessions_cong) simp_all
  show ?thesis
  proof (cases rule: call_phase [of c])
    case lease
    note l = step_lease [OF step lease fleet_invD(1) [OF inv]]
    show ?thesis
    proof (cases "sessions w' = sessions ?w")
      case False
      then show ?thesis
        using l t by (intro stays abs_TakeRefreshLease) blast+
    qed (use l keep in blast)
  next
    case (exchange n l)
    then show ?thesis
      using step_exchange [OF step exchange] keep by blast
  next
    case (fenced n)
    note x = step_fenced [OF step fenced]
    show ?thesis
    proof (cases "sessions w' = sessions ?w")
      case changed: False
      show ?thesis
      proof (cases "rc_pc c")
        case (Writing m l p tok)
        then show ?thesis
          using step_writing [OF step Writing] changed commit_renews [OF fleet_heldD [OF h c] Writing kr, of _ _ _ w'] x t
            codec Writing by blast
      next
        case (Failing m e)
        then show ?thesis
          using step_failing [OF step Failing] changed x t
          by (intro stays abs_FailRefresh) blast+
      qed (use fenced in \<open>auto simp: nonce_of_def\<close>)
    qed (use x keep in blast)
  next
    case idle
    then show ?thesis
      using step_idle [OF step idle] keep by blast
  qed
qed

lemma call_step_event:
  assumes "fleet_inv s f" and "fleet_held s f" and "keyring_inv (sealer_keyring (pg_sealer s))"
    and c: "fl_calls f i = Some c" and "refresh_step s (\<lambda>ctx tok w. (answer, w)) c (fl_world f) = (c', w')"
    and "\<forall>n l p tok. rc_pc c = Writing n l p tok \<longrightarrow> faithful (pg_json s) (p\<lparr>pp_Token := Some tok\<rparr>)"
  shows "\<exists>ev. shared_step (abs_sessions s (fl_world f)) ev (abs_sessions s w') \<and>
    (\<forall>i old tok. ev = Renewed i old tok \<longrightarrow>
       (\<exists>j c n l p. fl_calls f j = Some c \<and> rc_id c = i \<and> rc_pc c = Writing n l p tok \<and> pp_Token p = old)) \<and>
    (ev = Stays \<or> (\<exists>i old tok. ev = Renewed i old tok))"
  using call_step_map [OF assms]
proof (elim disjE exE conjE)
  fix n l p tok
  assume w: "rc_pc c = Writing n l p tok"
    and "shared_step (abs_sessions s (fl_world f)) (Renewed (rc_id c) (pp_Token p) tok) (abs_sessions s w')"
  moreover have "\<exists>j d n l q. fl_calls f j = Some d \<and> rc_id d = rc_id c \<and> rc_pc d = Writing n l q tok \<and>
      pp_Token q = pp_Token p"
    using c w by blast
  ultimately show ?thesis
    by (intro exI [of _ "Renewed (rc_id c) (pp_Token p) tok"]) simp
qed (intro exI [of _ Stays], simp)

text \<open>The steps that are no call's.\<close>

lemma delete_event:
  assumes "table_inv (sessions w)" and "sessions w' = snd (sql_delete p (sessions w))"
    and "clock w' = clock w" and "db_now w' = db_now w"
  shows "shared_step (abs_sessions s w) Gone (abs_sessions s w')"
  by (rule shared_step.gone)
    (auto simp: assms(2-4) map_le_def abs_sessions_def abs_table_def lookup_sql_delete [OF assms(1)] split: option.splits)

lemma pass_event:
  assumes "keyring_inv (sealer_keyring (pg_sealer s))" and "key_ready s w" and "pg_passes w w'"
  shows "shared_step (abs_sessions s w) Gone (abs_sessions s w')"
  by (rule shared_step.gone)
    (auto simp: abs_later(3) [OF assms] map_le_def expire_def split: option.splits if_splits)

lemma create_event:
  assumes "clock w' = clock w" and "db_now w' = db_now w"
    and "sessions w' = snd (CreateSession arg (db_now w) (sessions w))"
  shows "\<exists>ev. shared_step (abs_sessions s w) ev (abs_sessions s w') \<and> (ev = Stays \<or> ev = Begun (cs_ID arg))"
  using abs_CreateSession [OF assms, of s] shared_step.stays [of "abs_sessions s w"]
    shared_step.begun [of "abs_sessions s w" "cs_ID arg"] by fastforce

section \<open>Properties\<close>



end
