(* ===== verification/CookieStore.thy ===== *)
theory CookieStore
  imports Sealer Payload
begin

text \<open>
  \<open>token_store_cookie.go\<close>: the store that keeps nothing and seals the whole session into the
  cookie value.  The operations are stated over any
  codec of the payload (theory \<open>Payload\<close> has that of the source); \<open>singleflight\<close> is a parameter.  The store
  is an instance of the contract of theory \<open>Store\<close>, with the clock of the process as the
  clock a session's age is measured by.
\<close>

section \<open>The store\<close>

record CookieTokenStore =
  cts_keyring :: CookieKeyring
  cts_domain :: string
  cts_maxSessionAge :: duration

definition newCookieTokenStore :: "CookieKeyring \<Rightarrow> string \<Rightarrow> duration \<Rightarrow> CookieTokenStore" where
  "newCookieTokenStore keyring domain maxSessionAge =
     \<lparr>cts_keyring = keyring, cts_domain = domain, cts_maxSessionAge = maxSessionAge\<rparr>"

definition NewCookieTokenStore ::
  "CookieKeyring option \<Rightarrow> string \<Rightarrow> duration \<Rightarrow> CookieTokenStore result" where
  "NewCookieTokenStore keyring cookieName maxSessionAge =
     (case keyring of
        None \<Rightarrow> Inl (New ''a cookie keyring is required'')
      | Some kr \<Rightarrow>
          if maxSessionAge \<le> 0 then Inl (New ''the maximum session age must be positive'')
          else (case cookieDomain cookieDomainSession cookieName of
                  Inl e \<Rightarrow> Inl (Errorf ''session cookie'' [e])
                | Inr domain \<Rightarrow> Inr (newCookieTokenStore kr domain maxSessionAge)))"

definition cookie_seal ::
  "sessionPayload codec \<Rightarrow> CookieTokenStore \<Rightarrow> StoredToken option \<Rightarrow> 'a world_scheme \<Rightarrow>
   StoredToken option result \<times> 'a world_scheme" where
  "cookie_seal j s t w =
     (case t of
        None \<Rightarrow> (Inl (New ''a session needs a token''), w)
      | Some t \<Rightarrow>
          if st_Token t = None then (Inl (New ''a session needs a token''), w)
          else (case json_Marshal j \<lparr>sp_Version = sessionPayloadV1, sp_IssuedAt = IssuedAt t,
                      sp_Token = st_Token t, sp_Subject = Subject t\<rparr> of
                  Inl e \<Rightarrow> (Inl (Errorf ''marshal session payload'' [e]), w)
                | Inr data \<Rightarrow>
                    (case seal_payload (Some (cts_keyring s)) (cts_domain s) data w of
                       (Inl e, w') \<Rightarrow> (Inl (Errorf ''seal session payload'' [e]), w')
                     | (Inr value, w') \<Rightarrow>
                         (Inr (Some \<lparr>Handle = value, Subject = Subject t, st_Token = st_Token t,
                            IDToken = [], IssuedAt = IssuedAt t,
                            ExpiresAt = IssuedAt t + cts_maxSessionAge s, Stale = False\<rparr>), w'))))"

definition cookie_Create ::
  "sessionPayload codec \<Rightarrow> CookieTokenStore \<Rightarrow> NewSession \<Rightarrow> 'a world_scheme \<Rightarrow>
   StoredToken option result \<times> 'a world_scheme" where
  "cookie_Create j s session w =
     (if ns_Token session = None then (Inl (New ''a session needs a token''), w)
      else cookie_seal j s (Some \<lparr>Handle = [], Subject = ns_Subject session,
             st_Token = ns_Token session, IDToken = [], IssuedAt = clock w, ExpiresAt = zeroTime,
             Stale = False\<rparr>) w)"

definition cookie_Get ::
  "sessionPayload codec \<Rightarrow> CookieTokenStore \<Rightarrow> string \<Rightarrow> 'a world_scheme \<Rightarrow>
   StoredToken option result \<times> 'a world_scheme" where
  "cookie_Get j s handle w =
     (case open_payload (Some (cts_keyring s)) (clock w) (cts_domain s) handle of
        Inl e \<Rightarrow> (Inl (Errorf ''open session cookie'' [Sentinel ErrNoSession, e]), w)
      | Inr (plaintext, current) \<Rightarrow>
          (case json_Unmarshal j plaintext of
             Inl e \<Rightarrow> (Inl (Errorf ''unmarshal session payload'' [Sentinel ErrNoSession, e]), w)
           | Inr payload \<Rightarrow>
               if sp_Version payload \<noteq> sessionPayloadV1 then
                 (Inl (Errorf ''unsupported session payload version'' [Sentinel ErrNoSession]), w)
               else if sp_Token payload = None then
                 (Inl (Errorf ''the session payload carries no token'' [Sentinel ErrNoSession]), w)
               else if cts_maxSessionAge s \<le> time_Sub (clock w) (sp_IssuedAt payload) then
                 (Inl (Errorf ''the session is past the maximum age'' [Sentinel ErrNoSession]), w)
               else
                 (Inr (Some \<lparr>Handle = handle, Subject = sp_Subject payload,
                    st_Token = sp_Token payload, IDToken = [], IssuedAt = sp_IssuedAt payload,
                    ExpiresAt = sp_IssuedAt payload + cts_maxSessionAge s,
                    Stale = (\<not> current)\<rparr>), w)))"

text \<open>\<open>Get\<close> never hands back a nil session without an error, so the nil case of the
  assignment in \<open>Update\<close> is not reached; it is the panic of the source.\<close>

definition cookie_Update ::
  "sessionPayload codec \<Rightarrow> CookieTokenStore \<Rightarrow> string \<Rightarrow> Token option \<Rightarrow> 'a world_scheme \<Rightarrow>
   StoredToken option result \<times> 'a world_scheme" where
  "cookie_Update j s handle tok w =
     (if tok = None then (Inl (New ''a session needs a token''), w)
      else (case cookie_Get j s handle w of
              (Inl e, w') \<Rightarrow> (Inl e, w')
            | (Inr session, w') \<Rightarrow>
                cookie_seal j s (map_option (\<lambda>t. t\<lparr>st_Token := tok\<rparr>) session) w'))"

definition cookie_Reseal ::
  "sessionPayload codec \<Rightarrow> CookieTokenStore \<Rightarrow> StoredToken option \<Rightarrow> 'a world_scheme \<Rightarrow>
   StoredToken option result \<times> 'a world_scheme" where
  "cookie_Reseal j s t w = cookie_seal j s t w"

definition cookie_Delete :: "CookieTokenStore \<Rightarrow> string \<Rightarrow> 'a world_scheme \<Rightarrow> unit result \<times> 'a world_scheme" where
  "cookie_Delete s handle w = (Inr (), w)"

definition cookie_DeleteExpired :: "CookieTokenStore \<Rightarrow> int \<Rightarrow> 'a world_scheme \<Rightarrow> int result \<times> 'a world_scheme" where
  "cookie_DeleteExpired s batch w = (Inr 0, w)"

text \<open>\<open>singleflight.Group.Do\<close>: runs the function for the key, or shares the result of the
  run of another caller that is already under way for that key.\<close>

type_synonym 'w flight =
  "string \<Rightarrow> ('w \<Rightarrow> StoredToken option result \<times> 'w) \<Rightarrow> 'w \<Rightarrow> StoredToken option result \<times> 'w"

definition refresh_flight ::
  "sessionPayload codec \<Rightarrow> CookieTokenStore \<Rightarrow> Context \<Rightarrow> StoredToken \<Rightarrow>
   'a world_scheme exchange \<Rightarrow> 'a world_scheme \<Rightarrow> StoredToken option result \<times> 'a world_scheme" where
  "refresh_flight j s ctx t exchange w =
     (case exchange ctx (st_Token t) w of
        (Inl e, w') \<Rightarrow> (Inl e, w')
      | (Inr None, w') \<Rightarrow> (Inl (New ''the exchange returned no token''), w')
      | (Inr (Some tok), w') \<Rightarrow>
          cookie_seal j s (Some \<lparr>Handle = [], Subject = Subject t, st_Token = Some tok,
            IDToken = [], IssuedAt = IssuedAt t, ExpiresAt = zeroTime, Stale = False\<rparr>) w')"

definition cookie_Refresh ::
  "'a world_scheme flight \<Rightarrow> sessionPayload codec \<Rightarrow> CookieTokenStore \<Rightarrow> Context \<Rightarrow> StoredToken \<Rightarrow>
   'a world_scheme exchange \<Rightarrow> 'a world_scheme \<Rightarrow> StoredToken option result \<times> 'a world_scheme" where
  "cookie_Refresh Do j s ctx t exchange w =
     (case Do (Handle t) (refresh_flight j s ctx t exchange) w of
        (Inl e, w') \<Rightarrow> (Inl (Errorf ''exchange refresh token'' [e]), w')
      | (Inr session, w') \<Rightarrow> (Inr session, w'))"

definition cookie_token_store ::
  "'a world_scheme flight \<Rightarrow> sessionPayload codec \<Rightarrow> CookieTokenStore \<Rightarrow> 'a world_scheme TokenStore" where
  "cookie_token_store Do j s =
     \<lparr>ts_Create = (\<lambda>ctx. cookie_Create j s), ts_Get = (\<lambda>ctx. cookie_Get j s),
      ts_Update = (\<lambda>ctx. cookie_Update j s), ts_Reseal = (\<lambda>ctx t. cookie_Reseal j s (Some t)),
      ts_Delete = (\<lambda>ctx. cookie_Delete s), ts_Refresh = cookie_Refresh Do j s,
      ts_DeleteExpired = (\<lambda>ctx. cookie_DeleteExpired s)\<rparr>"

section \<open>Lemmas\<close>

definition store_inv :: "CookieTokenStore \<Rightarrow> bool" where
  "store_inv s \<longleftrightarrow> keyring_inv (cts_keyring s) \<and> 0 < cts_maxSessionAge s \<and>
     cts_maxSessionAge s \<le> maxDuration"

definition payload_of :: "session_content \<Rightarrow> sessionPayload" where
  "payload_of c = \<lparr>sp_Version = sessionPayloadV1, sp_IssuedAt = c_IssuedAt c,
     sp_Token = c_Token c, sp_Subject = c_Subject c\<rparr>"

definition cookie_kept :: "session_content \<Rightarrow> session_content" where
  "cookie_kept c = c\<lparr>c_IDToken := []\<rparr>"

text \<open>A handle stands for a content when it is what the store sealed, at some earlier time, for
  a payload the codec is faithful for.\<close>

definition cookie_holds ::
  "sessionPayload codec \<Rightarrow> CookieTokenStore \<Rightarrow> 'a world_scheme \<Rightarrow> string \<Rightarrow> session_content \<Rightarrow> bool" where
  "cookie_holds j s w h c \<longleftrightarrow> c_Token c \<noteq> None \<and> c_IDToken c = [] \<and>
     (\<exists>(w0 :: 'a world_scheme) w1 data. clock w0 \<le> clock w \<and> json_Marshal j (payload_of c) = Inr data \<and>
        json_Unmarshal j data = Inr (payload_of c) \<and>
        seal_payload (Some (cts_keyring s)) (cts_domain s) data w0 = (Inr h, w1))"

lemma sealKind_clock [world_simps]: "clock (snd (sealKind k kind d p w)) = clock w"
  by (auto simp: sealKind_def sealKindRaw_def rand_Read_def Let_def
      split: option.splits prod.splits sum.splits if_splits)

lemma cookie_seal_Inr:
  "cookie_seal j s t w = (Inr r, w') \<longleftrightarrow>
     (\<exists>t' data h. t = Some t' \<and> st_Token t' \<noteq> None \<and>
        json_Marshal j (payload_of (content t')) = Inr data \<and>
        seal_payload (Some (cts_keyring s)) (cts_domain s) data w = (Inr h, w') \<and>
        r = Some \<lparr>Handle = h, Subject = Subject t', st_Token = st_Token t', IDToken = [],
              IssuedAt = IssuedAt t', ExpiresAt = IssuedAt t' + cts_maxSessionAge s, Stale = False\<rparr>)"
  by (auto simp: cookie_seal_def payload_of_def content_def split: option.splits sum.splits prod.splits if_splits)

lemma cookie_seal_holds:
  assumes "cookie_seal j s (Some t) w = (Inr (Some s'), w')" and "faithful j (payload_of (content t))"
  shows "cookie_holds j s w' (Handle s') (cookie_kept (content t))" and "content s' = cookie_kept (content t)"
    and "ExpiresAt s' = IssuedAt t + cts_maxSessionAge s" and "\<not> Stale s'" and "clock w' = clock w"
proof -
  obtain data h where d: "st_Token t \<noteq> None" "json_Marshal j (payload_of (content t)) = Inr data"
      "seal_payload (Some (cts_keyring s)) (cts_domain s) data w = (Inr h, w')"
    and s': "s' = \<lparr>Handle = h, Subject = Subject t, st_Token = st_Token t, IDToken = [],
              IssuedAt = IssuedAt t, ExpiresAt = IssuedAt t + cts_maxSessionAge s, Stale = False\<rparr>"
    using assms(1) by (auto simp: cookie_seal_Inr)
  show c: "clock w' = clock w"
    using d(3) sealKind_clock by (metis seal_payload_def snd_conv)
  have p: "payload_of (cookie_kept (content t)) = payload_of (content t)"
    by (simp add: payload_of_def cookie_kept_def)
  have "json_Unmarshal j data = Inr (payload_of (content t))"
    using assms(2) d(2) by (simp add: faithful_def)
  moreover have "clock w \<le> clock w'" by (simp add: c)
  ultimately show "cookie_holds j s w' (Handle s') (cookie_kept (content t))"
    using d unfolding cookie_holds_def p by (auto simp: s' cookie_kept_def content_def)
qed (use assms in \<open>auto simp: cookie_seal_Inr content_def cookie_kept_def\<close>)

lemma cookie_Get_holds:
  assumes "store_inv s" and "cookie_holds j s w h c"
  shows "cookie_Get j s h w =
    (if cts_maxSessionAge s \<le> clock w - c_IssuedAt c
     then (Inl (Errorf ''the session is past the maximum age'' [Sentinel ErrNoSession]), w)
     else (Inr (Some \<lparr>Handle = h, Subject = c_Subject c, st_Token = c_Token c, IDToken = [],
             IssuedAt = c_IssuedAt c, ExpiresAt = c_IssuedAt c + cts_maxSessionAge s,
             Stale = (case open_payload (Some (cts_keyring s)) (clock w) (cts_domain s) h of
               Inr (p, current) \<Rightarrow> \<not> current | Inl e \<Rightarrow> False)\<rparr>), w))"
proof -
  obtain w0 w1 data where o: "clock (w0 :: 'a world_scheme) \<le> clock w"
    and u: "json_Unmarshal j data = Inr (payload_of c)" and t: "c_Token c \<noteq> None"
    and sealed: "seal_payload (Some (cts_keyring s)) (cts_domain s) data w0 = (Inr h, w1)"
    using assms(2) by (auto simp: cookie_holds_def)
  have k: "keyring_inv (cts_keyring s)" "0 < cts_maxSessionAge s" "cts_maxSessionAge s \<le> maxDuration"
    using assms(1) by (auto simp: store_inv_def)
  obtain cur where "open_payload (Some (cts_keyring s)) (clock w) (cts_domain s) h = Inr (data, cur)"
    using open_sealKind_fact [OF k(1) _ _ o, of sessionKindPayload "cts_domain s" data h w1] sealed
    by (simp add: seal_payload_def open_payload_def session_kinds)
  moreover have "cts_maxSessionAge s \<le> time_Sub (clock w) (c_IssuedAt c) \<longleftrightarrow>
      cts_maxSessionAge s \<le> clock w - c_IssuedAt c"
    using time_Sub_less [of "cts_maxSessionAge s" "clock w" "c_IssuedAt c"] k by linarith
  ultimately show ?thesis
    using u t by (simp add: cookie_Get_def payload_of_def)
qed

interpretation cookie_store: session_store "cookie_Create j s" "cookie_Get j s" "cookie_Update j s"
    "cookie_Reseal j s" "cts_maxSessionAge s" "\<lambda>w :: 'a world_scheme. store_inv s" clock
    "cookie_holds j s" "\<lambda>w w'. clock w \<le> clock w'" "\<lambda>c. faithful j (payload_of c)" cookie_kept
  for j and s :: CookieTokenStore
proof (standard, goal_cases)
  case (1 w ns st w')
  then have c: "cookie_seal j s (Some \<lparr>Handle = [], Subject = ns_Subject ns,
             st_Token = ns_Token ns, IDToken = [], IssuedAt = clock w, ExpiresAt = zeroTime,
             Stale = False\<rparr>) w = (Inr (Some st), w')" (is "cookie_seal j s (Some ?t) w = _")
    by (auto simp: cookie_Create_def split: if_splits)
  have "content st = cookie_kept (content ?t)"
    using c by (auto simp: cookie_seal_Inr content_def cookie_kept_def)
  then have "faithful j (payload_of (content ?t))"
    using 1 by (simp add: payload_of_def cookie_kept_def)
  note h = cookie_seal_holds [OF c this]
  show ?case
    using h 1 by (auto simp: content_def cookie_kept_def)
next
  case (2 w h c r w')
  then show ?case
    using cookie_Get_holds [of s j w h c] by (auto simp: content_def cookie_holds_def)
next
  case (3 w h c)
  then show ?case
    using cookie_Get_holds [of s j w h c] by (auto simp: error_simps)
next
  case (4 w h c tok st w')
  obtain t where g: "cookie_Get j s h w = (Inr (Some t), w)"
    and u: "cookie_seal j s (Some (t\<lparr>st_Token := Some tok\<rparr>)) w = (Inr (Some st), w')"
    and t: "content t = c"
    using 4(3) cookie_Get_holds [OF 4(1,2)] 4(2)
    by (auto simp: cookie_Update_def content_def cookie_holds_def split: if_splits)
  have c: "content (t\<lparr>st_Token := Some tok\<rparr>) = c\<lparr>c_Token := Some tok\<rparr>"
    using t by (auto simp: content_def)
  have k: "cookie_kept (c\<lparr>c_Token := Some tok\<rparr>) = c\<lparr>c_Token := Some tok\<rparr>"
    using 4(2) by (simp add: cookie_kept_def cookie_holds_def)
  show ?case
    using cookie_seal_holds [OF u] 4(1,4) by (simp add: c k)
next
  case (5 w t st w')
  have k: "cookie_kept (content t) = content t"
    using 5(2) by (simp add: cookie_kept_def cookie_holds_def)
  show ?case
    using cookie_seal_holds [OF 5(4) [unfolded cookie_Reseal_def]] 5(1,3) by (simp add: k)
next
  case (6 w w' h c)
  then show ?case unfolding cookie_holds_def by (meson order_trans)
qed auto

lemma cookie_Get_Inl: "fst (cookie_Get j s handle w) = Inl e \<Longrightarrow> errors_Is e ErrNoSession"
  by (auto simp: cookie_Get_def error_simps split: sum.splits prod.splits if_splits)

lemma cookie_not_nil:
  "fst (cookie_Get j s handle w) \<noteq> Inr None" "fst (cookie_Reseal j s (Some t) w') \<noteq> Inr None"
  by (auto simp: cookie_Get_def cookie_Reseal_def cookie_seal_def split: sum.split prod.split)

section \<open>Properties\<close>

definition sample_new_session :: NewSession where
  "sample_new_session = \<lparr>ns_Subject = ''u'', ns_Token = Some sample_token, ns_IDToken = ''i''\<rparr>"

text \<open>A codec that writes one byte, and reads it back as the payload of the sample session begun
  at the instant 150: faithful for that payload and for no other.\<close>

definition sample_codec :: "sessionPayload codec" where
  "sample_codec =
     \<lparr>json_Marshal = (\<lambda>p. Inr [5]),
      json_Unmarshal = (\<lambda>data. Inr \<lparr>sp_Version = 1, sp_IssuedAt = 150, sp_Token = Some sample_token,
        sp_Subject = ''u''\<rparr>)\<rparr>"

definition sample_cookie_store :: CookieTokenStore where
  "sample_cookie_store = newCookieTokenStore sample_keyring ''cookie:s'' 1000"

lemma sample_store_inv: "store_inv sample_cookie_store"
  by (simp add: store_inv_def sample_cookie_store_def newCookieTokenStore_def keyring_inv_sample)

definition sample_session :: StoredToken where
  "sample_session = \<lparr>Handle = [], Subject = ''u'', st_Token = Some sample_token, IDToken = [],
     IssuedAt = 150, ExpiresAt = 0, Stale = False\<rparr>"

lemma sample_faithful: "c_Subject c = ''u'' \<Longrightarrow> c_Token c = Some sample_token \<Longrightarrow> c_IssuedAt c = 150 \<Longrightarrow>
    faithful sample_codec (payload_of c)"
  by (simp add: faithful_def sample_codec_def payload_of_def sessionPayloadV1_def)

lemma sample_cookie_Create:
  obtains h w' where "cookie_Create sample_codec sample_cookie_store sample_new_session
      \<lparr>clock = 150, rng = replicate 40 (9 :: byte)\<rparr> = (Inr (Some \<lparr>Handle = h, Subject = ''u'',
        st_Token = Some sample_token, IDToken = [], IssuedAt = 150, ExpiresAt = 1150, Stale = False\<rparr>), w')"
    and "w' = \<lparr>clock = 150, rng = replicate 28 (9 :: byte)\<rparr>"
proof -
  obtain h where "seal_payload (Some sample_keyring) ''cookie:s'' [5]
      \<lparr>clock = 150, rng = replicate 40 (9 :: byte)\<rparr> = (Inr h, \<lparr>clock = 150, rng = replicate 28 (9 :: byte)\<rparr>)"
    by (auto simp: seal_payload_def sealKind_Inr sealingKey_sample)
  then show thesis
    by (intro that) (auto simp: cookie_Create_def cookie_seal_def sample_new_session_def
        sample_codec_def sample_cookie_store_def newCookieTokenStore_def)
qed

text \<open>C12. The absolute lifetime of a store-less session cannot be stretched.  Whatever sequence
  of updates, re-seals and waits a created session goes through, its start and subject stay what
  they were at the login; every handle it has gone through resolves, with the content it was
  sealed with, exactly until the maximum age has passed since the login.\<close>

theorem cookie_lifetime_capped:
  assumes "store_inv s" and "cookie_Create j s ns w = (Inr (Some t), w1)"
    and "run_session (cookie_Update j s) (cookie_Reseal j s) ops t w1 = Some (t', w')"
    and "passes (\<lambda>w w'. clock w \<le> clock w') (cookie_Update j s) (cookie_Reseal j s) ops t w1"
    and "faithful j (payload_of (content t))"
    and "\<And>tok. OpUpdate tok \<in> set ops \<Longrightarrow> faithful j (payload_of ((content t)\<lparr>c_Token := Some tok\<rparr>))"
  shows "IssuedAt t' = clock w \<and> Subject t' = Subject t \<and>
    (if clock w + cts_maxSessionAge s \<le> clock w'
     then \<exists>e. fst (cookie_Get j s (Handle t') w') = Inl e \<and> errors_Is e ErrNoSession
     else \<exists>u. fst (cookie_Get j s (Handle t') w') = Inr (Some u) \<and> content u = content t')"
  using cookie_store.lifetime_capped [OF assms] by (fastforce simp: content_def)

lemma cookie_lifetime_capped_witness:
  "\<exists>h e. fst (cookie_Get sample_codec sample_cookie_store h \<lparr>clock = 1150, rng = [] :: bytes\<rparr>) = Inl e \<and>
     errors_Is e ErrNoSession"
proof -
  obtain h w' where c: "cookie_Create sample_codec sample_cookie_store sample_new_session
      \<lparr>clock = 150, rng = replicate 40 (9 :: byte)\<rparr> = (Inr (Some \<lparr>Handle = h, Subject = ''u'',
        st_Token = Some sample_token, IDToken = [], IssuedAt = 150, ExpiresAt = 1150, Stale = False\<rparr>), w')"
    and w': "w' = \<lparr>clock = 150, rng = replicate 28 (9 :: byte)\<rparr>"
    by (rule sample_cookie_Create)
  show ?thesis
    using cookie_lifetime_capped [OF sample_store_inv c, of "[OpPass \<lparr>clock = 1150, rng = []\<rparr>]"]
    by (auto simp: sample_faithful content_def w' sample_cookie_store_def newCookieTokenStore_def)
qed

text \<open>Every failure to read a store-less session says that there is no session, whatever the
  reason it carries beside that.\<close>

theorem cookie_Get_errors:
  "case fst (cookie_Get j s handle w) of
     Inl e \<Rightarrow> errors_Is e ErrNoSession
   | Inr r \<Rightarrow> \<exists>t. r = Some t \<and> Handle t = handle \<and> st_Token t \<noteq> None \<and>
       ExpiresAt t = IssuedAt t + cts_maxSessionAge s \<and> snd (cookie_Get j s handle w) = w"
  by (auto simp: cookie_Get_def error_simps split: sum.split)

text \<open>A refresh the caller runs itself carries the session's start and subject forward with
  the exchanged token, so the absolute expiry does not move; the new handle resolves to that
  session.  A failed exchange, or one that returns no token, seals nothing, and the exchange's
  own error is still there to be told apart.\<close>

theorem cookie_Refresh_exchange:
  fixes w :: "'a world_scheme"
  assumes "store_inv s" and "\<And>fn. Do (Handle t) fn w = fn w"
    and "exchange ctx (st_Token t) w = (r, w1)"
  shows "case r of
      Inl e \<Rightarrow> \<exists>e'. cookie_Refresh Do j s ctx t exchange w = (Inl e', w1) \<and> (\<forall>x. errors_Is e' x \<longleftrightarrow> errors_Is e x)
    | Inr None \<Rightarrow> \<exists>e'. cookie_Refresh Do j s ctx t exchange w = (Inl e', w1)
    | Inr (Some tok) \<Rightarrow>
        (\<forall>t' w' (w2 :: 'a world_scheme). cookie_Refresh Do j s ctx t exchange w = (Inr t', w') \<and> clock w' \<le> clock w2 \<and>
            clock w2 < IssuedAt t + cts_maxSessionAge s \<and>
            faithful j \<lparr>sp_Version = 1, sp_IssuedAt = IssuedAt t, sp_Token = Some tok, sp_Subject = Subject t\<rparr> \<longrightarrow>
           (\<exists>u u'. t' = Some u \<and> IssuedAt u = IssuedAt t \<and> Subject u = Subject t \<and> st_Token u = Some tok \<and>
              ExpiresAt u = IssuedAt t + cts_maxSessionAge s \<and>
              cookie_Get j s (Handle u) w2 = (Inr (Some u'), w2) \<and> content u' = content u))"
proof (cases r)
  case (Inl e)
  then show ?thesis
    by (auto simp: cookie_Refresh_def refresh_flight_def assms(2,3) error_simps)
next
  case (Inr o')
  show ?thesis
  proof (cases o')
    case None
    with Inr show ?thesis
      by (auto simp: cookie_Refresh_def refresh_flight_def assms(2,3))
  next
    case (Some tok)
    have "\<exists>u u'. t' = Some u \<and> IssuedAt u = IssuedAt t \<and> Subject u = Subject t \<and> st_Token u = Some tok \<and>
              ExpiresAt u = IssuedAt t + cts_maxSessionAge s \<and>
              cookie_Get j s (Handle u) w2 = (Inr (Some u'), w2) \<and> content u' = content u"
      if r: "cookie_Refresh Do j s ctx t exchange w = (Inr t', w')" and w2: "clock w' \<le> clock w2"
        and live: "clock w2 < IssuedAt t + cts_maxSessionAge s"
        and f: "faithful j \<lparr>sp_Version = 1, sp_IssuedAt = IssuedAt t, sp_Token = Some tok, sp_Subject = Subject t\<rparr>"
      for t' w' and w2 :: "'a world_scheme"
    proof -
      let ?t = "\<lparr>Handle = [], Subject = Subject t, st_Token = Some tok, IDToken = [],
        IssuedAt = IssuedAt t, ExpiresAt = zeroTime, Stale = False\<rparr>"
      have sl: "cookie_seal j s (Some ?t) w1 = (Inr t', w')"
        using r Inr Some by (auto simp: cookie_Refresh_def refresh_flight_def assms(2,3)
            split: sum.splits prod.splits)
      then obtain u where u: "t' = Some u"
        by (auto simp: cookie_seal_Inr)
      have p: "faithful j (payload_of (content ?t))"
        using f by (simp add: payload_of_def content_def sessionPayloadV1_def)
      note h = cookie_seal_holds [OF sl [unfolded u] p]
      have hold: "cookie_holds j s w2 (Handle u) (content u)"
        using cookie_store.later_holds [OF w2] h(1,2) by simp
      have "c_IssuedAt (content u) = IssuedAt t" "c_IDToken (content u) = []"
        using h(2) by (simp_all add: content_def cookie_kept_def)
      then have "\<exists>u'. cookie_Get j s (Handle u) w2 = (Inr (Some u'), w2) \<and> content u' = content u"
        using cookie_Get_holds [OF assms(1) hold] live by (auto simp: content_def)
      then show ?thesis
        using h(2,3) u by (auto simp: content_def cookie_kept_def)
    qed
    then show ?thesis
      using Inr Some by simp
  qed
qed

lemma cookie_Refresh_exchange_witness:
  "\<exists>e. cookie_Refresh (\<lambda>k fn. fn) sample_codec sample_cookie_store Background sample_session
      (\<lambda>ctx tok w. (Inl (Sentinel ErrRefreshRejected), w)) \<lparr>clock = 150, rng = []\<rparr> =
      (Inl e, \<lparr>clock = 150, rng = [] :: bytes\<rparr>) \<and> errors_Is e ErrRefreshRejected"
  using cookie_Refresh_exchange [OF sample_store_inv, of "\<lambda>k fn. fn" sample_session
      "\<lparr>clock = 150, rng = [] :: bytes\<rparr>" "\<lambda>ctx tok w. (Inl (Sentinel ErrRefreshRejected), w)"
      Background "Inl (Sentinel ErrRefreshRejected)" "\<lparr>clock = 150, rng = []\<rparr>" sample_codec]
  by (auto simp: error_simps)

text \<open>A store-less application refuses the handle of a stored session that shares its cookie
  name and keyring, and says it is the wrong kind: the two modes cannot read each other's
  cookies.\<close>

theorem cookie_Get_refuses_handle:
  assumes "keyring_inv (sealer_keyring sl)" and "SealHandle sl h w0 = (Inr v, w1)"
    and "sealingKey (Some (cts_keyring s)) (clock w) \<noteq> None"
  shows "\<exists>e. cookie_Get j s v w = (Inl e, w) \<and> errors_Is e ErrNoSession \<and> errors_Is e ErrWrongSessionKind"
  using openKind_kind_fact [OF assms(1), of sessionKindHandle "sealer_cookieDomain sl" h w0 v w1
      sessionKindPayload "cts_keyring s" "clock w" "cts_domain s"] assms(2,3)
  by (auto simp: SealHandle_Inr cookie_Get_def open_payload_def session_kinds error_simps)

lemma cookie_Get_refuses_handle_witness:
  "\<exists>v e. cookie_Get sample_codec sample_cookie_store v \<lparr>clock = 250, rng = []\<rparr> = (Inl e, \<lparr>clock = 250, rng = []\<rparr>) \<and>
     errors_Is e ErrNoSession \<and> errors_Is e ErrWrongSessionKind"
proof -
  obtain v w1 where v: "SealHandle sample_sealer [7, 8] \<lparr>clock = 150, rng = replicate 20 (9 :: byte)\<rparr> = (Inr v, w1)"
    by (auto simp: SealHandle_Inr sample_sealer_def sealKind_Inr sealingKey_sample)
  show ?thesis
    using cookie_Get_refuses_handle [OF _ v, of sample_cookie_store "\<lparr>clock = 250, rng = []\<rparr>" sample_codec]
    by (auto simp: sample_sealer_def keyring_inv_sample sample_cookie_store_def newCookieTokenStore_def
        sealingKey_sample)
qed

end
