(* ===== verification/Http.thy ===== *)
theory Http
  imports Encoding
begin

text \<open>
  The HTTP side of the framework: \<open>elements.go\<close> and \<open>http_err.go\<close> (labels and errors with a
  status), \<open>cookies.go\<close> (the one place a cookie is written), \<open>base_path.go\<close>, the redirect
  rule of \<open>application.go\<close> and \<open>application_auth.go\<close>, and what the handlers use of net/http and
  net/url: requests, the response a handler has written so far, and query strings.
\<close>

section \<open>Labels and errors\<close>

definition TMsg :: "i18n_Message \<Rightarrow> TextLabel" where
  "TMsg msg = zero_label\<lparr>tl_Message := Some msg\<rparr>"

text \<open>\<open>TL\<close>: a message id with no form, one, or several (which it ignores).\<close>

definition TL :: "string \<Rightarrow> string list \<Rightarrow> TextLabel" where
  "TL str forms =
     (let msg = \<lparr>m_ID = str, m_Other = []\<rparr>;
          msg = (case forms of [] \<Rightarrow> msg\<lparr>m_Other := str\<rparr> | [f] \<Rightarrow> msg\<lparr>m_Other := f\<rparr> | _ \<Rightarrow> msg)
      in zero_label\<lparr>tl_Message := Some msg\<rparr>)"

definition TLiteral :: "string \<Rightarrow> TextLabel" where
  "TLiteral str = zero_label\<lparr>tl_Literal := str\<rparr>"

fun error_msg :: "go_error \<Rightarrow> string" where
  "error_msg (Sentinel s) = []"
| "error_msg (New m) = m"
| "error_msg (Errorf m es) = m"
| "error_msg (HTTPError m c l e) = m"

definition NewHTTPError :: "int \<Rightarrow> string \<Rightarrow> string \<Rightarrow> go_error \<Rightarrow> go_error" where
  "NewHTTPError code msgID txt cause = HTTPError (error_msg cause) code (TL msgID [txt]) (Some cause)"

definition InternalHTTPError :: "go_error \<Rightarrow> go_error" where
  "InternalHTTPError cause =
     NewHTTPError 500 ''UnexpectedError'' ''Encountered an unexpected error'' cause"

text \<open>\<open>HTTPErrorf\<close> keeps what \<open>errors.Unwrap\<close> gives for the error it formats: its cause where
  the format wraps exactly one, and nothing where it wraps none or several.\<close>

definition HTTPErrorf :: "int \<Rightarrow> TextLabel \<Rightarrow> string \<Rightarrow> go_error list \<Rightarrow> go_error" where
  "HTTPErrorf code message fmt wrapped =
     HTTPError fmt code message (case wrapped of [e] \<Rightarrow> Some e | _ \<Rightarrow> None)"

definition LiteralHTTPError :: "int \<Rightarrow> go_error \<Rightarrow> go_error" where
  "LiteralHTTPError code err = HTTPError (error_msg err) code (zero_label\<lparr>tl_Literal := error_msg err\<rparr>) (Some err)"

text \<open>\<open>errors.As\<close> for an \<open>HTTPError\<close>: the first in the tree of wrapped errors, depth first.\<close>

fun find_HTTPError :: "go_error \<Rightarrow> go_error option"
  and find_HTTPErrors :: "go_error list \<Rightarrow> go_error option" where
  "find_HTTPError (Sentinel s) = None"
| "find_HTTPError (New m) = None"
| "find_HTTPError (HTTPError m c l e) = Some (HTTPError m c l e)"
| "find_HTTPError (Errorf m es) = find_HTTPErrors es"
| "find_HTTPErrors [] = None"
| "find_HTTPErrors (e # es) =
     (case find_HTTPError e of Some h \<Rightarrow> Some h | None \<Rightarrow> find_HTTPErrors es)"

definition AsHTTPError :: "go_error \<Rightarrow> go_error" where
  "AsHTTPError err = (case find_HTTPError err of Some h \<Rightarrow> h | None \<Rightarrow> InternalHTTPError err)"

fun http_code :: "go_error \<Rightarrow> int" where
  "http_code (HTTPError m c l e) = c"
| "http_code e = 0"

fun http_label :: "go_error \<Rightarrow> TextLabel" where
  "http_label (HTTPError m c l e) = l"
| "http_label e = zero_label"

section \<open>Query strings\<close>

text \<open>\<open>url.QueryEscape\<close> and \<open>url.QueryUnescape\<close>.\<close>

definition unreserved :: "char \<Rightarrow> bool" where
  "unreserved c \<longleftrightarrow>
     (let n = of_char c :: nat in
        48 \<le> n \<and> n \<le> 57 \<or> 65 \<le> n \<and> n \<le> 90 \<or> 97 \<le> n \<and> n \<le> 122) \<or>
     c = CHR ''-'' \<or> c = CHR ''_'' \<or> c = CHR ''.'' \<or> c = CHR ''~''"

definition upperhex :: string where "upperhex = ''0123456789ABCDEF''"

definition QueryEscape_char :: "char \<Rightarrow> string" where
  "QueryEscape_char c =
     (if unreserved c then [c]
      else if c = CHR '' '' then ''+''
      else [CHR ''%'', upperhex ! (of_char c div 16), upperhex ! (of_char c mod 16)])"

definition QueryEscape :: "string \<Rightarrow> string" where
  "QueryEscape s = concat (map QueryEscape_char s)"

fun QueryUnescape :: "string \<Rightarrow> string option" where
  "QueryUnescape [] = Some []"
| "QueryUnescape (c # s) =
     (if c = CHR ''%'' then
        (case s of
           a # b # r \<Rightarrow>
             (case (unhex a, unhex b) of
                (Some x, Some y) \<Rightarrow> map_option (\<lambda>t. char_of (16 * x + y) # t) (QueryUnescape r)
              | _ \<Rightarrow> None)
         | _ \<Rightarrow> None)
      else map_option (\<lambda>t. (if c = CHR ''+'' then CHR '' '' else c) # t) (QueryUnescape s))"

text \<open>\<open>url.ParseQuery\<close>: the pairs in the order of the string, and whether any of them was
  malformed.  \<open>Get\<close> is the first value of a key, or the empty string.\<close>

type_synonym Values = "(string \<times> string) list"

fun split_on :: "char \<Rightarrow> string \<Rightarrow> string list" where
  "split_on sep [] = [[]]"
| "split_on sep (c # s) =
     (if c = sep then [] # split_on sep s
      else (case split_on sep s of [] \<Rightarrow> [[c]] | x # xs \<Rightarrow> (c # x) # xs))"

definition parse_pair :: "string \<Rightarrow> (string \<times> string) option" where
  "parse_pair p =
     (if CHR '';'' \<in> set p then None
      else let (k, v) = (case Cut p CHR ''='' of Some kv \<Rightarrow> kv | None \<Rightarrow> (p, []))
           in (case (QueryUnescape k, QueryUnescape v) of
                 (Some k', Some v') \<Rightarrow> Some (k', v')
               | _ \<Rightarrow> None))"

definition ParseQuery :: "string \<Rightarrow> Values \<times> bool" where
  "ParseQuery q =
     (let ps = map parse_pair (filter (\<lambda>p. p \<noteq> []) (split_on CHR ''&'' q))
      in (List.map_filter id ps, None \<in> set ps))"

definition Values_Get :: "Values \<Rightarrow> string \<Rightarrow> string" where
  "Values_Get vs k = (case map_of vs k of Some v \<Rightarrow> v | None \<Rightarrow> [])"

text \<open>\<open>Values.Encode\<close> of one key with one value.\<close>

definition Encode1 :: "string \<Rightarrow> string \<Rightarrow> string" where
  "Encode1 k v = QueryEscape k @ ''='' @ QueryEscape v"

lemma QueryUnescape_hex:
  "n < 256 \<Longrightarrow> QueryUnescape (CHR ''%'' # upperhex ! (n div 16) # upperhex ! (n mod 16) # r) =
     map_option (\<lambda>t. char_of n # t) (QueryUnescape r)"
proof -
  assume n: "n < 256"
  have hex: "unhex (upperhex ! k) = Some k" if "k < 16" for k
  proof -
    have "k \<in> set [0..<16]" using that by simp
    then show ?thesis
      by (simp add: upt_rec) (elim disjE, simp_all add: unhex_def upperhex_def)
  qed
  show ?thesis
    using n by (simp add: hex)
qed

lemma QueryUnescape_char:
  "QueryUnescape (QueryEscape_char c @ r) = map_option (\<lambda>t. c # t) (QueryUnescape r)"
proof (cases "unreserved c")
  case True
  moreover from True have "c \<noteq> CHR ''%''" "c \<noteq> CHR ''+''"
    by (auto simp: unreserved_def)
  ultimately show ?thesis
    by (simp add: QueryEscape_char_def)
next
  case False
  have n: "of_char c < (256 :: nat)" by simp
  show ?thesis
  proof (cases "c = CHR '' ''")
    case True
    with False show ?thesis by (simp add: QueryEscape_char_def)
  next
    case F: False
    have "QueryEscape_char c @ r = CHR ''%'' # upperhex ! (of_char c div 16) # upperhex ! (of_char c mod 16) # r"
      using False F by (simp only: QueryEscape_char_def if_False append.simps)
    then show ?thesis
      using QueryUnescape_hex [OF n, of r] by (simp only: char_of_char)
  qed
qed

text \<open>A query value survives its escaping.\<close>

lemma QueryUnescape_QueryEscape: "QueryUnescape (QueryEscape s) = Some s"
  by (induction s) (simp_all add: QueryEscape_def QueryUnescape_char)

lemma upperhex_range: "k < 16 \<Longrightarrow> upperhex ! k \<in> set upperhex"
  by (rule nth_mem) (simp add: upperhex_def)

lemma upperhex_unreserved: "c \<in> set upperhex \<Longrightarrow> unreserved c"
  by (simp add: upperhex_def) (elim disjE, simp_all add: unreserved_def)

lemma QueryEscape_chars:
  assumes "c \<in> set (QueryEscape s)"
  shows "unreserved c \<or> c = CHR ''+'' \<or> c = CHR ''%''"
proof -
  obtain d where d: "c \<in> set (QueryEscape_char d)"
    using assms by (auto simp: QueryEscape_def)
  have "of_char d < (256 :: nat)" by simp
  then have "of_char d div 16 < (16 :: nat)" by linarith
  then have hex: "unreserved (upperhex ! (of_char d div 16))" "unreserved (upperhex ! (of_char d mod 16))"
    by (simp_all add: upperhex_unreserved upperhex_range)
  have "set (QueryEscape_char d) \<subseteq> {x. unreserved x} \<union> {CHR ''+'', CHR ''%''}"
    using hex by (simp add: QueryEscape_char_def del: of_char_mod_256)
  then show ?thesis
    using d by blast
qed

lemma split_on_none: "sep \<notin> set s \<Longrightarrow> split_on sep s = [s]"
  by (induction s) auto

lemma ParseQuery_Encode1: "ParseQuery (Encode1 k v) = ([(k, v)], False)"
proof -
  have no: "c \<notin> set (QueryEscape s)" if "c \<in> set ''&;=''" for c s
    using that QueryEscape_chars [of c s] by (auto simp: unreserved_def)
  have "CHR ''&'' \<notin> set (Encode1 k v)" "CHR '';'' \<notin> set (Encode1 k v)"
    using no [of "CHR ''&''"] no [of "CHR '';''"] by (simp_all add: Encode1_def)
  moreover have "Cut (Encode1 k v) CHR ''='' = Some (QueryEscape k, QueryEscape v)"
    using Cut_append [OF no] by (simp add: Encode1_def)
  moreover have "Encode1 k v \<noteq> []"
    by (simp add: Encode1_def)
  ultimately show ?thesis
    by (simp add: ParseQuery_def split_on_none parse_pair_def QueryUnescape_QueryEscape
        List.map_filter_simps)
qed

section \<open>Base path and redirects\<close>

type_synonym BasePath = string

definition NewBasePath :: "string \<Rightarrow> BasePath" where
  "NewBasePath prefix =
     (let p = Trim prefix CHR ''/'' in if p = [] then [] else CHR ''/'' # p)"

definition BasePath_Path :: "BasePath \<Rightarrow> string \<Rightarrow> string" where
  "BasePath_Path bp rel = bp @ rel"

definition safeRedirectPath :: "string \<Rightarrow> bool" where
  "safeRedirectPath path =
     (if \<not> HasPrefix path ''/'' then False
      else \<not> HasPrefix path ''//'' \<and> \<not> HasPrefix path [CHR ''/'', CHR 0x5C])"

definition resolveRedirect :: "BasePath \<Rightarrow> string \<Rightarrow> string" where
  "resolveRedirect bp target =
     (if \<not> safeRedirectPath target then BasePath_Path bp ''/'' else BasePath_Path bp target)"

section \<open>Requests and responses\<close>

text \<open>A request as the handlers read it: its method, host, URL (as a string, and its decoded
  path), query, headers (by canonical name) and cookies.\<close>

record Request =
  r_Method :: string
  r_Host :: string
  r_URL :: string
  r_Path :: string
  r_Query :: Values
  r_Header :: "(string \<times> string) list"
  r_Cookies :: "(string \<times> string) list"

definition Header_Get :: "Request \<Rightarrow> string \<Rightarrow> string" where
  "Header_Get r k = (case map_of (r_Header r) k of Some v \<Rightarrow> v | None \<Rightarrow> [])"

text \<open>\<open>Request.Cookie\<close>: the value of the first cookie of that name.\<close>

definition r_Cookie :: "Request \<Rightarrow> string \<Rightarrow> string result" where
  "r_Cookie r name =
     (case map_of (r_Cookies r) name of None \<Rightarrow> Inl (Sentinel ErrNoCookie) | Some v \<Rightarrow> Inr v)"

record Cookie =
  ck_Name :: string
  ck_Value :: string
  ck_Path :: string
  ck_Expires :: "time option"
  ck_MaxAge :: int
  ck_HttpOnly :: bool
  ck_Secure :: bool
  ck_SameSiteLax :: bool

datatype Level = LevelInfo | LevelWarn | LevelError

text \<open>What a handler has written so far, what it has logged, and the environment it acts in.  The
  location is the target handed to \<open>http.Redirect\<close>, which cleans the path (\<open>path.Clean\<close>) and
  escapes what is not ASCII before it sends it, and adds a short body that is not modelled.  \<open>Set-Cookie\<close> headers are kept apart from the
  others.\<close>

record 'w io =
  io_headers :: "(string \<times> string) list"
  io_cookies :: "Cookie list"
  io_status :: "int option"
  io_location :: "string option"
  io_body :: string
  io_logs :: "(Level \<times> string) list"
  io_world :: 'w

text \<open>\<open>Header.Set\<close> replaces what the header had, \<open>Header.Add\<close> comes after it.\<close>

definition Header_Set :: "string \<Rightarrow> string \<Rightarrow> 'w io \<Rightarrow> 'w io" where
  "Header_Set k v io = io\<lparr>io_headers := filter (\<lambda>h. fst h \<noteq> k) (io_headers io) @ [(k, v)]\<rparr>"

definition Header_Add :: "string \<Rightarrow> string \<Rightarrow> 'w io \<Rightarrow> 'w io" where
  "Header_Add k v io = io\<lparr>io_headers := io_headers io @ [(k, v)]\<rparr>"

definition io_write :: "string \<Rightarrow> 'w io \<Rightarrow> 'w io" where
  "io_write out io =
     io\<lparr>io_status := (case io_status io of None \<Rightarrow> Some 200 | s \<Rightarrow> s), io_body := io_body io @ out\<rparr>"

definition io_log :: "Level \<Rightarrow> string \<Rightarrow> 'w io \<Rightarrow> 'w io" where
  "io_log l m io = io\<lparr>io_logs := io_logs io @ [(l, m)]\<rparr>"

text \<open>The status that is sent is the first one written.\<close>

definition WriteHeader :: "int \<Rightarrow> 'w io \<Rightarrow> 'w io" where
  "WriteHeader code io =
     (case io_status io of None \<Rightarrow> io\<lparr>io_status := Some code\<rparr> | Some _ \<Rightarrow> io)"

definition http_Error :: "string \<Rightarrow> int \<Rightarrow> 'w io \<Rightarrow> 'w io" where
  "http_Error msg code io =
     io_write (msg @ [CHR 0x0A]) (WriteHeader code
       (Header_Set ''X-Content-Type-Options'' ''nosniff''
         (Header_Set ''Content-Type'' ''text/plain; charset=utf-8'' io)))"

definition http_Redirect :: "string \<Rightarrow> int \<Rightarrow> 'w io \<Rightarrow> 'w io" where
  "http_Redirect url code io = WriteHeader code (io\<lparr>io_location := Some url\<rparr>)"

section \<open>Cookies\<close>

definition cookieSizeLimit :: nat where "cookieSizeLimit = 4096"

text \<open>The length of \<open>Cookie.String\<close> for a value of cookie characters: each attribute with its
  separator, the expiry only from the year 1601 on.\<close>

definition cookie_String_length :: "Cookie \<Rightarrow> nat" where
  "cookie_String_length c =
     length (ck_Name c) + 1 + length (ck_Value c) +
     (if ck_Path c = [] then 0 else 7 + length (ck_Path c)) +
     (case ck_Expires c of None \<Rightarrow> 0 | Some t \<Rightarrow> if t < - 11644473600 * Second then 0 else 39) +
     (if ck_MaxAge c > 0 then 10 + length (Itoa (nat (ck_MaxAge c)))
      else if ck_MaxAge c < 0 then 11 else 0) +
     (if ck_HttpOnly c then 10 else 0) + (if ck_Secure c then 8 else 0) +
     (if ck_SameSiteLax c then 14 else 0)"

definition setCookie :: "Cookie \<Rightarrow> bool \<Rightarrow> 'w io \<Rightarrow> 'w io" where
  "setCookie c insecure io =
     (let c = c\<lparr>ck_HttpOnly := True, ck_SameSiteLax := True, ck_Secure := \<not> insecure\<rparr>;
          io = (if cookie_String_length c > cookieSizeLimit
                then io_log LevelError ''the cookie is too large for a browser to store'' io else io)
      in io\<lparr>io_cookies := io_cookies io @ [c]\<rparr>)"

section \<open>Lemmas\<close>

named_theorems io_simps \<open>what writing to a response leaves of it\<close>

lemma io_log_simps [io_simps]:
  "io_cookies (io_log l m io) = io_cookies io" "io_status (io_log l m io) = io_status io"
  "io_location (io_log l m io) = io_location io" "io_world (io_log l m io) = io_world io"
  "io_body (io_log l m io) = io_body io" "io_headers (io_log l m io) = io_headers io"
  by (simp_all add: io_log_def)

lemma Header_simps [io_simps]:
  "io_cookies (Header_Set k v io) = io_cookies io" "io_status (Header_Set k v io) = io_status io"
  "io_location (Header_Set k v io) = io_location io" "io_world (Header_Set k v io) = io_world io"
  "io_body (Header_Set k v io) = io_body io" "io_logs (Header_Set k v io) = io_logs io"
  "io_cookies (Header_Add k v io) = io_cookies io" "io_status (Header_Add k v io) = io_status io"
  "io_location (Header_Add k v io) = io_location io" "io_world (Header_Add k v io) = io_world io"
  "io_body (Header_Add k v io) = io_body io" "io_logs (Header_Add k v io) = io_logs io"
  "io_headers (Header_Add k v io) = io_headers io @ [(k, v)]"
  by (simp_all add: Header_Set_def Header_Add_def)

lemma map_of_Header_Set [io_simps]:
  "map_of (io_headers (Header_Set k v io)) k' = (if k' = k then Some v else map_of (io_headers io) k')"
proof -
  have "map_of (filter (\<lambda>h. fst h \<noteq> k) hs) k' = (if k' = k then None else map_of hs k')" for hs :: "(string \<times> string) list"
    by (induction hs) auto
  then show ?thesis
    by (auto simp: Header_Set_def map_add_def split: option.split)
qed

lemma io_write_simps [io_simps]:
  "io_cookies (io_write out io) = io_cookies io" "io_location (io_write out io) = io_location io"
  "io_world (io_write out io) = io_world io" "io_headers (io_write out io) = io_headers io"
  "io_body (io_write out io) = io_body io @ out" "io_logs (io_write out io) = io_logs io"
  "io_status (io_write out io) = (case io_status io of None \<Rightarrow> Some 200 | Some m \<Rightarrow> Some m)"
  by (simp_all add: io_write_def split: option.split)

lemma setCookie_simps [io_simps]:
  "io_status (setCookie c i io) = io_status io" "io_location (setCookie c i io) = io_location io"
  "io_world (setCookie c i io) = io_world io" "io_body (setCookie c i io) = io_body io"
  "io_headers (setCookie c i io) = io_headers io"
  "io_cookies (setCookie c i io) =
     io_cookies io @ [c\<lparr>ck_HttpOnly := True, ck_SameSiteLax := True, ck_Secure := \<not> i\<rparr>]"
  by (simp_all add: setCookie_def Let_def io_log_simps)

lemma WriteHeader_simps [io_simps]:
  "io_cookies (WriteHeader n io) = io_cookies io" "io_location (WriteHeader n io) = io_location io"
  "io_world (WriteHeader n io) = io_world io" "io_headers (WriteHeader n io) = io_headers io"
  "io_body (WriteHeader n io) = io_body io" "io_logs (WriteHeader n io) = io_logs io"
  "io_status (WriteHeader n io) = (case io_status io of None \<Rightarrow> Some n | Some m \<Rightarrow> Some m)"
  by (simp_all add: WriteHeader_def split: option.split)

lemma http_Redirect_simps [io_simps]:
  "io_cookies (http_Redirect u n io) = io_cookies io" "io_location (http_Redirect u n io) = Some u"
  "io_world (http_Redirect u n io) = io_world io" "io_headers (http_Redirect u n io) = io_headers io"
  "io_logs (http_Redirect u n io) = io_logs io"
  "io_status (http_Redirect u n io) = (case io_status io of None \<Rightarrow> Some n | Some m \<Rightarrow> Some m)"
  by (simp_all add: http_Redirect_def io_simps)

lemma http_Error_simps [io_simps]:
  "io_cookies (http_Error m n io) = io_cookies io" "io_location (http_Error m n io) = io_location io"
  "io_world (http_Error m n io) = io_world io"
  "io_logs (http_Error m n io) = io_logs io"
  "io_status (http_Error m n io) = (case io_status io of None \<Rightarrow> Some n | Some m \<Rightarrow> Some m)"
  by (simp_all add: http_Error_def io_simps split: option.split)

text \<open>\<open>errors.Is\<close> sees through the errors with a status.\<close>

lemma errors_Is_HTTP [error_simps]:
  "errors_Is (NewHTTPError c i t e) s = errors_Is e s" "errors_Is (InternalHTTPError e) s = errors_Is e s"
  "errors_Is (LiteralHTTPError c e) s = errors_Is e s"
  by (simp_all add: NewHTTPError_def InternalHTTPError_def LiteralHTTPError_def)

text \<open>A path that a browser resolves against the origin it came from: it starts with one slash and
  not with what introduces another authority.\<close>

fun local_path :: "string \<Rightarrow> bool" where
  "local_path (a # b # r) = (a = CHR ''/'' \<and> b \<noteq> CHR ''/'' \<and> b \<noteq> CHR 0x5C)"
| "local_path [a] = (a = CHR ''/'')"
| "local_path [] = False"

lemma safeRedirectPath_local: "safeRedirectPath p = local_path p"
  by (cases p rule: local_path.cases) (auto simp: safeRedirectPath_def HasPrefix_def)

lemma Trim_ends:
  "Trim s c = a # r \<Longrightarrow> a \<noteq> c" "Trim s c \<noteq> [] \<Longrightarrow> last (Trim s c) \<noteq> c"
proof -
  let ?d = "dropWhile (\<lambda>x. x = c) (rev (dropWhile (\<lambda>x. x = c) s))"
  show "last (Trim s c) \<noteq> c" if "Trim s c \<noteq> []"
    using that hd_dropWhile [of "\<lambda>x. x = c" "rev (dropWhile (\<lambda>x. x = c) s)"]
    by (simp add: Trim_def last_rev)
  show "a \<noteq> c" if "Trim s c = a # r"
  proof -
    have d: "?d \<noteq> []" "last ?d = a"
      using that by (simp_all add: Trim_def)
    then have "last (rev (dropWhile (\<lambda>x. x = c) s)) = a"
      by (metis append_Nil2 append_is_Nil_conv dropWhile_eq_Nil_conv last_appendR takeWhile_dropWhile_id)
    moreover have "dropWhile (\<lambda>x. x = c) s \<noteq> []"
    proof
      assume "dropWhile (\<lambda>x. x = c) s = []"
      then have "?d = []" by (simp only: rev.simps dropWhile.simps)
      with d(1) show False by blast
    qed
    ultimately show ?thesis
      using hd_dropWhile [of "\<lambda>x. x = c" s] by (simp add: last_rev)
  qed
qed

lemma NewBasePath_local:
  assumes "Trim prefix CHR ''/'' = [] \<or> hd (Trim prefix CHR ''/'') \<noteq> CHR 0x5C" and "local_path t"
  shows "local_path (NewBasePath prefix @ t)"
proof (cases "Trim prefix CHR ''/''")
  case Nil
  then show ?thesis using assms(2) by (simp add: NewBasePath_def)
next
  case (Cons a r)
  then show ?thesis
    using assms Trim_ends(1) [OF Cons] by (cases "r @ t") (auto simp: NewBasePath_def)
qed

lemma resolveRedirect_prefix:
  assumes "Trim prefix CHR ''/'' = [] \<or> hd (Trim prefix CHR ''/'') \<noteq> CHR 0x5C"
  shows "local_path (resolveRedirect (NewBasePath prefix) target) \<and>
    HasPrefix (resolveRedirect (NewBasePath prefix) target) (NewBasePath prefix @ ''/'')"
proof -
  have "local_path (NewBasePath prefix @ ''/'')"
    by (rule NewBasePath_local [OF assms]) simp
  moreover have "local_path (NewBasePath prefix @ target)" if "safeRedirectPath target"
    by (rule NewBasePath_local [OF assms]) (use that safeRedirectPath_local in simp)
  moreover have "HasPrefix (NewBasePath prefix @ target) (NewBasePath prefix @ ''/'')" if ok: "safeRedirectPath target"
  proof -
    have "HasPrefix target ''/''"
      using ok by (simp add: safeRedirectPath_def split: if_splits)
    then obtain r where "target = ''/'' @ r"
      by (rule HasPrefixE)
    then show ?thesis
      using HasPrefix_append [of "NewBasePath prefix @ ''/''" r] by simp
  qed
  ultimately show ?thesis
    using HasPrefix_append [of "NewBasePath prefix @ ''/''" "[]"]
    by (simp add: resolveRedirect_def BasePath_Path_def)
qed

lemmas resolveRedirect_stays = resolveRedirect_prefix [THEN conjunct1]

section \<open>Properties\<close>



text \<open>The rule looks at the target as it is written.  A browser removes tabs and line ends from
  a URL before it resolves it, and there are targets that pass the rule and are scheme-relative
  URLs of another host once that is done.\<close>

theorem safeRedirectPath_stripped:
  "\<exists>p. safeRedirectPath p \<and>
     filter (\<lambda>c. c \<noteq> CHR 0x09 \<and> c \<noteq> CHR 0x0A \<and> c \<noteq> CHR 0x0D) p = ''//evil.example''"
  by (rule exI [of _ "CHR ''/'' # CHR 0x09 # ''/evil.example''"]) (simp add: safeRedirectPath_def HasPrefix_def)

text \<open>A mount point is normalised once and for all: empty, or one leading slash and no trailing
  one, and normalising it again changes nothing.\<close>

theorem NewBasePath_normal:
  "(NewBasePath p = [] \<or> (\<exists>r. NewBasePath p = CHR ''/'' # r \<and> r \<noteq> [] \<and> hd r \<noteq> CHR ''/'' \<and> last r \<noteq> CHR ''/'')) \<and>
   NewBasePath (NewBasePath p) = NewBasePath p"
proof (cases "Trim p CHR ''/''")
  case Nil
  have "Trim [] CHR ''/'' = []" by (simp add: Trim_def)
  with Nil show ?thesis by (simp add: NewBasePath_def)
next
  case (Cons a r)
  have e: "a \<noteq> CHR ''/''" "last (a # r) \<noteq> CHR ''/''"
    using Trim_ends [of p "CHR ''/''"] Cons by auto
  have "rev (a # r) \<noteq> [] \<and> hd (rev (a # r)) \<noteq> CHR ''/''"
    using e(2) by (simp add: hd_rev del: rev.simps)
  then have "dropWhile (\<lambda>x. x = CHR ''/'') (rev (a # r)) = rev (a # r)"
    by (subst dropWhile_eq_self_iff) blast
  moreover have "dropWhile (\<lambda>x. x = CHR ''/'') (CHR ''/'' # a # r) = a # r"
    using e(1) by simp
  ultimately have "Trim (CHR ''/'' # a # r) CHR ''/'' = a # r"
    by (simp only: Trim_def rev_rev_ident)
  then show ?thesis
    using Cons e by (simp add: NewBasePath_def)
qed

end
