(* ===== verification/TokenEndpoint.thy ===== *)
theory TokenEndpoint
  imports Http Store Unmarshal
begin

text \<open>
  \<open>token.go\<close>: the token endpoint round trip of a refresh, with the two shapes of answer a
  provider can give and the arithmetic on \<open>expires_in\<close>.  The HTTP client is a parameter.
\<close>

section \<open>Numbers\<close>

text \<open>A 64-bit product of a number of seconds and \<open>time.Second\<close>, as Go computes it.\<close>

definition seconds :: "int \<Rightarrow> duration" where
  "seconds n = sint (word_of_int n * word_of_int Second :: 64 word)"

section \<open>The answer of the token endpoint\<close>

type_synonym expirationTime = "32 word"

text \<open>A \<open>json.Number\<close> is the text of a number, or a string that holds one.\<close>

definition unmarshal_Number :: "json \<Rightarrow> string \<Rightarrow> string result" where
  "unmarshal_Number v old =
     (case v of
        JNull \<Rightarrow> Inr old
      | JNumber n \<Rightarrow> Inr n
      | JString raw \<Rightarrow>
          (case unquote raw of
             Some s \<Rightarrow> if isValidNumber s then Inr s else Inl (New ''json: invalid number literal'')
           | None \<Rightarrow> Inl cannot_unmarshal)
      | _ \<Rightarrow> Inl cannot_unmarshal)"

definition expirationTime_UnmarshalJSON :: "string \<Rightarrow> expirationTime \<Rightarrow> expirationTime result" where
  "expirationTime_UnmarshalJSON b e =
     (if b = [] \<or> b = ''null'' then Inr e
      else case Unmarshal unmarshal_Number b [] of
             Inl err \<Rightarrow> Inl err
           | Inr n \<Rightarrow>
               (case ParseInt n of
                  (i, True) \<Rightarrow> Inl (New ''strconv.ParseInt'')
                | (i, False) \<Rightarrow> Inr (word_of_int (if i > 2 ^ 31 - 1 then 2 ^ 31 - 1 else i))))"

record tokenJSON =
  tj_AccessToken :: string
  tj_TokenType :: string
  tj_RefreshToken :: string
  tj_ExpiresIn :: expirationTime
  tj_ErrorCode :: string
  tj_ErrorDescription :: string
  tj_ErrorURI :: string

definition zero_tokenJSON :: tokenJSON where
  "zero_tokenJSON = \<lparr>tj_AccessToken = [], tj_TokenType = [], tj_RefreshToken = [], tj_ExpiresIn = 0,
     tj_ErrorCode = [], tj_ErrorDescription = [], tj_ErrorURI = []\<rparr>"

definition tokenJSON_names :: "string list" where
  "tokenJSON_names = [''access_token'', ''token_type'', ''refresh_token'', ''expires_in'', ''error'',
     ''error_description'', ''error_uri'']"

definition tokenJSON_field :: "string \<Rightarrow> json \<Rightarrow> tokenJSON \<Rightarrow> tokenJSON result" where
  "tokenJSON_field name v tj =
     (if name = ''access_token'' then
        map_sum id (\<lambda>s. tj\<lparr>tj_AccessToken := s\<rparr>) (unmarshal_string v (tj_AccessToken tj))
      else if name = ''token_type'' then
        map_sum id (\<lambda>s. tj\<lparr>tj_TokenType := s\<rparr>) (unmarshal_string v (tj_TokenType tj))
      else if name = ''refresh_token'' then
        map_sum id (\<lambda>s. tj\<lparr>tj_RefreshToken := s\<rparr>) (unmarshal_string v (tj_RefreshToken tj))
      else if name = ''expires_in'' then
        map_sum id (\<lambda>e. tj\<lparr>tj_ExpiresIn := e\<rparr>) (expirationTime_UnmarshalJSON (json_text v) (tj_ExpiresIn tj))
      else if name = ''error'' then
        map_sum id (\<lambda>s. tj\<lparr>tj_ErrorCode := s\<rparr>) (unmarshal_string v (tj_ErrorCode tj))
      else if name = ''error_description'' then
        map_sum id (\<lambda>s. tj\<lparr>tj_ErrorDescription := s\<rparr>) (unmarshal_string v (tj_ErrorDescription tj))
      else map_sum id (\<lambda>s. tj\<lparr>tj_ErrorURI := s\<rparr>) (unmarshal_string v (tj_ErrorURI tj)))"

definition Unmarshal_tokenJSON :: "string \<Rightarrow> tokenJSON result" where
  "Unmarshal_tokenJSON body = Unmarshal (unmarshal_struct tokenJSON_names tokenJSON_field) body zero_tokenJSON"

definition tokenJSON_expiry :: "tokenJSON \<Rightarrow> time \<Rightarrow> time" where
  "tokenJSON_expiry e now =
     (if tj_ExpiresIn e \<noteq> 0 then now + seconds (sint (tj_ExpiresIn e)) else zeroTime)"

text \<open>The media type is what \<open>mime.ParseMediaType\<close> makes of the content type; reading the body
  stops after a megabyte, and may fail.\<close>

record HTTPResponse =
  resp_StatusCode :: int
  resp_MediaType :: string
  resp_Body :: string
  resp_BodyErr :: "go_error option"

definition retrieveError :: "string \<Rightarrow> go_error" where
  "retrieveError code = New (''oauth2: cannot fetch token: '' @ code)"

definition form_token :: "Values \<Rightarrow> time \<Rightarrow> Token" where
  "form_token vals now =
     (let expires = fst (ParseInt (Values_Get vals ''expires_in''))
      in \<lparr>AccessToken = Values_Get vals ''access_token'', TokenType = Values_Get vals ''token_type'',
          RefreshToken = Values_Get vals ''refresh_token'',
          Expiry = (if expires \<noteq> 0 then now + seconds expires else zeroTime), ExpiresIn = 0\<rparr>)"

definition json_token :: "tokenJSON \<Rightarrow> time \<Rightarrow> Token" where
  "json_token tj now =
     \<lparr>AccessToken = tj_AccessToken tj, TokenType = tj_TokenType tj, RefreshToken = tj_RefreshToken tj,
      Expiry = tokenJSON_expiry tj now, ExpiresIn = sint (tj_ExpiresIn tj)\<rparr>"

definition doTokenRoundTrip ::
  "('r \<Rightarrow> 'a world_scheme \<Rightarrow> HTTPResponse result \<times> 'a world_scheme) \<Rightarrow>
   'r \<Rightarrow> 'a world_scheme \<Rightarrow> Token option result \<times> 'a world_scheme" where
  "doTokenRoundTrip client req w =
     (case client req w of
        (Inl e, w1) \<Rightarrow> (Inl e, w1)
      | (Inr r, w1) \<Rightarrow>
          (case resp_BodyErr r of
             Some e \<Rightarrow> (Inl (New ''oauth2: cannot fetch token''), w1)
           | None \<Rightarrow>
               let body = take (2 ^ 20) (resp_Body r);
                   failureStatus = (resp_StatusCode r < 200 \<or> resp_StatusCode r > 299);
                   parsed =
                     (if resp_MediaType r \<in> {''application/x-www-form-urlencoded'', ''text/plain''} then
                        (case ParseQuery body of
                           (vals, True) \<Rightarrow>
                             if failureStatus then Inl (retrieveError [])
                             else Inl (New ''oauth2: cannot parse response'')
                         | (vals, False) \<Rightarrow> Inr (Values_Get vals ''error'', form_token vals (clock w1)))
                      else
                        (case Unmarshal_tokenJSON body of
                           Inl e \<Rightarrow>
                             if failureStatus then Inl (retrieveError [])
                             else Inl (New ''oauth2: cannot parse json'')
                         | Inr tj \<Rightarrow> Inr (tj_ErrorCode tj, json_token tj (clock w1))))
               in (case parsed of
                     Inl e \<Rightarrow> (Inl e, w1)
                   | Inr (errorCode, token) \<Rightarrow>
                       if failureStatus \<or> errorCode \<noteq> [] then (Inl (retrieveError errorCode), w1)
                       else if AccessToken token = [] then
                         (Inl (New ''oauth2: server response missing access_token''), w1)
                       else (Inr (Some token), w1))))"

section \<open>Lemmas\<close>

lemma seconds_small: "- (2 ^ 33) \<le> n \<Longrightarrow> n < 2 ^ 33 \<Longrightarrow> seconds n = n * Second"
proof -
  assume n: "- (2 ^ 33) \<le> n" "n < 2 ^ 33"
  have "seconds n = sint (word_of_int (n * Second) :: 64 word)"
    by (simp only: seconds_def wi_hom_mult)
  also have "\<dots> = signed_take_bit 63 (n * Second)"
    by (simp only: sint_sbintrunc') simp
  also have "\<dots> = n * Second"
    by (rule signed_take_bit_int_eq_self) (use n in simp_all)
  finally show ?thesis .
qed

lemma sint32_bounds: "- (2 ^ 31) \<le> sint (e :: 32 word)" "sint (e :: 32 word) < 2 ^ 31"
  using sint_ge [of e] sint_lt [of e] by simp_all

section \<open>Properties\<close>

lemma doTokenRoundTrip_Inr:
  "doTokenRoundTrip client req w = (Inr t, w') \<Longrightarrow> \<exists>tok. t = Some tok \<and> AccessToken tok \<noteq> []"
  unfolding doTokenRoundTrip_def Let_def
  by (auto split: prod.splits sum.splits option.splits if_splits bool.splits)

text \<open>A token the round trip returns came with a success status and no error code, and it
  carries an access token.  An \<open>expires_in\<close> in JSON is worth at most the 32-bit maximum of
  seconds, and the expiry it gives is that many seconds from the clock, without wrapping; the
  zero time stands for no \<open>expires_in\<close>.\<close>

theorem doTokenRoundTrip_token:
  assumes "doTokenRoundTrip client req w = (Inr t, w')"
  shows "\<exists>r tok. client req w = (Inr r, w') \<and> t = Some tok \<and> AccessToken tok \<noteq> [] \<and>
    200 \<le> resp_StatusCode r \<and> resp_StatusCode r \<le> 299 \<and>
    (resp_MediaType r \<notin> {''application/x-www-form-urlencoded'', ''text/plain''} \<longrightarrow>
       (\<exists>tj. Unmarshal_tokenJSON (take (2 ^ 20) (resp_Body r)) = Inr tj \<and> tj_ErrorCode tj = [] \<and>
          RefreshToken tok = tj_RefreshToken tj \<and>
          Expiry tok = (if ExpiresIn tok = 0 then zeroTime else clock w' + ExpiresIn tok * Second) \<and>
          - (2 ^ 31) \<le> ExpiresIn tok \<and> ExpiresIn tok < 2 ^ 31))"
proof -
  have z: "sint (e :: 32 word) = 0 \<longleftrightarrow> e = 0" for e
    using signed_0 signed_eq_0_iff by blast
  have "Expiry (json_token tj now) = (if ExpiresIn (json_token tj now) = 0 then zeroTime
        else now + ExpiresIn (json_token tj now) * Second)" for tj now
  proof -
    have "seconds (sint (tj_ExpiresIn tj)) = sint (tj_ExpiresIn tj) * Second"
      by (rule seconds_small) (use sint32_bounds [of "tj_ExpiresIn tj"] in simp_all)
    then show ?thesis
      by (simp add: json_token_def tokenJSON_expiry_def z)
  qed
  moreover have "- (2 ^ 31) \<le> ExpiresIn (json_token tj now) \<and> ExpiresIn (json_token tj now) < 2 ^ 31" for tj now
    using sint32_bounds by (simp add: json_token_def)
  moreover have "RefreshToken (json_token tj now) = tj_RefreshToken tj" for tj now
    by (simp add: json_token_def)
  ultimately show ?thesis
    using assms unfolding doTokenRoundTrip_def Let_def
    by (auto split: prod.splits sum.splits option.splits if_splits bool.splits)
qed

definition sample_answer :: string where
  "sample_answer = [CHR ''{'', CHR 0x22] @ ''access_token'' @ [CHR 0x22, CHR '':'', CHR 0x22, CHR ''a'', CHR 0x22,
     CHR '','', CHR 0x22] @ ''Expires_In'' @ [CHR 0x22] @ '' : 60}''"

lemma Unmarshal_sample_answer:
  "Unmarshal_tokenJSON sample_answer = Inr (zero_tokenJSON\<lparr>tj_AccessToken := ''a'', tj_ExpiresIn := 60\<rparr>)"
proof -
  have "json_parse sample_answer =
      Some (JObject [(''access_token'', JString ''a''), (''Expires_In'', JNumber ''60'')])"
    by code_simp
  moreover have "Option.bind (unquote ''access_token'') (field_name tokenJSON_names) = Some ''access_token''"
    "Option.bind (unquote ''Expires_In'') (field_name tokenJSON_names) = Some ''expires_in''"
    "unquote ''a'' = Some ''a''" "Unmarshal unmarshal_Number ''60'' [] = Inr ''60''"
    by code_simp+
  moreover have "ParseInt ''60'' = (60, False)"
    by (simp add: ParseInt_def HasPrefix_def)
  ultimately show ?thesis
    by (simp add: Unmarshal_tokenJSON_def Unmarshal_def unmarshal_struct_def tokenJSON_field_def
        unmarshal_string_def expirationTime_UnmarshalJSON_def)
qed

lemma sample_answer_short: "take 1048576 sample_answer = sample_answer"
  by (simp add: sample_answer_def)

lemma doTokenRoundTrip_token_witness:
  "\<exists>tok. doTokenRoundTrip
     (\<lambda>(r :: unit) w. (Inr \<lparr>resp_StatusCode = 200, resp_MediaType = ''application/json'', resp_Body = sample_answer,
       resp_BodyErr = None\<rparr>, w)) () \<lparr>clock = 5, rng = []\<rparr> = (Inr (Some tok), \<lparr>clock = 5, rng = []\<rparr>) \<and>
     AccessToken tok \<noteq> []"
proof -
  let ?c = "\<lambda>(r :: unit) w :: world. (Inr \<lparr>resp_StatusCode = 200, resp_MediaType = ''application/json'',
       resp_Body = sample_answer, resp_BodyErr = None\<rparr> :: HTTPResponse result, w)"
  have "doTokenRoundTrip ?c () \<lparr>clock = 5, rng = []\<rparr> =
      (Inr (Some (json_token (projr (Unmarshal_tokenJSON sample_answer)) 5)), \<lparr>clock = 5, rng = []\<rparr>)"
    by (simp add: doTokenRoundTrip_def Let_def json_token_def Unmarshal_sample_answer sample_answer_short
        zero_tokenJSON_def)
  from this doTokenRoundTrip_token [OF this] show ?thesis
    by blast
qed

text \<open>\<open>expires_in\<close> from JSON is narrowed to 32 bits from one side only: what is larger than
  the maximum becomes the maximum, what fits is kept, and what is smaller than the minimum wraps
  around.\<close>

theorem expirationTime_narrowing:
  assumes "Unmarshal unmarshal_Number b [] = Inr n" and "b \<noteq> []" and "b \<noteq> ''null''" and "ParseInt n = (i, False)"
  shows "\<exists>e. expirationTime_UnmarshalJSON b e0 = Inr e \<and>
    (2 ^ 31 - 1 < i \<longrightarrow> sint e = 2 ^ 31 - 1) \<and>
    (- (2 ^ 31) \<le> i \<and> i \<le> 2 ^ 31 - 1 \<longrightarrow> sint e = i) \<and>
    (i < - (2 ^ 31) \<longrightarrow> sint e = (i + 2 ^ 31) mod 2 ^ 32 - 2 ^ 31)"
proof -
  have s: "sint (word_of_int k :: 32 word) = signed_take_bit 31 k" for k
    by (simp add: sint_sbintrunc')
  have "signed_take_bit 31 k = k" if "- (2 ^ 31) \<le> k" "k < 2 ^ 31" for k :: int
    by (rule signed_take_bit_int_eq_self) (use that in simp_all)
  moreover have "signed_take_bit 31 k = (k + 2 ^ 31) mod 2 ^ 32 - 2 ^ 31" for k :: int
    by (simp add: signed_take_bit_eq_take_bit_shift take_bit_eq_mod)
  ultimately show ?thesis
    using assms by (auto simp: expirationTime_UnmarshalJSON_def s)
qed

lemma expirationTime_narrowing_witness:
  "\<exists>e. expirationTime_UnmarshalJSON ''-4294967295'' 0 = Inr e \<and> sint e = 1"
proof -
  have "ParseInt ''-4294967295'' = (- 4294967295, False)"
    by (simp add: ParseInt_def HasPrefix_def)
  moreover have "Unmarshal unmarshal_Number ''-4294967295'' [] = Inr ''-4294967295''"
    by code_simp
  ultimately show ?thesis
    using expirationTime_narrowing by fastforce
qed

text \<open>A lifetime in seconds may be a JSON number or a string that holds one: the two are read as the
  same, or refused alike.\<close>

theorem expires_in_as_string:
  assumes "isValidNumber n"
  shows "expirationTime_UnmarshalJSON (quoted n) e = expirationTime_UnmarshalJSON n e"
proof -
  have chars: "list_all number_char n"
    using number_chars [OF assms] .
  have "between 0x20 c 0x7F \<and> c \<noteq> CHR 0x22 \<and> c \<noteq> CHR 0x5C" if "number_char c" for c
    using that by (auto simp: number_char_def is_digit_def between_def Let_def)
  then have "literal_ok n" and raw: "unquote n = Some n"
    using chars literal_ok_plain [of n] by (auto simp: list_all_iff)
  then have "json_parse (quoted n) = Some (JString n)" "json_parse n = Some (JNumber n)"
    using json_parse_text [of "JString n"] json_parse_text [of "JNumber n"] assms by simp_all
  then have "Unmarshal unmarshal_Number (quoted n) [] = Unmarshal unmarshal_Number n []"
    using raw assms by (simp add: Unmarshal_def unmarshal_Number_def)
  moreover have "n \<noteq> []" "n \<noteq> ''null''"
    using assms by (auto simp: isValidNumber_def HasPrefix_def is_digit_def)
  ultimately show ?thesis
    by (simp add: expirationTime_UnmarshalJSON_def quoted_def)
qed

lemma expires_in_as_string_witness:
  "expirationTime_UnmarshalJSON (quoted ''-12'') 5 = expirationTime_UnmarshalJSON ''-12'' 5"
  by (rule expires_in_as_string) code_simp

text \<open>In the form-encoded shape nothing is narrowed, and the product with a second wraps: a
  provider that grants some three hundred years hands out a token that has expired already.\<close>

theorem form_expiry_wraps:
  "Expiry (form_token [(''access_token'', ''a''), (''expires_in'', ''9223372037'')] now) < now"
proof -
  have "ParseInt ''9223372037'' = (9223372037, False)"
    by (simp add: ParseInt_def HasPrefix_def)
  moreover have "seconds 9223372037 < 0"
    by (simp add: seconds_def)
  ultimately show ?thesis
    by (simp add: form_token_def Values_Get_def)
qed

end
