(* ===== verification/Auth.thy ===== *)
theory Auth
  imports CookieStore TokenEndpoint
begin

text \<open>
  \<open>application_auth.go\<close>: the OIDC component.  Its configuration and options, the session cookie
  (read, refused, cleared, written), the resolution of a session with its refresh and its key
  rollover, \<open>Keepalive\<close>, \<open>RequireAuth\<close> and \<open>OptionalAuth\<close>, and the login flow from the login
  page to the callback and logout.

  A handler takes the response written so far, with the environment in it, and returns its result
  and the response it leaves.  A nil pointer the code reads through without a check is the
  outcome \<open>Panic\<close>.  The provider (verifiers, authorisation URL, code exchange, HTTP client) is a
  parameter, and so is the token store, which is any record of the operations of theory \<open>Store\<close>.
\<close>

section \<open>Configuration\<close>

record IDToken =
  it_Subject :: string
  it_Nonce :: string

record token_request =
  tq_URL :: string
  tq_ContentType :: string
  tq_Body :: string

record 'w provider =
  op_VerifyAccess :: "string \<Rightarrow> 'w \<Rightarrow> IDToken result \<times> 'w"
  op_VerifyID :: "string \<Rightarrow> 'w \<Rightarrow> IDToken result \<times> 'w"
  op_Exchange :: "Context \<Rightarrow> string \<Rightarrow> 'w \<Rightarrow> (Token \<times> string option) result \<times> 'w"
  op_AuthCodeURL :: "string \<Rightarrow> string \<Rightarrow> string"
  op_TokenURL :: string
  op_TokenURL_ok :: bool
  op_Client :: "Context \<Rightarrow> token_request \<Rightarrow> 'w \<Rightarrow> HTTPResponse result \<times> 'w"
  op_TwirpHeaders :: "string \<Rightarrow> go_error option"
  op_UserInfo :: "Context \<Rightarrow> Token \<Rightarrow> 'w \<Rightarrow> any result \<times> 'w"

record 'w OIDCAuth =
  oa_provider :: "'w provider"
  oa_ClientID :: string
  oa_ClientSecret :: string
  oa_keyring :: CookieKeyring
  oa_onLogin :: "(IDToken \<Rightarrow> 'w \<Rightarrow> unit result \<times> 'w) option"
  oa_basePath :: BasePath
  oa_cookieName :: string
  oa_insecure :: bool
  oa_noLogoutMenuItem :: bool
  oa_store :: "'w TokenStore option"
  oa_maxSessionAge :: duration
  oa_maxSessionAgeSet :: bool
  oa_sessionDomain :: string
  oa_redirDomain :: string

abbreviation DefaultMaxSessionAge :: duration where "DefaultMaxSessionAge \<equiv> 12 * Hour"
definition tokenRefreshMargin :: duration where "tokenRefreshMargin = 10 * Second"
definition tokenRefreshTimeout :: duration where "tokenRefreshTimeout = 10 * Second"
definition assumedAccessTokenLifetime :: duration where "assumedAccessTokenLifetime = 5 * Minute"
definition authRedirCookieName :: string where "authRedirCookieName = ''auth_redir''"
definition loginFailedParam :: string where "loginFailedParam = ''login_failed''"
definition cookieAttributeBudget :: nat where "cookieAttributeBudget = 120"

type_synonym 'w OIDCAuthOption = "'w OIDCAuth \<Rightarrow> 'w OIDCAuth"

definition WithOnLogin :: "(IDToken \<Rightarrow> 'w \<Rightarrow> unit result \<times> 'w) \<Rightarrow> 'w OIDCAuthOption" where
  "WithOnLogin fn = (\<lambda>a. a\<lparr>oa_onLogin := Some fn\<rparr>)"

definition WithBasePath :: "BasePath \<Rightarrow> 'w OIDCAuthOption" where
  "WithBasePath bp = (\<lambda>a. a\<lparr>oa_basePath := bp\<rparr>)"

definition WithSessionCookieName :: "string \<Rightarrow> 'w OIDCAuthOption" where
  "WithSessionCookieName name = (\<lambda>a. a\<lparr>oa_cookieName := name\<rparr>)"

definition WithMaxSessionAge :: "duration \<Rightarrow> 'w OIDCAuthOption" where
  "WithMaxSessionAge d = (\<lambda>a. a\<lparr>oa_maxSessionAge := d, oa_maxSessionAgeSet := True\<rparr>)"

definition WithTokenStore :: "'w TokenStore \<Rightarrow> 'w OIDCAuthOption" where
  "WithTokenStore store = (\<lambda>a. a\<lparr>oa_store := Some store\<rparr>)"

definition WithoutLogoutMenuItem :: "'w OIDCAuthOption" where
  "WithoutLogoutMenuItem = (\<lambda>a. a\<lparr>oa_noLogoutMenuItem := True\<rparr>)"

definition WithInsecureCookies :: "'w OIDCAuthOption" where
  "WithInsecureCookies = (\<lambda>a. a\<lparr>oa_insecure := True\<rparr>)"

definition NewOIDCAuth ::
  "'a world_scheme flight \<Rightarrow> sessionPayload codec \<Rightarrow> 'a world_scheme provider \<Rightarrow> string \<Rightarrow> string \<Rightarrow>
   CookieKeyring option \<Rightarrow> 'a world_scheme OIDCAuthOption list \<Rightarrow> 'a world_scheme OIDCAuth result" where
  "NewOIDCAuth Do j provider clientID clientSecret keyring opts =
     (case keyring of
        None \<Rightarrow> Inl (New ''a cookie keyring is required'')
      | Some kr \<Rightarrow>
          let a = foldl (\<lambda>a opt. opt a)
            \<lparr>oa_provider = provider, oa_ClientID = clientID, oa_ClientSecret = clientSecret,
             oa_keyring = kr, oa_onLogin = None, oa_basePath = [], oa_cookieName = ''token'',
             oa_insecure = False, oa_noLogoutMenuItem = False, oa_store = None,
             oa_maxSessionAge = DefaultMaxSessionAge, oa_maxSessionAgeSet = False,
             oa_sessionDomain = [], oa_redirDomain = []\<rparr> opts
          in if oa_maxSessionAge a \<le> 0 then Inl (New ''the maximum session age must be positive'')
             else (case cookieDomain cookieDomainSession (oa_cookieName a) of
                Inl e \<Rightarrow> Inl (Errorf ''session cookie'' [e])
              | Inr sessionDomain \<Rightarrow>
                  (case cookieDomain cookieDomainAuthRedirect (oa_cookieName a) of
                     Inl e \<Rightarrow> Inl (Errorf ''auth redirect cookie'' [e])
                   | Inr redirDomain \<Rightarrow>
                       let a = a\<lparr>oa_sessionDomain := sessionDomain, oa_redirDomain := redirDomain\<rparr> in
                       if oa_store a \<noteq> None \<and> oa_maxSessionAgeSet a then
                         Inl (New ''WithMaxSessionAge cannot be combined with WithTokenStore'')
                       else if oa_store a = None then
                         Inr (a\<lparr>oa_store := Some (cookie_token_store Do j
                           (newCookieTokenStore (oa_keyring a) (oa_sessionDomain a) (oa_maxSessionAge a)))\<rparr>)
                       else Inr a)))"

text \<open>The store, which the constructor always leaves set.\<close>

definition auth_store :: "'w OIDCAuth \<Rightarrow> 'w TokenStore" where
  "auth_store a = the (oa_store a)"

section \<open>The context of an authenticated request\<close>

record auth_ctx =
  ac_Bearer :: "string option"
  ac_Twirp :: "string option"
  ac_Token :: "Token option"
  ac_AccessToken :: "IDToken option"

definition WithBearerToken :: "auth_ctx \<Rightarrow> string \<Rightarrow> auth_ctx" where
  "WithBearerToken c token = c\<lparr>ac_Bearer := Some token\<rparr>"

definition BearerToken :: "auth_ctx \<Rightarrow> string option" where
  "BearerToken c = ac_Bearer c"

definition AuthorizationHeader :: "auth_ctx \<Rightarrow> string option" where
  "AuthorizationHeader c =
     (case BearerToken c of None \<Rightarrow> None | Some token \<Rightarrow> Some (''Bearer '' @ token))"

definition sessionContext :: "'w provider \<Rightarrow> auth_ctx \<Rightarrow> Token \<Rightarrow> IDToken \<Rightarrow> auth_ctx result" where
  "sessionContext p c token accessToken =
     (let authCtx = WithBearerToken c (AccessToken token);
          header = ''Bearer '' @ AccessToken token
      in case op_TwirpHeaders p header of
           Some e \<Rightarrow> Inl (NewHTTPError 500 ''FailedToSetUpSession'' ''Failed to set up session'' e)
         | None \<Rightarrow> Inr (authCtx\<lparr>ac_Twirp := Some header, ac_Token := Some token,
                      ac_AccessToken := Some accessToken\<rparr>))"

section \<open>The session cookie\<close>

definition sessionGone :: "go_error \<Rightarrow> bool" where
  "sessionGone err \<longleftrightarrow> errors_Is err ErrNoSession \<or> errors_Is err ErrRefreshRejected"

definition sessionUnavailableError :: "go_error \<Rightarrow> go_error" where
  "sessionUnavailableError err =
     NewHTTPError 503 ''SessionUnavailable'' ''Your session could not be read, please try again'' err"

abbreviation cookie :: "string \<Rightarrow> string \<Rightarrow> string \<Rightarrow> time option \<Rightarrow> int \<Rightarrow> Cookie" where
  "cookie name v path expires maxAge \<equiv>
     \<lparr>ck_Name = name, ck_Value = v, ck_Path = path, ck_Expires = expires, ck_MaxAge = maxAge,
      ck_HttpOnly = False, ck_Secure = False, ck_SameSiteLax = False\<rparr>"

definition setTokenCookie ::
  "'w OIDCAuth \<Rightarrow> StoredToken \<Rightarrow> 'w io \<Rightarrow> unit result \<times> 'w io" where
  "setTokenCookie a session io =
     (if length (Handle session) + length (oa_cookieName a) + cookieAttributeBudget > cookieSizeLimit
      then (Inl (New ''the session cookie would be over what a cookie can hold''), io)
      else (Inr (), setCookie (cookie (oa_cookieName a) (Handle session)
              (BasePath_Path (oa_basePath a) ''/'') (Some (ExpiresAt session)) 0) (oa_insecure a) io))"

definition clearTokenCookie :: "'a world_scheme OIDCAuth \<Rightarrow> 'a world_scheme io \<Rightarrow> 'a world_scheme io" where
  "clearTokenCookie a io =
     setCookie (cookie (oa_cookieName a) [] (BasePath_Path (oa_basePath a) ''/'')
       (Some (clock (io_world io) - 24 * Hour)) (- 1)) (oa_insecure a) io"

definition rejectTokenCookie ::
  "'a world_scheme OIDCAuth \<Rightarrow> go_error \<Rightarrow> 'a world_scheme io \<Rightarrow> go_error \<times> 'a world_scheme io" where
  "rejectTokenCookie a err io =
     (if \<not> sessionGone err then (err, io_log LevelError ''read the session'' io)
      else let level = (if errors_Is err ErrAuthentication then LevelWarn else LevelInfo)
           in (err, clearTokenCookie a (io_log level ''unusable session cookie'' io)))"

definition readTokenCookie ::
  "'a world_scheme OIDCAuth \<Rightarrow> Context \<Rightarrow> Request \<Rightarrow> 'a world_scheme io \<Rightarrow>
   StoredToken result outcome \<times> 'a world_scheme io" where
  "readTokenCookie a ctx r io =
     (case r_Cookie r (oa_cookieName a) of
        Inl e \<Rightarrow> (Value (Inl (Errorf ''read session cookie'' [Sentinel ErrNoSession, e])), io)
      | Inr v \<Rightarrow>
          (case ts_Get (auth_store a) ctx v (io_world io) of
             (Inl e, w) \<Rightarrow>
               (case rejectTokenCookie a e (io\<lparr>io_world := w\<rparr>) of (e', io') \<Rightarrow> (Value (Inl e'), io'))
           | (Inr None, w) \<Rightarrow> (Panic, io\<lparr>io_world := w\<rparr>)
           | (Inr (Some session), w) \<Rightarrow>
               if st_Token session = None then
                 (case rejectTokenCookie a (Errorf ''the store returned a session with no token''
                         [Sentinel ErrNoSession]) (io\<lparr>io_world := w\<rparr>) of
                    (e', io') \<Rightarrow> (Value (Inl e'), io'))
               else (Value (Inr session), io\<lparr>io_world := w\<rparr>)))"

section \<open>Refresh\<close>

definition detachedDeadline :: "Context \<Rightarrow> duration \<Rightarrow> time \<Rightarrow> Context" where
  "detachedDeadline ctx timeout now =
     (let deadline = now + timeout;
          deadline = (case ctx_Deadline ctx of
            Some parent \<Rightarrow> if parent < deadline then parent else deadline
          | None \<Rightarrow> deadline)
      in WithDeadline (WithoutCancel ctx) deadline)"

definition assumeTokenExpiry :: "time \<Rightarrow> Token \<Rightarrow> Token" where
  "assumeTokenExpiry now token =
     (if \<not> IsZero (Expiry token) then token
      else token\<lparr>Expiry := now + assumedAccessTokenLifetime\<rparr>)"

text \<open>The form body of the refresh, its keys in the order \<open>Encode\<close> gives them.\<close>

definition refresh_request :: "'w OIDCAuth \<Rightarrow> string \<Rightarrow> token_request" where
  "refresh_request a refreshToken =
     \<lparr>tq_URL = op_TokenURL (oa_provider a), tq_ContentType = ''application/x-www-form-urlencoded'',
      tq_Body = Encode1 ''client_id'' (oa_ClientID a) @ ''&'' @
        Encode1 ''client_secret'' (oa_ClientSecret a) @ ''&'' @
        Encode1 ''grant_type'' ''refresh_token'' @ ''&'' @
        Encode1 ''refresh_token'' refreshToken\<rparr>"

definition exchangeRefreshToken ::
  "'a world_scheme OIDCAuth \<Rightarrow> Context \<Rightarrow> string \<Rightarrow> 'a world_scheme \<Rightarrow> Token option result \<times> 'a world_scheme" where
  "exchangeRefreshToken a ctx refreshToken w =
     (if \<not> op_TokenURL_ok (oa_provider a)
      then (Inl (Errorf ''create token refresh request'' [New ''parse the token URL'']), w)
      else case doTokenRoundTrip (op_Client (oa_provider a) (detachedDeadline ctx tokenRefreshTimeout (clock w)))
             (refresh_request a refreshToken) w of
        (Inl e, w') \<Rightarrow> (Inl (Errorf ''token endpoint round trip'' [e]), w')
      | (Inr token, w') \<Rightarrow>
          (Inr (map_option (\<lambda>t. assumeTokenExpiry (clock w')
             (if RefreshToken t = [] then t\<lparr>RefreshToken := refreshToken\<rparr> else t)) token), w'))"

definition exchangeToken :: "'a world_scheme OIDCAuth \<Rightarrow> 'a world_scheme exchange" where
  "exchangeToken a ctx token w =
     (case token of
        None \<Rightarrow> (Inl (New ''nil pointer dereference''), w)
      | Some t \<Rightarrow>
          (case exchangeRefreshToken a ctx (RefreshToken t) w of
             (Inl e, w') \<Rightarrow> (Inl (Errorf [] [Sentinel ErrRefreshRejected, e]), w')
           | (Inr tok, w') \<Rightarrow> (Inr tok, w')))"

definition resealSession ::
  "'a world_scheme OIDCAuth \<Rightarrow> Context \<Rightarrow> StoredToken \<Rightarrow> 'a world_scheme io \<Rightarrow>
   StoredToken option \<times> 'a world_scheme io" where
  "resealSession a ctx session io =
     (case ts_Reseal (auth_store a) ctx session (io_world io) of
        (Inl e, w) \<Rightarrow> (Some session, io_log LevelError ''re-seal session cookie'' (io\<lparr>io_world := w\<rparr>))
      | (Inr resealed, w) \<Rightarrow> (resealed, io\<lparr>io_world := w\<rparr>))"

definition migrateSessionCookie ::
  "'a world_scheme OIDCAuth \<Rightarrow> Context \<Rightarrow> StoredToken \<Rightarrow> 'a world_scheme io \<Rightarrow>
   unit outcome \<times> 'a world_scheme io" where
  "migrateSessionCookie a ctx session io =
     (case resealSession a ctx session io of
        (None, io1) \<Rightarrow> (Panic, io1)
      | (Some resealed, io1) \<Rightarrow>
          if Handle resealed = Handle session then (Value (), io1)
          else (case setTokenCookie a resealed io1 of
                  (Inl e, io2) \<Rightarrow> (Value (), io_log LevelError ''re-seal session cookie'' io2)
                | (Inr _, io2) \<Rightarrow> (Value (), io2)))"

definition checkTokenExpiry ::
  "'a world_scheme OIDCAuth \<Rightarrow> Context \<Rightarrow> StoredToken \<Rightarrow> 'a world_scheme io \<Rightarrow>
   Token option result outcome \<times> 'a world_scheme io" where
  "checkTokenExpiry a ctx session io =
     (case st_Token session of
        None \<Rightarrow> (Panic, io)
      | Some tok \<Rightarrow>
          if time_Sub (Expiry tok) (clock (io_world io)) > tokenRefreshMargin then
            (if Stale session then
               (case migrateSessionCookie a ctx session io of
                  (Panic, io1) \<Rightarrow> (Panic, io1)
                | (Value _, io1) \<Rightarrow> (Value (Inr (st_Token session)), io1))
             else (Value (Inr (st_Token session)), io))
          else
            (case ts_Refresh (auth_store a) ctx session (exchangeToken a) (io_world io) of
               (Inl e, w) \<Rightarrow> (Value (Inl (Errorf ''refresh the access token'' [e])), io\<lparr>io_world := w\<rparr>)
             | (Inr refreshed, w) \<Rightarrow>
                 let io1 = io\<lparr>io_world := w\<rparr> in
                 (case refreshed of
                    None \<Rightarrow>
                      (Value (Inl (Errorf ''the store refreshed the session into one with no token''
                         [Sentinel ErrNoSession])), io1)
                  | Some s1 \<Rightarrow>
                      if st_Token s1 = None then
                        (Value (Inl (Errorf ''the store refreshed the session into one with no token''
                           [Sentinel ErrNoSession])), io1)
                      else
                        (case (if Stale session then resealSession a ctx s1 io1 else (Some s1, io1)) of
                           (None, io2) \<Rightarrow> (Panic, io2)
                         | (Some s2, io2) \<Rightarrow>
                             if Handle s2 \<noteq> Handle session then
                               (case setTokenCookie a s2 io2 of
                                  (Inl e, io3) \<Rightarrow>
                                    (Value (Inl (Errorf ''set the session cookie'' [Sentinel ErrNoSession, e])), io3)
                                | (Inr _, io3) \<Rightarrow> (Value (Inr (st_Token s2)), io3))
                             else (Value (Inr (st_Token s2)), io2)))))"

end
