(* ===== verification/Url.thy ===== *)
theory Url
  imports Http
begin

text \<open>
  What \<open>page_mux.go\<close> uses of net/url: \<open>url.Parse\<close> up to the \<open>Host\<close> of the URL it returns.  The
  steps are those of the library in the Go version of \<open>go.mod\<close> (a host has at most one colon
  outside brackets); whether the text between brackets is an IPv6 address, which netip decides,
  is the parameter \<open>ip6\<close>.
\<close>

section \<open>Characters\<close>

definition is_letter :: "char \<Rightarrow> bool" where
  "is_letter c \<longleftrightarrow> (let n = of_char c :: nat in 65 \<le> n \<and> n \<le> 90 \<or> 97 \<le> n \<and> n \<le> 122)"

definition is_ctl :: "char \<Rightarrow> bool" where
  "is_ctl c \<longleftrightarrow> (let n = of_char c :: nat in n < 32 \<or> n = 127)"

definition scheme_char :: "char \<Rightarrow> bool" where
  "scheme_char c \<longleftrightarrow> is_letter c \<or> is_digit c \<or> c \<in> set ''+-.''"

text \<open>What may stand unescaped in a host: the unreserved characters, the sub-delimiters and a few
  more, and every byte that is not ASCII.\<close>

definition host_char :: "char \<Rightarrow> bool" where
  "host_char c \<longleftrightarrow> unreserved c \<or> c \<in> set ''!$&()*+,;=:[]<>'' \<or> c = CHR 0x27 \<or> c = CHR 0x22 \<or>
     128 \<le> (of_char c :: nat)"

definition userinfo_char :: "char \<Rightarrow> bool" where
  "userinfo_char c \<longleftrightarrow> unreserved c \<or> c \<in> set '':!$&()*+,;=%@'' \<or> c = CHR 0x27"

text \<open>\<open>unescape\<close>: the escapes that are well formed and that the mode lets through are decoded,
  and a character the mode does not let stand is an error.\<close>

fun unescape :: "(nat \<Rightarrow> nat \<Rightarrow> bool) \<Rightarrow> (char \<Rightarrow> bool) \<Rightarrow> string \<Rightarrow> string option" where
  "unescape esc ok [] = Some []"
| "unescape esc ok (c # s) =
     (if c = CHR ''%'' then
        (case s of
           a # b # r \<Rightarrow>
             (case (unhex a, unhex b) of
                (Some x, Some y) \<Rightarrow>
                  if esc x y then map_option (\<lambda>t. char_of (16 * x + y) # t) (unescape esc ok r)
                  else None
              | _ \<Rightarrow> None)
         | _ \<Rightarrow> None)
      else if ok c then map_option (\<lambda>t. c # t) (unescape esc ok s)
      else None)"

definition unescape_host :: "string \<Rightarrow> string option" where
  "unescape_host = unescape (\<lambda>x y. 8 \<le> x \<or> x = 2 \<and> y = 5) host_char"

definition unescape_zone :: "string \<Rightarrow> string option" where
  "unescape_zone = unescape (\<lambda>x y. 16 * x + y \<in> {37, 32} \<or> host_char (char_of (16 * x + y))) host_char"

definition escapes_ok :: "string \<Rightarrow> bool" where
  "escapes_ok s \<longleftrightarrow> unescape (\<lambda>x y. True) (\<lambda>c. True) s \<noteq> None"

section \<open>The parts of a URL\<close>

text \<open>\<open>getScheme\<close>: the scheme, empty where there is none, and what follows it.\<close>

definition getScheme :: "string \<Rightarrow> (string \<times> string) option" where
  "getScheme s =
     (let pre = takeWhile scheme_char s in
      case dropWhile scheme_char s of
        [] \<Rightarrow> Some ([], s)
      | c # r \<Rightarrow>
          if c \<noteq> CHR '':'' then Some ([], s)
          else if pre = [] then None
          else if is_letter (hd pre) then Some (pre, r) else Some ([], s))"

definition validOptionalPort :: "string \<Rightarrow> bool" where
  "validOptionalPort p \<longleftrightarrow> (case p of [] \<Rightarrow> True | c # r \<Rightarrow> c = CHR '':'' \<and> list_all is_digit r)"

text \<open>What comes before and after the last occurrence of a character.\<close>

definition CutLast :: "string \<Rightarrow> char \<Rightarrow> (string \<times> string) option" where
  "CutLast s c = map_option (\<lambda>(b, a). (rev a, rev b)) (Cut (rev s) c)"

text \<open>\<open>strings.Index\<close> of the zone separator, as the parts around it.\<close>

fun cut_zone :: "string \<Rightarrow> (string \<times> string) option" where
  "cut_zone [] = None"
| "cut_zone (c # s) =
     (if HasPrefix (c # s) ''%25'' then Some ([], c # s)
      else map_option (\<lambda>(a, b). (c # a, b)) (cut_zone s))"

definition parseHost :: "(string \<Rightarrow> bool) \<Rightarrow> string \<Rightarrow> string option" where
  "parseHost ip6 host =
     (if HasPrefix host ''['' then
        (case CutLast (tl host) CHR '']'' of
           None \<Rightarrow> None
         | Some (name, port) \<Rightarrow>
             if \<not> validOptionalPort port then None
             else (case (case cut_zone name of
                           Some (a, z) \<Rightarrow>
                             (case (unescape_host a, unescape_zone z) of
                                (Some a', Some z') \<Rightarrow> Some (a' @ z') | _ \<Rightarrow> None)
                         | None \<Rightarrow> unescape_host name) of
                     None \<Rightarrow> None
                   | Some n \<Rightarrow> if ip6 n then Some (''['' @ n @ '']'' @ port) else None))
      else if CHR ''['' \<in> set host then None
      else (case CutLast host CHR '':'' of
              None \<Rightarrow> unescape_host host
            | Some (name, port) \<Rightarrow>
                if CHR '':'' \<in> set name \<or> \<not> list_all is_digit port then None
                else unescape_host host))"

definition parseAuthority :: "(string \<Rightarrow> bool) \<Rightarrow> string \<Rightarrow> string option" where
  "parseAuthority ip6 authority =
     (case CutLast authority CHR ''@'' of
        None \<Rightarrow> parseHost ip6 authority
      | Some (userinfo, host) \<Rightarrow>
          (case parseHost ip6 host of
             None \<Rightarrow> None
           | Some h \<Rightarrow> if list_all userinfo_char userinfo \<and> escapes_ok userinfo then Some h else None))"

text \<open>\<open>Cut\<close> that keeps the whole string where there is no separator.\<close>

definition before :: "char \<Rightarrow> string \<Rightarrow> string" where
  "before c s = takeWhile (\<lambda>x. x \<noteq> c) s"

definition url_Parse_Host :: "(string \<Rightarrow> bool) \<Rightarrow> string \<Rightarrow> string option" where
  "url_Parse_Host ip6 rawURL =
     (let u = before CHR ''#'' rawURL; frag = drop (Suc (length u)) rawURL in
      if list_ex is_ctl u then None
      else if \<not> escapes_ok frag then None
      else if u = ''*'' then Some []
      else (case getScheme u of
              None \<Rightarrow> None
            | Some (scheme, rest) \<Rightarrow>
                let rest = before CHR ''?'' rest in
                if \<not> HasPrefix rest ''/'' \<and> scheme \<noteq> [] then Some []
                else if \<not> HasPrefix rest ''/'' \<and> CHR '':'' \<in> set (before CHR ''/'' rest) then None
                else if (scheme \<noteq> [] \<or> \<not> HasPrefix rest ''///'') \<and> HasPrefix rest ''//'' then
                  (let authority = before CHR ''/'' (drop 2 rest);
                       path = drop (length authority) (drop 2 rest)
                   in case parseAuthority ip6 authority of
                        None \<Rightarrow> None
                      | Some h \<Rightarrow> if escapes_ok path then Some h else None)
                else if escapes_ok rest then Some [] else None))"

section \<open>What a browser sends\<close>

text \<open>The serialised origin of a browser: a scheme, a host name of letters, digits, hyphens and dots,
  and a port where it is not the default.\<close>

definition plain :: "char \<Rightarrow> bool" where
  "plain c \<longleftrightarrow> is_letter c \<or> is_digit c \<or> c = CHR ''-'' \<or> c = CHR ''.''"

definition host_port :: "string \<Rightarrow> string \<Rightarrow> bool" where
  "host_port name port \<longleftrightarrow> name \<noteq> [] \<and> list_all plain name \<and> validOptionalPort port"

lemma plain_chars:
  "plain c \<Longrightarrow> host_char c \<and> \<not> is_ctl c \<and>
     c \<notin> {CHR ''#'', CHR ''?'', CHR ''/'', CHR '':'', CHR ''@'', CHR ''['', CHR '']'', CHR ''%''}"
  by (auto simp: plain_def is_letter_def is_digit_def host_char_def unreserved_def is_ctl_def Let_def)

lemma digit_plain: "is_digit c \<Longrightarrow> plain c" "is_letter c \<Longrightarrow> plain c"
  by (simp_all add: plain_def)

lemma takeWhile_all: "list_all P xs \<Longrightarrow> takeWhile P (xs @ ys) = xs @ takeWhile P ys"
  by (induction xs) auto

lemma dropWhile_all: "list_all P xs \<Longrightarrow> dropWhile P (xs @ ys) = dropWhile P ys"
  by (induction xs) auto

lemma before_none: "c \<notin> set s \<Longrightarrow> before c s = s" "c \<notin> set s \<Longrightarrow> before c (s @ c # r) = s"
  by (induction s) (auto simp: before_def)

lemma CutLast_none: "c \<notin> set s \<Longrightarrow> CutLast s c = None"
  by (simp add: CutLast_def Cut_None)

lemma CutLast_last:
  assumes "c \<notin> set b"
  shows "CutLast (a @ c # b) c = Some (a, b)"
  using Cut_append [of c "rev b" "rev a"] assms by (simp add: CutLast_def)

lemma unescape_plain:
  "list_all (\<lambda>c. ok c \<and> c \<noteq> CHR ''%'') s \<Longrightarrow> unescape esc ok s = Some s"
  by (induction s) auto

lemma host_port_chars:
  assumes "host_port name port"
  shows "\<forall>c \<in> set (name @ port). host_char c \<and> \<not> is_ctl c \<and>
    c \<notin> {CHR ''#'', CHR ''?'', CHR ''/'', CHR ''@'', CHR ''['', CHR '']'', CHR ''%''}"
    and "CHR '':'' \<notin> set name"
proof -
  have name: "\<forall>c \<in> set name. plain c"
    using assms by (simp add: host_port_def list_all_iff)
  have port: "port = [] \<or> (\<exists>r. port = CHR '':'' # r \<and> (\<forall>c \<in> set r. plain c))"
    using assms digit_plain(1)
    by (auto simp: host_port_def validOptionalPort_def list_all_iff split: list.splits)
  have "host_char CHR '':'' \<and> \<not> is_ctl CHR '':''"
    by (simp add: host_char_def is_ctl_def)
  then show "\<forall>c \<in> set (name @ port). host_char c \<and> \<not> is_ctl c \<and>
      c \<notin> {CHR ''#'', CHR ''?'', CHR ''/'', CHR ''@'', CHR ''['', CHR '']'', CHR ''%''}"
    using name port plain_chars by fastforce
  show "CHR '':'' \<notin> set name"
    using name plain_chars by blast
qed

lemma parseAuthority_plain:
  assumes hp: "host_port name port"
  shows "parseAuthority ip6 (name @ port) = Some (name @ port)"
proof -
  note chars = host_port_chars [OF hp]
  have no_at: "CHR ''@'' \<notin> set (name @ port)" and no_br: "CHR ''['' \<notin> set (name @ port)"
    using chars(1) by blast+
  obtain a r where name: "name = a # r" and a: "a \<in> set (name @ port)"
    using hp by (cases name) (simp_all add: host_port_def)
  have "a \<noteq> CHR ''[''"
    using a no_br by blast
  then have nb: "\<not> HasPrefix (name @ port) ''[''"
    by (simp add: name HasPrefix_def)
  have un: "unescape_host (name @ port) = Some (name @ port)"
    unfolding unescape_host_def by (rule unescape_plain) (use chars(1) in \<open>simp add: list_all_iff\<close>)
  have "parseHost ip6 (name @ port) = Some (name @ port)"
  proof (cases port)
    case Nil
    then show ?thesis
      using nb no_br un chars(2) by (simp add: parseHost_def CutLast_none)
  next
    case (Cons c r')
    then have c: "c = CHR '':''" "list_all is_digit r'"
      using hp by (simp_all add: host_port_def validOptionalPort_def)
    then have "CHR '':'' \<notin> set r'"
      by (auto simp: list_all_iff is_digit_def)
    then have cl: "CutLast (name @ CHR '':'' # r') CHR '':'' = Some (name, r')"
      by (rule CutLast_last)
    then show ?thesis
      using nb no_br un chars(2) c Cons by (simp add: parseHost_def)
  qed
  then show ?thesis
    using no_at by (simp add: parseAuthority_def CutLast_none)
qed

text \<open>The host of an origin is the host it was serialised from.\<close>

lemma url_Parse_Host_origin:
  assumes scheme: "scheme \<noteq> []" "list_all is_letter scheme" and hp: "host_port name port"
  shows "url_Parse_Host ip6 (scheme @ ''://'' @ name @ port) = Some (name @ port)"
proof -
  let ?h = "name @ port" let ?u = "scheme @ ''://'' @ ?h"
  have sc: "\<forall>c \<in> set scheme. plain c" "list_all scheme_char scheme"
    using scheme(2) digit_plain(2) by (auto simp: list_all_iff scheme_char_def)
  note chars = host_port_chars(1) [OF hp]
  have hash: "CHR ''#'' \<notin> set ?u" and ctl: "\<not> list_ex is_ctl ?u"
    using sc(1) chars plain_chars by (auto simp: list_ex_iff is_ctl_def)
  have colon: "\<not> scheme_char CHR '':''"
    by (simp add: scheme_char_def is_letter_def is_digit_def)
  have gs: "getScheme ?u = Some (scheme, ''//'' @ ?h)"
    using scheme sc(2) colon
    by (cases scheme) (simp_all add: getScheme_def takeWhile_all dropWhile_all Let_def)
  have q: "CHR ''?'' \<notin> set (''//'' @ ?h)"
    using chars by auto
  have slash: "CHR ''/'' \<notin> set ?h"
    using chars by blast
  have star: "?u \<noteq> ''*''"
    using scheme(1) by (cases scheme) simp_all
  have esc: "escapes_ok []"
    by (simp add: escapes_ok_def)
  have p: "HasPrefix (''//'' @ ?h) ''/''" "HasPrefix (''//'' @ ?h) ''//''"
    by (simp_all add: HasPrefix_def)
  show ?thesis
    unfolding url_Parse_Host_def Let_def before_none(1) [OF hash]
    using ctl star gs esc scheme(1) p before_none(1) [OF q] before_none(1) [OF slash] parseAuthority_plain [OF hp]
    by simp
qed

text \<open>The opaque origin has no host.\<close>

lemma url_Parse_Host_null: "url_Parse_Host ip6 ''null'' = Some []"
  by (simp add: url_Parse_Host_def before_def is_ctl_def escapes_ok_def getScheme_def scheme_char_def
      is_letter_def is_digit_def HasPrefix_def Let_def)

end
