(* ===== verification/Menu.thy ===== *)
theory Menu
  imports Http "HOL-Library.Multiset"
begin

text \<open>
  \<open>menu.go\<close>: hooks, the menu items they collect and alter, and the sort of a menu by weight.  A
  weight is a Go \<open>int\<close>, 64 bits wide, and the comparison subtracts.
\<close>

section \<open>Hooks\<close>

record MenuItem =
  mi_Title :: TextLabel
  mi_Active :: bool
  mi_HREF :: string
  mi_Weight :: "64 word"

text \<open>A hook is a list of functions that give items, and of functions that alter a list of them with
  the context, the request and the data of the page at hand.\<close>

type_synonym 't HookFunc = "unit \<Rightarrow> 't list"
type_synonym ('x, 'd, 't) HookAlterFunc = "'x \<Rightarrow> Request \<times> 'd \<Rightarrow> 't list \<Rightarrow> 't list"

record ('x, 'd, 't) Hooks =
  hk_funcs :: "'t HookFunc list"
  hk_alterFuncs :: "('x, 'd, 't) HookAlterFunc list"

definition RegisterHook :: "'t HookFunc \<Rightarrow> ('x, 'd, 't) Hooks \<Rightarrow> ('x, 'd, 't) Hooks" where
  "RegisterHook fn h = h\<lparr>hk_funcs := hk_funcs h @ [fn]\<rparr>"

definition RegisterAlter :: "('x, 'd, 't) HookAlterFunc \<Rightarrow> ('x, 'd, 't) Hooks \<Rightarrow> ('x, 'd, 't) Hooks" where
  "RegisterAlter fn h = h\<lparr>hk_alterFuncs := hk_alterFuncs h @ [fn]\<rparr>"

definition Collect_items :: "('x, 'd, 't) Hooks \<Rightarrow> 't list" where
  "Collect_items h = foldl (\<lambda>list fn. list @ fn ()) [] (hk_funcs h)"

definition Alter :: "('x, 'd, 't) Hooks \<Rightarrow> 'x \<Rightarrow> Request \<times> 'd \<Rightarrow> 't list \<Rightarrow> 't list" where
  "Alter h ctx data list = foldl (\<lambda>list fn. fn ctx data list) list (hk_alterFuncs h)"

text \<open>Items come in the order the hooks were registered, and alterations are applied in theirs.\<close>

lemma foldl_append_map: "foldl (\<lambda>acc fn. acc @ fn ()) acc fs = acc @ concat (map (\<lambda>fn. fn ()) fs)"
  by (induction fs arbitrary: acc) simp_all

lemma Collect_items_RegisterHook:
  "Collect_items (RegisterHook fn h) = Collect_items h @ fn ()"
  by (simp add: Collect_items_def RegisterHook_def foldl_append_map)

lemma Alter_RegisterAlter:
  "Alter (RegisterAlter fn h) ctx data list = fn ctx data (Alter h ctx data list)"
  by (simp add: Alter_def RegisterAlter_def)

section \<open>Sorting\<close>

text \<open>\<open>slices.SortStableFunc\<close> by insertion, the way the library sorts up to twenty elements: an element
  moves in front of its predecessors for as long as it compares below them.  The sorted prefix is
  kept last element first.  A longer list is sorted in such blocks that are then merged stably,
  which for a comparison that orders the elements is the same list.\<close>

fun insert_back :: "('a \<Rightarrow> 'a \<Rightarrow> int) \<Rightarrow> 'a \<Rightarrow> 'a list \<Rightarrow> 'a list" where
  "insert_back cmp x [] = [x]"
| "insert_back cmp x (y # ys) = (if cmp x y < 0 then y # insert_back cmp x ys else x # y # ys)"

definition SortStableFunc :: "('a \<Rightarrow> 'a \<Rightarrow> int) \<Rightarrow> 'a list \<Rightarrow> 'a list" where
  "SortStableFunc cmp xs = rev (foldl (\<lambda>acc x. insert_back cmp x acc) [] xs)"

definition SortMenuItems :: "MenuItem list \<Rightarrow> MenuItem list" where
  "SortMenuItems menu = SortStableFunc (\<lambda>a b. sint (mi_Weight a - mi_Weight b)) menu"

section \<open>Lemmas\<close>

lemma mset_insert_back: "mset (insert_back cmp x ys) = add_mset x (mset ys)"
  by (induction ys) simp_all

lemma mset_insertions: "mset (foldl (\<lambda>acc x. insert_back cmp x acc) acc xs) = mset acc + mset xs"
  by (induction xs arbitrary: acc) (simp_all add: mset_insert_back)

text \<open>Sorting loses and invents nothing, whatever the comparison answers.\<close>

lemma mset_SortStableFunc: "mset (SortStableFunc cmp xs) = mset xs"
  by (simp add: SortStableFunc_def mset_insertions)

text \<open>The comparison follows a key, and so the insertion keeps the prefix sorted and elements of
  equal keys in order.\<close>

definition follows :: "('a \<Rightarrow> 'a \<Rightarrow> int) \<Rightarrow> ('a \<Rightarrow> int) \<Rightarrow> 'a set \<Rightarrow> bool" where
  "follows cmp f A \<longleftrightarrow> (\<forall>x \<in> A. \<forall>y \<in> A. cmp x y < 0 \<longleftrightarrow> f x < f y)"

lemma set_insert_back: "set (insert_back cmp x ys) = insert x (set ys)"
  by (metis mset_insert_back set_mset_add_mset_insert set_mset_mset)

lemma sorted_insert_back:
  assumes "follows cmp f A" "x \<in> A" "set ys \<subseteq> A" "sorted_wrt (\<lambda>a b. f b \<le> f a) ys"
  shows "sorted_wrt (\<lambda>a b. f b \<le> f a) (insert_back cmp x ys)"
  using assms(3,4)
proof (induction ys)
  case (Cons y ys)
  have "cmp x y < 0 \<longleftrightarrow> f x < f y"
    using assms(1,2) Cons.prems(1) by (simp add: follows_def)
  then show ?case
    using Cons by (auto simp: set_insert_back)
qed simp

lemma filter_insert_back:
  assumes "follows cmp f A" "x \<in> A" "set ys \<subseteq> A"
  shows "filter (\<lambda>a. f a = k) (insert_back cmp x ys) =
    (if f x = k then x # filter (\<lambda>a. f a = k) ys else filter (\<lambda>a. f a = k) ys)"
  using assms(3)
proof (induction ys)
  case (Cons y ys)
  have "cmp x y < 0 \<longleftrightarrow> f x < f y"
    using assms(1,2) Cons.prems by (simp add: follows_def)
  then show ?case
    using Cons by auto
qed simp

lemma insertions_sorted:
  assumes "follows cmp f A" "set acc \<subseteq> A" "set xs \<subseteq> A" "sorted_wrt (\<lambda>a b. f b \<le> f a) acc"
  shows "sorted_wrt (\<lambda>a b. f b \<le> f a) (foldl (\<lambda>acc x. insert_back cmp x acc) acc xs) \<and>
    filter (\<lambda>a. f a = k) (foldl (\<lambda>acc x. insert_back cmp x acc) acc xs) =
      rev (filter (\<lambda>a. f a = k) xs) @ filter (\<lambda>a. f a = k) acc"
  using assms(2-4)
proof (induction xs arbitrary: acc)
  case (Cons x xs)
  have x: "x \<in> A" "set xs \<subseteq> A"
    using Cons.prems(2) by auto
  have "set (insert_back cmp x acc) \<subseteq> A"
    using x Cons.prems(1) by (simp add: set_insert_back)
  from Cons.IH [OF this x(2) sorted_insert_back [OF assms(1) x(1) Cons.prems(1,3)]]
  show ?case
    using filter_insert_back [OF assms(1) x(1) Cons.prems(1), of k] by simp
qed simp

text \<open>A comparison that follows a key sorts stably by that key.\<close>

lemma SortStableFunc_sort_key:
  assumes "follows cmp f (set xs)"
  shows "SortStableFunc cmp xs = sort_key f xs"
proof -
  let ?acc = "foldl (\<lambda>acc x. insert_back cmp x acc) [] xs"
  have s: "sorted_wrt (\<lambda>a b. f b \<le> f a) ?acc"
    and fl: "\<And>k. filter (\<lambda>a. f a = k) ?acc = rev (filter (\<lambda>a. f a = k) xs)"
    using insertions_sorted [OF assms, of "[]" xs] by auto
  have "sort_key f xs = rev ?acc"
  proof (rule properties_for_sort_key)
    show "mset (rev ?acc) = mset xs"
      by (simp add: mset_insertions)
    show "filter (\<lambda>x. f k = f x) (rev ?acc) = filter (\<lambda>x. f k = f x) xs" for k
      using fl [of "f k"] by (simp add: rev_filter [symmetric] eq_commute [of "f k"])
    show "sorted (map f (rev ?acc))"
      using s by (simp add: sorted_wrt_rev sorted_wrt_map flip: rev_map)
  qed
  then show ?thesis
    by (simp add: SortStableFunc_def)
qed

text \<open>The subtraction follows the weights for as long as their differences fit in 64 bits.\<close>

lemma sint_diff:
  fixes a b :: "64 word"
  assumes "\<bar>sint a - sint b\<bar> < 2 ^ 63"
  shows "sint (a - b) = sint a - sint b"
proof -
  have "sint (a - b) = signed_take_bit 63 (sint a - sint b)"
    by (simp add: sint_word_ariths)
  also have "\<dots> = sint a - sint b"
    using assms by (intro signed_take_bit_int_eq_self) auto
  finally show ?thesis .
qed

section \<open>Properties\<close>

text \<open>C38. The menu is sorted by weight, lightest first, and items of equal weight keep the order they
  were collected in, for as long as no two weights are more than 63 bits apart: the sort is the
  stable sort by the signed weight.\<close>

theorem SortMenuItems_stable:
  assumes "\<forall>a \<in> set menu. \<forall>b \<in> set menu. \<bar>sint (mi_Weight a) - sint (mi_Weight b)\<bar> < 2 ^ 63"
  shows "SortMenuItems menu = sort_key (\<lambda>m. sint (mi_Weight m)) menu"
  unfolding SortMenuItems_def
  by (rule SortStableFunc_sort_key) (use assms sint_diff in \<open>simp add: follows_def\<close>)

definition sample_item :: "string \<Rightarrow> 64 word \<Rightarrow> MenuItem" where
  "sample_item href weight =
     \<lparr>mi_Title = TLiteral href, mi_Active = False, mi_HREF = href, mi_Weight = weight\<rparr>"

lemma SortMenuItems_stable_witness:
  "SortMenuItems [sample_item ''/b'' 5, sample_item ''/c'' 5, sample_item ''/a'' (- 1)] =
     [sample_item ''/a'' (- 1), sample_item ''/b'' 5, sample_item ''/c'' 5]"
  using SortMenuItems_stable [of "[sample_item ''/b'' 5, sample_item ''/c'' 5, sample_item ''/a'' (- 1)]"]
  by (simp add: sample_item_def)

text \<open>Two weights further apart are sorted the wrong way round: the subtraction wraps.\<close>

theorem SortMenuItems_wraps:
  "\<exists>a b. sint (mi_Weight b) < sint (mi_Weight a) \<and> SortMenuItems [b, a] = [a, b]"
proof (intro exI conjI)
  let ?a = "sample_item ''/a'' (2 ^ 63 - 1)" let ?b = "sample_item ''/b'' (- 1)"
  show "sint (mi_Weight ?b) < sint (mi_Weight ?a)"
    by (simp add: sample_item_def)
  show "SortMenuItems [?b, ?a] = [?a, ?b]"
    by (simp add: SortMenuItems_def SortStableFunc_def sample_item_def)
qed

end
