(* ===== verification/Templates.thy ===== *)
theory Templates
  imports Http
begin

text \<open>
  \<open>page.go\<close>, what a template can call: the translation functions, the functions a template is parsed
  with and those it is executed with for a request.  \<open>go-i18n\<close> is a parameter: a record of its two
  translation functions over a localizer, which is the languages it was made for, in order.
\<close>

section \<open>Translation\<close>

type_synonym Localizer = "string list"

record LocalizeConfig =
  lc_DefaultMessage :: i18n_Message
  lc_TemplateData :: "any option"
  lc_PluralCount :: "int option"

record i18n =
  i18n_LocalizeMessage :: "Localizer \<Rightarrow> i18n_Message \<Rightarrow> string result"
  i18n_Localize :: "Localizer \<Rightarrow> LocalizeConfig \<Rightarrow> string result"

text \<open>A text, or the id of its message in brackets.\<close>

definition or_bracketed :: "string result \<Rightarrow> string \<Rightarrow> string" where
  "or_bracketed txt msgID = (case txt of Inl e \<Rightarrow> ''['' @ msgID @ '']'' | Inr t \<Rightarrow> t)"

definition PT :: "i18n \<Rightarrow> Localizer \<Rightarrow> i18n_Message \<Rightarrow> string" where
  "PT n loc msg = or_bracketed (i18n_LocalizeMessage n loc msg) (m_ID msg)"

definition tFunc :: "i18n \<Rightarrow> Localizer \<Rightarrow> string \<Rightarrow> string list \<Rightarrow> string" where
  "tFunc n loc str forms =
     (let msg = \<lparr>m_ID = str, m_Other = []\<rparr>;
          msg = (case forms of [] \<Rightarrow> msg\<lparr>m_Other := str\<rparr> | [f] \<Rightarrow> msg\<lparr>m_Other := f\<rparr> | _ \<Rightarrow> msg)
      in or_bracketed (i18n_LocalizeMessage n loc msg) (m_ID msg))"

definition tlFunc :: "i18n \<Rightarrow> Localizer \<Rightarrow> TextLabel \<Rightarrow> string" where
  "tlFunc n loc lbl =
     (case tl_Message lbl of
        None \<Rightarrow> tl_Literal lbl
      | Some msg \<Rightarrow>
          let conf = \<lparr>lc_DefaultMessage = msg, lc_TemplateData = tl_Values lbl, lc_PluralCount = None\<rparr>;
              conf = (case tl_PluralCount lbl of None \<Rightarrow> conf | Some k \<Rightarrow> conf\<lparr>lc_PluralCount := Some k\<rparr>)
          in or_bracketed (i18n_Localize n loc conf) (m_ID msg))"

definition tdFunc :: "i18n \<Rightarrow> Localizer \<Rightarrow> string \<Rightarrow> string \<Rightarrow> any option \<Rightarrow> string" where
  "tdFunc n loc msgID txt data =
     or_bracketed (i18n_Localize n loc \<lparr>lc_DefaultMessage = \<lparr>m_ID = msgID, m_Other = txt\<rparr>,
       lc_TemplateData = data, lc_PluralCount = None\<rparr>) msgID"

section \<open>Template functions\<close>

text \<open>The functions of a template by the types the source gives them; \<open>AppFunc\<close> is one a component
  brings.  \<open>RenderBlockFunc\<close> executes a block of the template it is called in, and \<open>NoBlockFunc\<close> is
  its stand-in while templates are parsed.\<close>

datatype ('x, 'f) TemplateFunc =
    TFunc "string \<Rightarrow> string list \<Rightarrow> string"
  | TDFunc "string \<Rightarrow> string \<Rightarrow> any option \<Rightarrow> string"
  | TLFunc "TextLabel \<Rightarrow> string"
  | PathEscapeFunc
  | LangFunc string
  | CtxFunc "'x option"
  | PageURLFunc "string option"
  | NoBlockFunc
  | RenderBlockFunc
  | BasePathFunc string
  | AppFunc 'f

type_synonym ('x, 'f) FuncMap = "string \<rightharpoonup> ('x, 'f) TemplateFunc"

text \<open>What templates are parsed with: the functions of the framework, in English and without a request,
  and over them those the components bring, in order.  \<open>CtxFunc None\<close> gives the background context.\<close>

definition base_funcs :: "i18n \<Rightarrow> ('x, 'f) FuncMap list \<Rightarrow> ('x, 'f) FuncMap" where
  "base_funcs n components =
     (let defaultLoc = [''en''];
          funcs = [''t'' \<mapsto> TFunc (tFunc n defaultLoc), ''td'' \<mapsto> TDFunc (tdFunc n defaultLoc),
            ''tl'' \<mapsto> TLFunc (tlFunc n defaultLoc), ''pathescape'' \<mapsto> PathEscapeFunc, ''lang'' \<mapsto> LangFunc ''en'',
            ''ctx'' \<mapsto> CtxFunc None, ''page_url'' \<mapsto> PageURLFunc None, ''renderBlock'' \<mapsto> NoBlockFunc]
      in foldl (\<lambda>funcs c. funcs ++ c) funcs components)"

text \<open>The language of a request: its cookie, or English, and a localizer that falls back to what the
  browser accepts.\<close>

definition Localizer_of :: "Request \<Rightarrow> string \<times> Localizer" where
  "Localizer_of r =
     (let accept = Header_Get r ''Accept-Language'';
          langSetting = (case r_Cookie r ''lang'' of
            Inr v \<Rightarrow> if v \<noteq> [] then v else ''en'' | Inl e \<Rightarrow> ''en'')
      in (langSetting, [langSetting, accept]))"

text \<open>The functions of one request, over those the templates were parsed with.\<close>

definition localeTemplate ::
  "i18n \<Rightarrow> ('x, 'f) FuncMap \<Rightarrow> 'x \<Rightarrow> Request \<Rightarrow> ('x, 'f) FuncMap" where
  "localeTemplate n templateFuncs ctx r =
     (case Localizer_of r of
        (lang, localizer) \<Rightarrow>
          templateFuncs(''ctx'' \<mapsto> CtxFunc (Some ctx), ''t'' \<mapsto> TFunc (tFunc n localizer),
            ''tl'' \<mapsto> TLFunc (tlFunc n localizer), ''td'' \<mapsto> TDFunc (tdFunc n localizer),
            ''lang'' \<mapsto> LangFunc lang, ''page_url'' \<mapsto> PageURLFunc (Some (r_URL r)),
            ''renderBlock'' \<mapsto> RenderBlockFunc))"

text \<open>The template function of a mount point.\<close>

definition BasePath_GetTemplateFuncs :: "BasePath \<Rightarrow> ('x, 'f) FuncMap" where
  "BasePath_GetTemplateFuncs bp = [''base_path'' \<mapsto> BasePathFunc bp]"

section \<open>Properties\<close>

text \<open>What a template is executed with belongs to its request.  Whatever functions the components bring,
  and whatever names they give them, the translations of a page are in the language of its request,
  and the context and the URL are its own; a function of a component under any other name is there
  as the last component that has one brought it, and so is \<open>pathescape\<close> unless one has.\<close>

theorem localeTemplate_request:
  "localeTemplate n (base_funcs n components) ctx r name =
     (if name = ''t'' then Some (TFunc (tFunc n (snd (Localizer_of r))))
      else if name = ''tl'' then Some (TLFunc (tlFunc n (snd (Localizer_of r))))
      else if name = ''td'' then Some (TDFunc (tdFunc n (snd (Localizer_of r))))
      else if name = ''lang'' then Some (LangFunc (fst (Localizer_of r)))
      else if name = ''ctx'' then Some (CtxFunc (Some ctx))
      else if name = ''page_url'' then Some (PageURLFunc (Some (r_URL r)))
      else if name = ''renderBlock'' then Some RenderBlockFunc
      else case find (\<lambda>c. c name \<noteq> None) (rev components) of
        Some c \<Rightarrow> c name
      | None \<Rightarrow> if name = ''pathescape'' then Some PathEscapeFunc else None)"
proof -
  have "foldl (++) m components k =
      (case find (\<lambda>c. c k \<noteq> None) (rev components) of Some c \<Rightarrow> c k | None \<Rightarrow> m k)" for m and k :: string
    by (induction components rule: rev_induct) (auto simp: map_add_def split: option.split)
  then show ?thesis
    by (cases "name = ''pathescape''")
       (simp_all add: localeTemplate_def base_funcs_def Let_def split: prod.split option.split)
qed

text \<open>A page never shows an empty text for a message that does not translate: a label is its literal
  text, which no translation is asked for, or its translation, or the id of its message in
  brackets; and the three functions agree on the messages they can all be given.\<close>

theorem translations_agree:
  assumes "\<And>loc m. i18n_LocalizeMessage n loc m =
    i18n_Localize n loc \<lparr>lc_DefaultMessage = m, lc_TemplateData = None, lc_PluralCount = None\<rparr>"
  shows "tFunc n loc str forms = tlFunc n loc (TL str forms) \<and>
    tdFunc n loc str txt None = tlFunc n loc (TL str [txt]) \<and>
    PT n loc m = tlFunc n loc (TMsg m) \<and> tlFunc n loc (TLiteral str) = str \<and>
    (tlFunc n loc (TMsg m) = ''['' @ m_ID m @ '']'' \<or>
     i18n_LocalizeMessage n loc m = Inr (tlFunc n loc (TMsg m)))"
  by (auto simp: tFunc_def tlFunc_def tdFunc_def PT_def TL_def TMsg_def TLiteral_def zero_label_def assms Let_def
      or_bracketed_def split: list.split sum.split)

text \<open>A bundle that knows one message, in Swedish.\<close>

definition sample_i18n :: i18n where
  "sample_i18n =
     \<lparr>i18n_LocalizeMessage = (\<lambda>loc m. if ''sv'' \<in> set loc \<and> m_ID m = ''LogIn'' then Inr ''Logga in''
        else if m_Other m = [] then Inl (New ''message not found'') else Inr (m_Other m)),
      i18n_Localize = (\<lambda>loc c. if ''sv'' \<in> set loc \<and> m_ID (lc_DefaultMessage c) = ''LogIn'' then Inr ''Logga in''
        else if m_Other (lc_DefaultMessage c) = [] then Inl (New ''message not found'')
        else Inr (m_Other (lc_DefaultMessage c)))\<rparr>"

lemma translations_agree_witness:
  "tFunc sample_i18n [''sv'', []] ''LogIn'' [''Log In''] = ''Logga in'' \<and>
   tFunc sample_i18n [''en'', []] ''LogIn'' [''Log In'', ''x''] = ''[LogIn]''"
proof
  have bdl: "i18n_LocalizeMessage sample_i18n loc m = i18n_Localize sample_i18n loc
      \<lparr>lc_DefaultMessage = m, lc_TemplateData = None, lc_PluralCount = None\<rparr>" for loc m
    by (simp add: sample_i18n_def)
  note agree = translations_agree [of sample_i18n, OF bdl, THEN conjunct1]
  show "tFunc sample_i18n [''sv'', []] ''LogIn'' [''Log In''] = ''Logga in''"
    unfolding agree by (simp add: tlFunc_def TL_def zero_label_def sample_i18n_def Let_def or_bracketed_def)
  show "tFunc sample_i18n [''en'', []] ''LogIn'' [''Log In'', ''x''] = ''[LogIn]''"
    unfolding agree by (simp add: tlFunc_def TL_def zero_label_def sample_i18n_def Let_def or_bracketed_def)
qed

end
