(* ===== verification/Page.thy ===== *)
theory Page
  imports Rfc3339 Url Menu Templates
begin

text \<open>
  \<open>page.go\<close>, \<open>page_mux.go\<close> and the handlers of \<open>application.go\<close>: pages and their rendering, the mux
  that sets the framing policy, refuses what another site posts and turns errors into pages, and
  the change of language.

  A handler gets its context, the request and the response so far.  The template engine is a
  parameter: executing a template with the functions of its request and a page gives the output it
  has produced and the error it ended with, if any.
\<close>

section \<open>Pages\<close>

record Link =
  ln_Text :: TextLabel
  ln_HREF :: string

record ErrorInfo =
  ei_Code :: int
  ei_Message :: TextLabel
  ei_Error :: go_error

text \<open>The contents of a page: nothing, what an error page shows, the login page with its notice, or
  what an application puts there.\<close>

datatype 'c Contents = NoContents | ErrorContents ErrorInfo | LoginPage bool | AppContents 'c

record 'c Page =
  pg_Status :: int
  pg_Template :: string
  pg_Title :: TextLabel
  pg_Menu :: "MenuItem list"
  pg_Breadcrumb :: "Link list"
  pg_Contents :: "'c Contents"

text \<open>A page as a Go composite literal leaves the fields it does not name.\<close>

definition zero_page :: "'c Page" where
  "zero_page = \<lparr>pg_Status = 0, pg_Template = [], pg_Title = zero_label, pg_Menu = [],
     pg_Breadcrumb = [], pg_Contents = NoContents\<rparr>"

text \<open>What the application takes from a component: the mount point of a \<open>BasePath\<close>, the cookie posture of
  one that has it, its template functions, its menu hook, its routes, and whether it wants to see
  the other components.\<close>

type_synonym ('x, 'c, 'w) PageHandler =
  "'x \<Rightarrow> Request \<Rightarrow> 'w io \<Rightarrow> 'c Page option result outcome \<times> 'w io"

record ('x, 'c, 'w, 'f) Component =
  co_BasePath :: "BasePath option"
  co_insecureCookies :: "bool option"
  co_TemplateFuncs :: "('x, 'f) FuncMap option"
  co_MenuHook :: "(('x, 'c Page, MenuItem) Hooks \<Rightarrow> ('x, 'c Page, MenuItem) Hooks) option"
  co_Routes :: "(string \<times> ('x, 'c, 'w) PageHandler) list"
  co_Observes :: bool

text \<open>A mount point as a component: no routes and one template function.\<close>

definition BasePath_Component :: "BasePath \<Rightarrow> ('x, 'c, 'w, 'f) Component" where
  "BasePath_Component bp =
     \<lparr>co_BasePath = Some bp, co_insecureCookies = None, co_TemplateFuncs = Some (BasePath_GetTemplateFuncs bp),
      co_MenuHook = None, co_Routes = [], co_Observes = False\<rparr>"

type_synonym ('x, 'c, 'f) engine =
  "('x, 'f) FuncMap \<Rightarrow> string \<Rightarrow> 'c Page \<Rightarrow> string \<times> go_error option"

record ('x, 'c, 'f) PageRenderer =
  pr_translations :: i18n
  pr_templateFuncs :: "('x, 'f) FuncMap"
  pr_tpl :: "('x, 'c, 'f) engine"
  pr_menu :: "MenuItem list"
  pr_menuHooks :: "('x, 'c Page, MenuItem) Hooks"

text \<open>The components with template functions bring them, and those with a menu hook register it, in
  order; the menu is collected once, and the templates are parsed with the functions.\<close>

definition NewPageRenderer ::
  "(('x, 'f) FuncMap \<Rightarrow> ('x, 'c, 'f) engine result) \<Rightarrow> i18n \<Rightarrow> ('x, 'c, 'w, 'f) Component list \<Rightarrow>
   ('x, 'c, 'f) PageRenderer result" where
  "NewPageRenderer ParseFS n components =
     (let funcs = base_funcs n (List.map_filter co_TemplateFuncs components);
          h = foldl (\<lambda>h c. case co_MenuHook c of None \<Rightarrow> h | Some hook \<Rightarrow> hook h)
                \<lparr>hk_funcs = [], hk_alterFuncs = []\<rparr> components in
      case ParseFS funcs of
        Inl e \<Rightarrow> Inl (Errorf ''parse templates'' [e])
      | Inr t \<Rightarrow> Inr \<lparr>pr_translations = n, pr_templateFuncs = funcs, pr_tpl = t,
          pr_menu = Collect_items h, pr_menuHooks = h\<rparr>)"

text \<open>Executing a template for a request.\<close>

definition ExecuteTemplate ::
  "('x, 'c, 'f) PageRenderer \<Rightarrow> 'x \<Rightarrow> Request \<Rightarrow> string \<Rightarrow> 'c Page \<Rightarrow> string \<times> go_error option" where
  "ExecuteTemplate pr ctx r name p =
     pr_tpl pr (localeTemplate (pr_translations pr) (pr_templateFuncs pr) ctx r) name p"

definition ErrorPage ::
  "('x, 'c, 'f) PageRenderer \<Rightarrow> 'x \<Rightarrow> Request \<Rightarrow> ErrorInfo \<Rightarrow> 'w io \<Rightarrow> 'w io" where
  "ErrorPage pr ctx r info io =
     (let code = (if ei_Code info = 0 then 500 else ei_Code info);
          io1 = WriteHeader code io;
          p = zero_page\<lparr>pg_Title := TMsg \<lparr>m_ID = ''ErrorEncountered'', m_Other = ''Encountered an error''\<rparr>,
                pg_Contents := ErrorContents info\<rparr>
      in case ExecuteTemplate pr ctx r ''error.html'' p of
           (out, None) \<Rightarrow> io_write out io1
         | (out, Some e) \<Rightarrow> io_log LevelError ''execute error page template'' (io_write out io1))"

text \<open>The menu a page is rendered with: the application's and the page's, sorted, altered by the
  hooks, and with the items that lead here marked.\<close>

definition page_menu ::
  "('x, 'c, 'f) PageRenderer \<Rightarrow> 'x \<Rightarrow> Request \<Rightarrow> 'c Page \<Rightarrow> MenuItem list" where
  "page_menu pr ctx r p =
     (let menu = Alter (pr_menuHooks pr) ctx (r, p) (SortMenuItems (pr_menu pr @ pg_Menu p));
          check = r_Path r # (case pg_Breadcrumb p of [] \<Rightarrow> [] | l # ls \<Rightarrow> [ln_HREF l])
      in map (\<lambda>m. m\<lparr>mi_Active := mi_HREF m \<in> set check\<rparr>) menu)"

definition RenderPage ::
  "('x, 'c, 'f) PageRenderer \<Rightarrow> 'x \<Rightarrow> Request \<Rightarrow> 'c Page option \<Rightarrow> 'w io \<Rightarrow> unit outcome \<times> 'w io" where
  "RenderPage pr ctx r page io =
     (case page of
        None \<Rightarrow> (Panic, io)
      | Some p \<Rightarrow>
          (case ExecuteTemplate pr ctx r (pg_Template p) (p\<lparr>pg_Menu := page_menu pr ctx r p\<rparr>) of
             (out, Some e) \<Rightarrow>
               (Value (), ErrorPage pr ctx r
                  \<lparr>ei_Code = 0, ei_Message = TL ''PageRenderFailed'' [''Failed to render page template''],
                   ei_Error = e\<rparr> (io_log LevelError ''execute page template'' io))
           | (out, None) \<Rightarrow>
               (Value (), io_write out (WriteHeader (if pg_Status p = 0 then 200 else pg_Status p)
                  (Header_Add ''Content-Type'' ''text/html'' io)))))"

section \<open>The mux\<close>

definition framingPolicy :: string where "framingPolicy = ''frame-ancestors '' @ [CHR 0x27] @ ''none'' @ [CHR 0x27]"

definition crossSiteError :: go_error where
  "crossSiteError =
     NewHTTPError 403 ''CrossSiteRequestBlocked''
       ''This request did not come from this site, please try again'' (New ''cross-site request refused'')"

text \<open>The error of a refused request, and nothing for one that is let through.\<close>

definition checkRequestSite :: "(string \<Rightarrow> bool) \<Rightarrow> Request \<Rightarrow> go_error option" where
  "checkRequestSite ip6 r =
     (if r_Method r \<in> {''GET'', ''HEAD'', ''OPTIONS''} then None
      else if Header_Get r ''Sec-Fetch-Site'' \<in> {''same-origin'', ''none''} then None
      else if Header_Get r ''Sec-Fetch-Site'' \<noteq> [] then Some crossSiteError
      else if Header_Get r ''Origin'' = [] then None
      else (case url_Parse_Host ip6 (Header_Get r ''Origin'') of
              None \<Rightarrow> Some crossSiteError
            | Some h \<Rightarrow> if h \<noteq> r_Host r then Some crossSiteError else None))"

definition renderError ::
  "('x, 'c, 'f) PageRenderer option \<Rightarrow> 'x \<Rightarrow> Request \<Rightarrow> go_error \<Rightarrow> 'w io \<Rightarrow> 'w io" where
  "renderError pr ctx r err io =
     (let herr = AsHTTPError err in
      case pr of
        None \<Rightarrow> http_Error (''no page renderer: '' @ error_msg err) (http_code herr) io
      | Some pr \<Rightarrow> ErrorPage pr ctx r
          \<lparr>ei_Code = http_code herr, ei_Message = http_label herr, ei_Error = err\<rparr> io)"

definition page_Handle ::
  "(string \<Rightarrow> bool) \<Rightarrow> ('x, 'c, 'f) PageRenderer option \<Rightarrow> ('x, 'c, 'w) PageHandler \<Rightarrow> 'x \<Rightarrow> Request \<Rightarrow>
   'w io \<Rightarrow> unit outcome \<times> 'w io" where
  "page_Handle ip6 pr handler ctx r io =
     (let io1 = Header_Set ''Content-Security-Policy'' framingPolicy io in
      case checkRequestSite ip6 r of
        Some err \<Rightarrow> (Value (), renderError pr ctx r err io1)
      | None \<Rightarrow>
          (case handler ctx r io1 of
             (Panic, io2) \<Rightarrow> (Panic, io2)
           | (Value (Inl err), io2) \<Rightarrow>
               if errors_Is err ErrSkipRender then (Value (), io2)
               else (Value (), renderError pr ctx r err io2)
           | (Value (Inr p), io2) \<Rightarrow>
               (case pr of
                  None \<Rightarrow> (Value (), http_Error ''no page renderer'' 500 io2)
                | Some pr \<Rightarrow> RenderPage pr ctx r p io2)))"

section \<open>The application\<close>

record Application =
  app_basePath :: BasePath
  app_insecureCookies :: bool

text \<open>The mount point and the cookie posture, of the last component that has one.\<close>

definition application_settings :: "('x, 'c, 'w, 'f) Component list \<Rightarrow> Application" where
  "application_settings components =
     foldl (\<lambda>a c.
       let a = (case co_BasePath c of Some bp \<Rightarrow> a\<lparr>app_basePath := bp\<rparr> | None \<Rightarrow> a)
       in case co_insecureCookies c of Some i \<Rightarrow> a\<lparr>app_insecureCookies := i\<rparr> | None \<Rightarrow> a)
     \<lparr>app_basePath = [], app_insecureCookies = False\<rparr> components"

definition setLanguage ::
  "Application \<Rightarrow> 'x \<Rightarrow> Request \<Rightarrow> 'a world_scheme io \<Rightarrow>
   'c Page option result outcome \<times> 'a world_scheme io" where
  "setLanguage a ctx r io =
     (let lang = Values_Get (r_Query r) ''lang''; now = clock (io_world io);
          c = \<lparr>ck_Name = ''lang'', ck_Value = lang, ck_Path = BasePath_Path (app_basePath a) ''/'',
               ck_Expires = Some (AddYears 1 now), ck_MaxAge = 0,
               ck_HttpOnly = False, ck_Secure = False, ck_SameSiteLax = False\<rparr>;
          c = (if lang = [] then c\<lparr>ck_Value := ''en'', ck_Expires := Some (AddYears (- 1) now)\<rparr> else c)
      in (Value (Inl (Sentinel ErrSkipRender)),
          http_Redirect (resolveRedirect (app_basePath a) (Values_Get (r_Query r) ''redirect'')) 307
            (setCookie c (app_insecureCookies a) io)))"

text \<open>\<open>NewApplication\<close>: what it asks of the file systems (the locale directory, the loading of a locale
  file, the parsing of the templates) are parameters, and its result is the application, its
  renderer, and what it has done to the mux and the components, in order: the routes it and the
  components have registered, the assets, and which component it has shown to which observer.\<close>

datatype ('x, 'c, 'w) registration =
    PageRoute string "('x, 'c, 'w) PageHandler"
  | AssetRoute string
  | Observed nat nat

fun load_locales ::
  "(string \<Rightarrow> i18n \<Rightarrow> i18n result) \<Rightarrow> (string \<times> bool) list \<Rightarrow> i18n \<Rightarrow> i18n result" where
  "load_locales load [] n = Inr n"
| "load_locales load ((name, isDir) # fs) n =
     (if isDir \<or> \<not> HasPrefix name ''locale.'' then load_locales load fs n
      else (case load name n of
              Inl e \<Rightarrow> Inl (Errorf ''load locale'' [e])
            | Inr n' \<Rightarrow> load_locales load fs n'))"

definition register_component ::
  "nat \<Rightarrow> ('x, 'c, 'w) registration list \<Rightarrow> nat \<times> ('x, 'c, 'w, 'f) Component \<Rightarrow> ('x, 'c, 'w) registration list" where
  "register_component n regs ic =
     (let regs = regs @ map (\<lambda>(pattern, h). PageRoute pattern h) (co_Routes (snd ic))
      in if co_Observes (snd ic) then regs @ map (Observed (fst ic)) [0..<n] else regs)"

definition NewApplication ::
  "(string \<times> bool) list result \<Rightarrow> (string \<Rightarrow> i18n \<Rightarrow> i18n result) \<Rightarrow> i18n \<Rightarrow>
   (('x, 'f) FuncMap \<Rightarrow> ('x, 'c, 'f) engine result) \<Rightarrow> ('x, 'c, 'a world_scheme, 'f) Component list \<Rightarrow>
   (Application \<times> ('x, 'c, 'f) PageRenderer \<times> ('x, 'c, 'a world_scheme) registration list) result" where
  "NewApplication locales load english ParseFS components =
     (case locales of
        Inl e \<Rightarrow> Inl (Errorf ''list locales'' [e])
      | Inr ld \<Rightarrow>
          (case load_locales load ld english of
             Inl e \<Rightarrow> Inl e
           | Inr translations \<Rightarrow>
               (case NewPageRenderer ParseFS translations components of
                  Inl e \<Rightarrow> Inl (Errorf ''create page renderer'' [e])
                | Inr renderer \<Rightarrow>
                    let a = application_settings components;
                        regs = [PageRoute ''GET /set-language'' (setLanguage a), AssetRoute ''GET /assets/'']
                    in Inr (a, renderer,
                         foldl (register_component (length components)) regs (enumerate 0 components)))))"

section \<open>Lemmas\<close>

named_theorems page_simps \<open>what rendering leaves of a response\<close>

lemma ErrorPage_simps [page_simps]:
  "io_cookies (ErrorPage pr ctx r info io) = io_cookies io"
  "io_location (ErrorPage pr ctx r info io) = io_location io"
  "io_world (ErrorPage pr ctx r info io) = io_world io"
  "io_headers (ErrorPage pr ctx r info io) = io_headers io"
  "io_status (ErrorPage pr ctx r info io) =
     (case io_status io of None \<Rightarrow> Some (if ei_Code info = 0 then 500 else ei_Code info) | Some m \<Rightarrow> Some m)"
  by (simp_all add: ErrorPage_def Let_def io_simps split: prod.split option.split)

lemma renderError_simps [page_simps]:
  "io_cookies (renderError pr ctx r err io) = io_cookies io"
  "io_location (renderError pr ctx r err io) = io_location io"
  "io_world (renderError pr ctx r err io) = io_world io"
  by (simp_all add: renderError_def Let_def io_simps page_simps split: option.split)

lemma renderError_status [page_simps]:
  "http_code (AsHTTPError err) \<noteq> 0 \<Longrightarrow> io_status (renderError pr ctx r err io) =
     (case io_status io of None \<Rightarrow> Some (http_code (AsHTTPError err)) | Some m \<Rightarrow> Some m)"
  by (simp add: renderError_def Let_def io_simps page_simps split: option.split)

lemma http_Error_policy [page_simps]:
  "map_of (io_headers (http_Error m n io)) ''Content-Security-Policy'' =
   map_of (io_headers io) ''Content-Security-Policy''"
  by (simp add: http_Error_def io_simps)

lemma renderError_policy [page_simps]:
  "map_of (io_headers (renderError pr ctx r err io)) ''Content-Security-Policy'' =
   map_of (io_headers io) ''Content-Security-Policy''"
  by (simp add: renderError_def Let_def page_simps split: option.split)

lemma RenderPage_policy [page_simps]:
  "RenderPage pr ctx r p io = (res, io') \<Longrightarrow> map_of (io_headers io) ''Content-Security-Policy'' = Some v \<Longrightarrow>
     map_of (io_headers io') ''Content-Security-Policy'' = Some v"
  by (auto simp: RenderPage_def page_simps io_simps map_add_def split: option.splits prod.splits)

lemma AsHTTPError_code: "find_HTTPError err = None \<Longrightarrow> http_code (AsHTTPError err) = 500"
  by (simp add: AsHTTPError_def InternalHTTPError_def NewHTTPError_def)

lemma find_HTTPError_form:
  "find_HTTPError e = Some h \<Longrightarrow> \<exists>m c l x. h = HTTPError m c l x"
  "find_HTTPErrors es = Some h \<Longrightarrow> \<exists>m c l x. h = HTTPError m c l x"
  by (induction e and es rule: find_HTTPError_find_HTTPErrors.induct) (auto split: option.splits)

lemma crossSite_code: "http_code (AsHTTPError crossSiteError) = 403"
  by (simp add: crossSiteError_def AsHTTPError_def NewHTTPError_def)

lemma checkRequestSite_error: "checkRequestSite ip6 r = Some e \<Longrightarrow> e = crossSiteError"
  by (auto simp: checkRequestSite_def split: if_splits option.splits)

text \<open>The settings and the registrations, in closed form.\<close>

lemma application_settings_last:
  "app_basePath (application_settings components) = (case find (\<lambda>c. co_BasePath c \<noteq> None) (rev components) of
     None \<Rightarrow> [] | Some c \<Rightarrow> the (co_BasePath c))"
  "app_insecureCookies (application_settings components) =
     (case find (\<lambda>c. co_insecureCookies c \<noteq> None) (rev components) of
        None \<Rightarrow> False | Some c \<Rightarrow> the (co_insecureCookies c))"
  by (induction components rule: rev_induct)
     (auto simp: application_settings_def Let_def split: option.split)

lemma foldl_register_component:
  "foldl (register_component n) regs ics = regs @ concat (map (\<lambda>(i, c).
     map (\<lambda>(pattern, h). PageRoute pattern h) (co_Routes c) @ (if co_Observes c then map (Observed i) [0..<n] else [])) ics)"
  by (induction ics arbitrary: regs) (auto simp: register_component_def Let_def)

lemma map_enumerate: "map f (enumerate 0 xs) = map (\<lambda>i. f (i, xs ! i)) [0..<length xs]"
  by (rule nth_equalityI) (simp_all add: nth_enumerate_eq)

text \<open>A request whose origin is serialised the way browsers do it.\<close>

lemma checkRequestSite_browser:
  assumes "scheme \<noteq> []" "list_all is_letter scheme" "host_port name port"
    and "Header_Get r ''Origin'' = scheme @ ''://'' @ name @ port"
  shows "checkRequestSite ip6 r = None \<longleftrightarrow>
    r_Method r \<in> {''GET'', ''HEAD'', ''OPTIONS''} \<or>
    Header_Get r ''Sec-Fetch-Site'' \<in> {''same-origin'', ''none''} \<or>
    Header_Get r ''Sec-Fetch-Site'' = [] \<and> name @ port = r_Host r"
  using assms url_Parse_Host_origin [OF assms(1-3)] by (auto simp: checkRequestSite_def)

definition sample_request :: "string \<Rightarrow> (string \<times> string) list \<Rightarrow> Request" where
  "sample_request method headers =
     \<lparr>r_Method = method, r_Host = ''app.example:8080'', r_URL = ''/x'', r_Path = ''/x'', r_Query = [],
      r_Header = headers, r_Cookies = []\<rparr>"

definition sample_io :: "'w \<Rightarrow> 'w io" where
  "sample_io w = \<lparr>io_headers = [], io_cookies = [], io_status = None, io_location = None, io_body = [],
     io_logs = [], io_world = w\<rparr>"

lemma sample_origin:
  "host_port ''app.example'' '':8080''" "host_port ''evil.example'' []"
  by (simp_all add: host_port_def plain_def is_letter_def is_digit_def validOptionalPort_def Let_def)

section \<open>Properties\<close>

text \<open>C17. What another site posts on a visitor's behalf is refused.  With an origin as browsers
  serialise it, a request is let through exactly when its method is safe, or the browser says that
  it comes from the same origin or from the visitor, or it says nothing and the origin's host and
  port are those the request was addressed to; a sibling of the same site is refused like any
  other.\<close>

theorem checkRequestSite_iff:
  assumes "scheme \<noteq> []" "list_all is_letter scheme" "host_port name port"
    and "Header_Get r ''Origin'' = scheme @ ''://'' @ name @ port"
  shows "(checkRequestSite ip6 r = None \<longleftrightarrow>
    r_Method r \<in> {''GET'', ''HEAD'', ''OPTIONS''} \<or>
    Header_Get r ''Sec-Fetch-Site'' \<in> {''same-origin'', ''none''} \<or>
    Header_Get r ''Sec-Fetch-Site'' = [] \<and> name @ port = r_Host r)"
  by (rule checkRequestSite_browser [OF assms])

lemma checkRequestSite_iff_witness:
  "checkRequestSite (\<lambda>s. False) (sample_request ''POST'' [(''Origin'', ''https://app.example:8080'')]) = None \<and>
   checkRequestSite (\<lambda>s. False) (sample_request ''POST''
     [(''Origin'', ''https://app.example:8080''), (''Sec-Fetch-Site'', ''same-site'')]) \<noteq> None"
proof
  show "checkRequestSite (\<lambda>s. False) (sample_request ''POST'' [(''Origin'', ''https://app.example:8080'')]) = None"
    by (subst checkRequestSite_iff [of "''https''" "''app.example''" "'':8080''"])
       (simp_all add: sample_origin is_letter_def sample_request_def Header_Get_def)
  show "checkRequestSite (\<lambda>s. False) (sample_request ''POST''
     [(''Origin'', ''https://app.example:8080''), (''Sec-Fetch-Site'', ''same-site'')]) \<noteq> None"
    by (subst checkRequestSite_iff [of "''https''" "''app.example''" "'':8080''"])
       (simp_all add: sample_origin is_letter_def sample_request_def Header_Get_def)
qed

text \<open>C16. A refused request never reaches its handler, whatever the handler is: the response is a 403
  that sets no cookie and redirects nowhere, and nothing has happened to the environment.\<close>

theorem page_Handle_refused:
  assumes refused: "checkRequestSite ip6 r = Some e" and fresh: "io_status io = None"
  shows "\<exists>io'. page_Handle ip6 pr handler ctx r io = (Value (), io') \<and> io_status io' = Some 403 \<and>
    io_cookies io' = io_cookies io \<and> io_location io' = io_location io \<and> io_world io' = io_world io"
  using fresh checkRequestSite_error [OF refused]
  by (simp add: page_Handle_def refused Let_def page_simps io_simps crossSite_code)

lemma page_Handle_refused_witness:
  "\<exists>io'. page_Handle (\<lambda>s. False) (None :: (unit, unit, unit) PageRenderer option) (\<lambda>ctx r io. (Panic, io)) ()
      (sample_request ''POST'' [(''Sec-Fetch-Site'', ''cross-site'')]) (sample_io (0 :: int)) = (Value (), io') \<and>
    io_status io' = Some 403 \<and> io_world io' = 0"
  using page_Handle_refused [of "\<lambda>s. False" "sample_request ''POST'' [(''Sec-Fetch-Site'', ''cross-site'')]"
      crossSiteError "sample_io (0 :: int)" "None :: (unit, unit, unit) PageRenderer option" "\<lambda>ctx r io. (Panic, io)" "()"]
  by (auto simp: sample_request_def checkRequestSite_def Header_Get_def sample_io_def)

text \<open>Every response of a route says that it must not be framed, pages, error pages and refusals
  alike, and also what a handler writes itself, unless the handler replaces the header.\<close>

theorem page_Handle_policy:
  assumes handled: "page_Handle ip6 pr handler ctx r io = (res, io')"
    and keeps: "\<And>io1. map_of (io_headers (snd (handler ctx r io1))) ''Content-Security-Policy'' =
      map_of (io_headers io1) ''Content-Security-Policy''"
  shows "map_of (io_headers io') ''Content-Security-Policy'' = Some framingPolicy"
proof -
  let ?io1 = "Header_Set ''Content-Security-Policy'' framingPolicy io"
  have set: "map_of (io_headers ?io1) ''Content-Security-Policy'' = Some framingPolicy"
    by (simp add: io_simps)
  obtain out io2 where h: "handler ctx r ?io1 = (out, io2)"
    by (cases "handler ctx r ?io1") blast
  have io2: "map_of (io_headers io2) ''Content-Security-Policy'' = Some framingPolicy"
    using keeps [of ?io1] set h by simp
  show ?thesis
    using handled h set io2
    by (auto simp: page_Handle_def Let_def page_simps split: option.splits outcome.splits sum.splits if_splits)
qed

lemma page_Handle_policy_witness:
  "\<exists>res io'. page_Handle (\<lambda>s. False) (None :: (unit, unit, unit) PageRenderer option)
     (\<lambda>ctx r io. (Value (Inl (Sentinel ErrSkipRender)), http_Redirect ''/'' 302 io)) ()
     (sample_request ''GET'' []) (sample_io (0 :: int)) = (res, io') \<and>
     map_of (io_headers io') ''Content-Security-Policy'' = Some framingPolicy"
proof -
  obtain res io' where h: "page_Handle (\<lambda>s. False) (None :: (unit, unit, unit) PageRenderer option)
     (\<lambda>ctx r io. (Value (Inl (Sentinel ErrSkipRender)), http_Redirect ''/'' 302 io)) ()
     (sample_request ''GET'' []) (sample_io (0 :: int)) = (res, io')"
    by fastforce
  then show ?thesis
    using page_Handle_policy [OF h] by (simp add: io_simps)
qed

text \<open>The status of a page that could not be served is that of the first error with a status in
  what the handler returned, and 500 where there is none; a handler that has written its own
  response is left alone.\<close>

theorem page_Handle_error_status:
  assumes ok: "checkRequestSite ip6 r = None"
    and h: "handler ctx r (Header_Set ''Content-Security-Policy'' framingPolicy io) = (Value (Inl err), io2)"
    and code: "\<forall>m l x. find_HTTPError err \<noteq> Some (HTTPError m 0 l x)" and fresh: "io_status io2 = None"
  shows "\<exists>io'. page_Handle ip6 pr handler ctx r io = (Value (), io') \<and>
    io_status io' = (if errors_Is err ErrSkipRender then None
      else Some (case find_HTTPError err of None \<Rightarrow> 500 | Some herr \<Rightarrow> http_code herr)) \<and>
    io_cookies io' = io_cookies io2 \<and> io_location io' = io_location io2 \<and> io_world io' = io_world io2"
proof -
  have c: "http_code (AsHTTPError err) = (case find_HTTPError err of None \<Rightarrow> 500 | Some herr \<Rightarrow> http_code herr)"
    by (cases "find_HTTPError err") (simp_all add: AsHTTPError_def InternalHTTPError_def NewHTTPError_def)
  moreover have "http_code (AsHTTPError err) \<noteq> 0"
    using code c find_HTTPError_form(1) [of err] by (auto split: option.splits)
  ultimately show ?thesis
    using ok h fresh by (simp add: page_Handle_def Let_def page_simps)
qed

lemma page_Handle_error_status_witness:
  "\<exists>io'. page_Handle (\<lambda>s. False) (None :: (unit, unit, unit) PageRenderer option)
     (\<lambda>ctx r io. (Value (Inl (Errorf ''w'' [LiteralHTTPError 404 (New ''x'')])), io)) ()
     (sample_request ''GET'' []) (sample_io (0 :: int)) = (Value (), io') \<and> io_status io' = Some 404"
  using page_Handle_error_status [of "\<lambda>s. False" "sample_request ''GET'' []"
      "\<lambda>ctx r io. (Value (Inl (Errorf ''w'' [LiteralHTTPError 404 (New ''x'')])), io)" "()"
      "sample_io (0 :: int)" "Errorf ''w'' [LiteralHTTPError 404 (New ''x'')]"
      "Header_Set ''Content-Security-Policy'' framingPolicy (sample_io 0)"
      "None :: (unit, unit, unit) PageRenderer option"]
  by (auto simp: sample_request_def checkRequestSite_def LiteralHTTPError_def sample_io_def io_simps)

text \<open>The change of language answers with a redirect that stays in the application, however the
  target was written, and with one cookie, readable by no script and sent over https alone unless
  the deployment is insecure.\<close>

theorem setLanguage_local:
  assumes "Trim prefix CHR ''/'' = [] \<or> hd (Trim prefix CHR ''/'') \<noteq> CHR 0x5C"
    and "app_basePath a = NewBasePath prefix" and "io_status io = None"
  shows "\<exists>io' target c. setLanguage a ctx r io = (Value (Inl (Sentinel ErrSkipRender)), io') \<and>
    io_status io' = Some 307 \<and> io_location io' = Some target \<and> local_path target \<and>
    io_cookies io' = io_cookies io @ [c] \<and> ck_Name c = ''lang'' \<and> ck_HttpOnly c \<and> ck_SameSiteLax c \<and>
    ck_Secure c = (\<not> app_insecureCookies a)"
proof -
  have "local_path (resolveRedirect (app_basePath a) t)" for t
    using resolveRedirect_stays [OF assms(1)] assms(2) by simp
  then show ?thesis
    using assms(3) by (simp add: setLanguage_def Let_def io_simps)
qed

lemma setLanguage_local_witness:
  "\<exists>io' target c. setLanguage \<lparr>app_basePath = NewBasePath ''admin'', app_insecureCookies = False\<rparr> ()
     ((sample_request ''GET'' [])\<lparr>r_Query := [(''redirect'', ''//evil.example'')]\<rparr>)
     (sample_io \<lparr>clock = 0, rng = []\<rparr>) = (Value (Inl (Sentinel ErrSkipRender) :: unit Page option result), io') \<and>
     io_location io' = Some target \<and> local_path target \<and> io_cookies io' = [c] \<and> ck_Secure c"
  using setLanguage_local [of "''admin''" "\<lparr>app_basePath = NewBasePath ''admin'', app_insecureCookies = False\<rparr>"
      "sample_io \<lparr>clock = 0, rng = []\<rparr>" "()" "(sample_request ''GET'' [])\<lparr>r_Query := [(''redirect'', ''//evil.example'')]\<rparr>"]
  by (fastforce simp: Trim_def sample_io_def)

text \<open>C33. An application that starts has registered every route of every component, after its own, in the
  order of the components; each observer has been shown every component once, itself included, and
  never before its own routes were registered; and the mount point and the cookie posture are those
  of the last component that has one.\<close>

theorem NewApplication_registers:
  assumes "NewApplication locales load english ParseFS components = Inr (a, renderer, regs)"
  shows "regs = [PageRoute ''GET /set-language'' (setLanguage a), AssetRoute ''GET /assets/''] @
      concat (map (\<lambda>i. map (\<lambda>(pattern, h). PageRoute pattern h) (co_Routes (components ! i)) @
        (if co_Observes (components ! i) then map (Observed i) [0..<length components] else []))
        [0..<length components]) \<and>
    app_basePath a = (case find (\<lambda>c. co_BasePath c \<noteq> None) (rev components) of
      None \<Rightarrow> [] | Some c \<Rightarrow> the (co_BasePath c)) \<and>
    app_insecureCookies a = (case find (\<lambda>c. co_insecureCookies c \<noteq> None) (rev components) of
      None \<Rightarrow> False | Some c \<Rightarrow> the (co_insecureCookies c))"
proof -
  have a: "a = application_settings components"
    and regs: "regs = foldl (register_component (length components))
      [PageRoute ''GET /set-language'' (setLanguage a), AssetRoute ''GET /assets/''] (enumerate 0 components)"
    using assms by (auto simp: NewApplication_def Let_def split: sum.splits)
  show ?thesis
    unfolding regs foldl_register_component map_enumerate
    using application_settings_last [of components] by (simp add: a)
qed

lemma NewApplication_registers_witness:
  "\<exists>a renderer regs. NewApplication (Inr [(''locale.sv.toml'', False), (''x'', True)]) (\<lambda>name n. Inr n) sample_i18n
      (\<lambda>funcs. Inr (\<lambda>funcs name p. ([], None)))
      [BasePath_Component ''/admin'', (BasePath_Component []) \<lparr>co_BasePath := None, co_Observes := True\<rparr>
         :: (unit, unit, world, unit) Component] = Inr (a, renderer, regs) \<and>
    app_basePath a = ''/admin'' \<and> drop 2 regs = [Observed 1 0, Observed 1 1]"
proof -
  let ?cs = "[BasePath_Component ''/admin'', (BasePath_Component []) \<lparr>co_BasePath := None, co_Observes := True\<rparr>
         :: (unit, unit, world, unit) Component]"
  obtain a renderer regs where new: "NewApplication (Inr [(''locale.sv.toml'', False), (''x'', True)]) (\<lambda>name n. Inr n)
      sample_i18n (\<lambda>funcs. Inr (\<lambda>funcs name p. ([], None))) ?cs = Inr (a, renderer, regs)"
    by (simp add: NewApplication_def NewPageRenderer_def Let_def HasPrefix_def)
  from new NewApplication_registers [OF new] show ?thesis
    by (simp add: BasePath_Component_def upt_rec)
qed

end
