(* ===== verification/AuthFlow.thy ===== *)
theory AuthFlow
  imports Auth Page
begin

text \<open>
  \<open>application_auth.go\<close>, the handlers: \<open>Keepalive\<close>, \<open>RequireAuth\<close> and \<open>OptionalAuth\<close>, and the
  login flow from the login page over the provider to the callback, and logout.

  \<open>ctx\<close> is the context of the request, and \<open>c\<close> what the context handed to the operation carries.
  \<open>RequireAuth\<close> and \<open>OptionalAuth\<close> return a context and an error, both of them always.
\<close>

section \<open>Sessions on a request\<close>

definition Keepalive ::
  "'a world_scheme OIDCAuth \<Rightarrow> Context \<Rightarrow> Request \<Rightarrow> 'a world_scheme io \<Rightarrow> unit outcome \<times> 'a world_scheme io" where
  "Keepalive a ctx r io =
     (case readTokenCookie a ctx r io of
        (Panic, io1) \<Rightarrow> (Panic, io1)
      | (Value (Inl err), io1) \<Rightarrow>
          if \<not> sessionGone err then (Value (), http_Error ''session unavailable'' 503 io1)
          else (Value (), http_Error ''no session'' 401 io1)
      | (Value (Inr session), io1) \<Rightarrow>
          (case checkTokenExpiry a ctx session io1 of
             (Panic, io2) \<Rightarrow> (Panic, io2)
           | (Value (Inl err), io2) \<Rightarrow>
               let io3 = io_log LevelError ''resolve the session'' io2 in
               if \<not> sessionGone err then (Value (), http_Error ''session unavailable'' 503 io3)
               else (Value (), http_Error ''refresh failed'' 401 (clearTokenCookie a io3))
           | (Value (Inr tok), io2) \<Rightarrow> (Value (), WriteHeader 204 io2)))"

definition loginURL :: "'w OIDCAuth \<Rightarrow> Request \<Rightarrow> string" where
  "loginURL a r =
     BasePath_Path (oa_basePath a) ''/auth/login'' @ ''?'' @ Encode1 ''redirect'' (r_URL r)"

definition toLogin :: "'w OIDCAuth \<Rightarrow> Request \<Rightarrow> 'w io \<Rightarrow> 'w io" where
  "toLogin a r io = http_Redirect (loginURL a r) 302 io"

definition RequireAuth ::
  "'a world_scheme OIDCAuth \<Rightarrow> Context \<Rightarrow> auth_ctx \<Rightarrow> Request \<Rightarrow> 'a world_scheme io \<Rightarrow>
   (auth_ctx \<times> go_error option) outcome \<times> 'a world_scheme io" where
  "RequireAuth a ctx c r io =
     (case readTokenCookie a ctx r io of
        (Panic, io1) \<Rightarrow> (Panic, io1)
      | (Value (Inl err), io1) \<Rightarrow>
          if \<not> sessionGone err then (Value (c, Some (sessionUnavailableError err)), io1)
          else (Value (c, Some (Sentinel ErrSkipRender)), toLogin a r io1)
      | (Value (Inr session), io1) \<Rightarrow>
          (case checkTokenExpiry a ctx session io1 of
             (Panic, io2) \<Rightarrow> (Panic, io2)
           | (Value (Inl err), io2) \<Rightarrow>
               let io3 = io_log LevelError ''resolve the session'' io2 in
               if \<not> sessionGone err then (Value (c, Some (sessionUnavailableError err)), io3)
               else (Value (c, Some (Sentinel ErrSkipRender)), toLogin a r (clearTokenCookie a io3))
           | (Value (Inr None), io2) \<Rightarrow> (Panic, io2)
           | (Value (Inr (Some token)), io2) \<Rightarrow>
               (case op_VerifyAccess (oa_provider a) (AccessToken token) (io_world io2) of
                  (Inl e, w) \<Rightarrow>
                    (Value (c, Some (Sentinel ErrSkipRender)),
                     toLogin a r (io_log LevelError ''verify access token'' (io2\<lparr>io_world := w\<rparr>)))
                | (Inr accessToken, w) \<Rightarrow>
                    (case sessionContext (oa_provider a) c token accessToken of
                       Inl e \<Rightarrow> (Value (c, Some e), io2\<lparr>io_world := w\<rparr>)
                     | Inr authCtx \<Rightarrow> (Value (authCtx, None), io2\<lparr>io_world := w\<rparr>)))))"

definition OptionalAuth ::
  "'a world_scheme OIDCAuth \<Rightarrow> Context \<Rightarrow> auth_ctx \<Rightarrow> Request \<Rightarrow> 'a world_scheme io \<Rightarrow>
   (auth_ctx \<times> go_error option) outcome \<times> 'a world_scheme io" where
  "OptionalAuth a ctx c r io =
     (case readTokenCookie a ctx r io of
        (Panic, io1) \<Rightarrow> (Panic, io1)
      | (Value (Inl err), io1) \<Rightarrow> (Value (c, None), io1)
      | (Value (Inr session), io1) \<Rightarrow>
          (case checkTokenExpiry a ctx session io1 of
             (Panic, io2) \<Rightarrow> (Panic, io2)
           | (Value (Inl err), io2) \<Rightarrow>
               let io3 = io_log LevelError ''resolve the session'' io2 in
               (Value (c, None), if sessionGone err then clearTokenCookie a io3 else io3)
           | (Value (Inr None), io2) \<Rightarrow> (Panic, io2)
           | (Value (Inr (Some token)), io2) \<Rightarrow>
               (case op_VerifyAccess (oa_provider a) (AccessToken token) (io_world io2) of
                  (Inl e, w) \<Rightarrow>
                    (Value (c, None), io_log LevelError ''verify access token'' (io2\<lparr>io_world := w\<rparr>))
                | (Inr accessToken, w) \<Rightarrow>
                    (case sessionContext (oa_provider a) c token accessToken of
                       Inl e \<Rightarrow> (Value (c, Some e), io2\<lparr>io_world := w\<rparr>)
                     | Inr authCtx \<Rightarrow> (Value (authCtx, None), io2\<lparr>io_world := w\<rparr>)))))"

text \<open>The middleware hands the context on, or the one it got where there was an error.\<close>

definition OptionalAuthMiddleware ::
  "'a world_scheme OIDCAuth \<Rightarrow> (auth_ctx \<Rightarrow> 'a world_scheme io \<Rightarrow> unit outcome \<times> 'a world_scheme io) \<Rightarrow>
   Context \<Rightarrow> auth_ctx \<Rightarrow> Request \<Rightarrow> 'a world_scheme io \<Rightarrow> unit outcome \<times> 'a world_scheme io" where
  "OptionalAuthMiddleware a next_handler ctx c r io =
     (case OptionalAuth a ctx c r io of
        (Panic, io1) \<Rightarrow> (Panic, io1)
      | (Value (c', Some err), io1) \<Rightarrow>
          next_handler c (io_log LevelError ''set up the optional session'' io1)
      | (Value (c', None), io1) \<Rightarrow> next_handler c' io1)"

section \<open>The login flow\<close>

definition authPath :: "'w OIDCAuth \<Rightarrow> string" where
  "authPath a = BasePath_Path (oa_basePath a) ''/auth''"

definition setCallbackCookie :: "'w OIDCAuth \<Rightarrow> string \<Rightarrow> string \<Rightarrow> 'w io \<Rightarrow> 'w io" where
  "setCallbackCookie a name v io = setCookie (cookie name v (authPath a) None 3600) (oa_insecure a) io"

definition clearCallbackCookie ::
  "'a world_scheme OIDCAuth \<Rightarrow> string \<Rightarrow> 'a world_scheme io \<Rightarrow> 'a world_scheme io" where
  "clearCallbackCookie a name io =
     setCookie (cookie name [] (authPath a) (Some (clock (io_world io) - 24 * Hour)) (- 1)) (oa_insecure a) io"

definition setAuthRedirCookie ::
  "'a world_scheme OIDCAuth \<Rightarrow> string \<Rightarrow> 'a world_scheme io \<Rightarrow> unit result \<times> 'a world_scheme io" where
  "setAuthRedirCookie a redirect io =
     (case seal_payload (Some (oa_keyring a)) (oa_redirDomain a) (bytes_of_string redirect) (io_world io) of
        (Inl e, w) \<Rightarrow> (Inl (Errorf ''seal redirect target'' [e]), io\<lparr>io_world := w\<rparr>)
      | (Inr value, w) \<Rightarrow> (Inr (), setCallbackCookie a authRedirCookieName value (io\<lparr>io_world := w\<rparr>)))"

definition readAuthRedirCookie ::
  "'a world_scheme OIDCAuth \<Rightarrow> Request \<Rightarrow> 'a world_scheme io \<Rightarrow> string \<times> bool \<times> 'a world_scheme io" where
  "readAuthRedirCookie a r io =
     (case r_Cookie r authRedirCookieName of
        Inl e \<Rightarrow> ([], False, io)
      | Inr v \<Rightarrow>
          (case open_payload (Some (oa_keyring a)) (clock (io_world io)) (oa_redirDomain a) v of
             Inl e \<Rightarrow> ([], False, io_log LevelInfo ''unusable auth redirect cookie'' io)
           | Inr (plaintext, current) \<Rightarrow> (string_of_bytes plaintext, True, io)))"

definition failLogin ::
  "'w OIDCAuth \<Rightarrow> go_error \<Rightarrow> 'w io \<Rightarrow> 'c Page option result outcome \<times> 'w io" where
  "failLogin a err io =
     (Value (Inl (Sentinel ErrSkipRender)),
      http_Redirect (BasePath_Path (oa_basePath a) ''/auth/login'' @ ''?'' @ loginFailedParam @ ''=1'') 302
        (io_log LevelWarn ''login attempt failed'' io))"

definition authLogin :: "Request \<Rightarrow> 'w io \<Rightarrow> 'c Page option result outcome \<times> 'w io" where
  "authLogin r io =
     (Value (Inr (Some (zero_page\<lparr>pg_Template := ''login.html'', pg_Title := TL ''LogIn'' [''Log In''],
        pg_Contents := LoginPage (Values_Get (r_Query r) loginFailedParam \<noteq> [])\<rparr>))), io)"

definition randString :: "nat \<Rightarrow> 'a world_scheme \<Rightarrow> string result \<times> 'a world_scheme" where
  "randString n w =
     (case rand_Read n w of
        (Inl e, w') \<Rightarrow> (Inl e, w')
      | (Inr b, w') \<Rightarrow> (Inr (base64_EncodeToString RawURLEncoding b), w'))"

definition authRedirect ::
  "'a world_scheme OIDCAuth \<Rightarrow> Request \<Rightarrow> 'a world_scheme io \<Rightarrow>
   'c Page option result outcome \<times> 'a world_scheme io" where
  "authRedirect a r io =
     (case randString 16 (io_world io) of
        (Inl e, w) \<Rightarrow> (Value (Inl (Errorf ''generate random state'' [e])), io\<lparr>io_world := w\<rparr>)
      | (Inr state, w) \<Rightarrow>
          (case randString 16 w of
             (Inl e, w') \<Rightarrow> (Value (Inl (Errorf ''generate random nonce'' [e])), io\<lparr>io_world := w'\<rparr>)
           | (Inr nonce, w') \<Rightarrow>
               let io1 = setCallbackCookie a ''nonce'' nonce
                     (setCallbackCookie a ''state'' state (io\<lparr>io_world := w'\<rparr>));
                   redirect = Values_Get (r_Query r) ''redirect''
               in case (if redirect = [] then (Inr (), clearCallbackCookie a authRedirCookieName io1)
                        else setAuthRedirCookie a redirect io1) of
                    (Inl e, io2) \<Rightarrow> (Value (Inl (Errorf ''set auth redirect cookie'' [e])), io2)
                  | (Inr _, io2) \<Rightarrow>
                      (Value (Inl (Sentinel ErrSkipRender)),
                       http_Redirect (op_AuthCodeURL (oa_provider a) state nonce) 302 io2)))"

definition deleteSession ::
  "'w OIDCAuth \<Rightarrow> Context \<Rightarrow> Request \<Rightarrow> 'w io \<Rightarrow> 'w io" where
  "deleteSession a ctx r io =
     (case r_Cookie r (oa_cookieName a) of
        Inl e \<Rightarrow> io
      | Inr v \<Rightarrow>
          (case ts_Delete (auth_store a) ctx v (io_world io) of
             (Inl e, w) \<Rightarrow> io_log LevelError ''delete the session'' (io\<lparr>io_world := w\<rparr>)
           | (Inr _, w) \<Rightarrow> io\<lparr>io_world := w\<rparr>))"

definition authLogout ::
  "'a world_scheme OIDCAuth \<Rightarrow> Context \<Rightarrow> Request \<Rightarrow> 'a world_scheme io \<Rightarrow>
   'c Page option result outcome \<times> 'a world_scheme io" where
  "authLogout a ctx r io =
     (Value (Inl (Sentinel ErrSkipRender)),
      http_Redirect (BasePath_Path (oa_basePath a) ''/'') 302
        (clearTokenCookie a (deleteSession a ctx r io)))"

text \<open>The callback in two parts: up to the session, and from its creation on.\<close>

definition finishLogin ::
  "'a world_scheme OIDCAuth \<Rightarrow> Context \<Rightarrow> string \<Rightarrow> IDToken \<Rightarrow> string \<Rightarrow> Token \<Rightarrow>
   'a world_scheme io \<Rightarrow> 'c Page option result outcome \<times> 'a world_scheme io" where
  "finishLogin a ctx target idToken rawIDToken token io =
     (case ts_Create (auth_store a) ctx
             \<lparr>ns_Subject = it_Subject idToken,
              ns_Token = Some (assumeTokenExpiry (clock (io_world io)) token),
              ns_IDToken = rawIDToken\<rparr> (io_world io) of
        (Inl e, w) \<Rightarrow> failLogin a (Errorf ''create the session'' [e]) (io\<lparr>io_world := w\<rparr>)
      | (Inr None, w) \<Rightarrow> (Panic, io\<lparr>io_world := w\<rparr>)
      | (Inr (Some session), w) \<Rightarrow>
          (case setTokenCookie a session (io\<lparr>io_world := w\<rparr>) of
             (Inl e, io1) \<Rightarrow> failLogin a (Errorf ''set the session cookie'' [e]) io1
           | (Inr _, io1) \<Rightarrow>
               (Value (Inl (Sentinel ErrSkipRender)),
                http_Redirect (resolveRedirect (oa_basePath a) target) 302 io1)))"

definition clearCallbackCookies ::
  "'a world_scheme OIDCAuth \<Rightarrow> 'a world_scheme io \<Rightarrow> 'a world_scheme io" where
  "clearCallbackCookies a io =
     clearCallbackCookie a authRedirCookieName
       (clearCallbackCookie a ''nonce'' (clearCallbackCookie a ''state'' io))"

definition onLogin_result ::
  "'w OIDCAuth \<Rightarrow> IDToken \<Rightarrow> 'w \<Rightarrow> unit result \<times> 'w" where
  "onLogin_result a idToken w =
     (case oa_onLogin a of None \<Rightarrow> (Inr (), w) | Some f \<Rightarrow> f idToken w)"

definition authCallback ::
  "'a world_scheme OIDCAuth \<Rightarrow> Context \<Rightarrow> Request \<Rightarrow> 'a world_scheme io \<Rightarrow>
   'c Page option result outcome \<times> 'a world_scheme io" where
  "authCallback a ctx r io =
     (let q = Values_Get (r_Query r); p = oa_provider a in
      if q ''error'' \<noteq> [] then
        (Value (Inl (LiteralHTTPError 403 (New (''login denied by provider: '' @
           (if q ''error_description'' = [] then q ''error'' else q ''error_description''))))), io)
      else
        (case (r_Cookie r ''state'', r_Cookie r ''nonce'') of
           (Inl e, _) \<Rightarrow> failLogin a (New ''no state cookie'') io
         | (Inr state, Inl e) \<Rightarrow> failLogin a (New ''no nonce cookie'') io
         | (Inr state, Inr nonce) \<Rightarrow>
             (case readAuthRedirCookie a r io of
                (target, ok, io1) \<Rightarrow>
                  let io2 = clearCallbackCookies a io1 in
                  if q ''state'' \<noteq> state then failLogin a (New ''state did not match'') io2
                  else
                    (case op_Exchange p ctx (q ''code'') (io_world io2) of
                       (Inl e, w) \<Rightarrow>
                         failLogin a (Errorf ''exchange the authorization code'' [e]) (io2\<lparr>io_world := w\<rparr>)
                     | (Inr (token, None), w) \<Rightarrow>
                         failLogin a (New ''the token response carries no id_token'') (io2\<lparr>io_world := w\<rparr>)
                     | (Inr (token, Some rawIDToken), w) \<Rightarrow>
                         (case op_VerifyID p rawIDToken w of
                            (Inl e, w1) \<Rightarrow>
                              failLogin a (Errorf ''verify the ID token'' [e]) (io2\<lparr>io_world := w1\<rparr>)
                          | (Inr idToken, w1) \<Rightarrow>
                              if it_Nonce idToken \<noteq> nonce then
                                failLogin a (New ''nonce did not match'') (io2\<lparr>io_world := w1\<rparr>)
                              else
                                (case onLogin_result a idToken w1 of
                                   (Inl e, w2) \<Rightarrow>
                                     failLogin a (Errorf ''the login callback refused the login'' [e])
                                       (io2\<lparr>io_world := w2\<rparr>)
                                 | (Inr _, w2) \<Rightarrow>
                                     finishLogin a ctx target idToken rawIDToken token
                                       (io2\<lparr>io_world := w2\<rparr>)))))))"

section \<open>What the component registers\<close>

definition OIDCAuth_MenuHook ::
  "'w OIDCAuth \<Rightarrow> ('x, 'd, MenuItem) Hooks \<Rightarrow> ('x, 'd, MenuItem) Hooks" where
  "OIDCAuth_MenuHook a hooks =
     (if oa_noLogoutMenuItem a then hooks
      else RegisterHook (\<lambda>_. [\<lparr>mi_Title = TL ''LogOut'' [''Log out''], mi_Active = False,
             mi_HREF = BasePath_Path (oa_basePath a) ''/auth/logout'', mi_Weight = 999\<rparr>]) hooks)"

definition RegisterRoutes ::
  "'a world_scheme OIDCAuth \<Rightarrow> (string \<times> (Context, 'c, 'a world_scheme) PageHandler) list" where
  "RegisterRoutes a =
     [(''GET /auth/login'', \<lambda>ctx. authLogin),
      (''POST /auth/login'', \<lambda>ctx. authRedirect a),
      (''GET /auth/logout'', authLogout a),
      (''GET /auth/callback'', authCallback a)]"

definition insecureCookies :: "'w OIDCAuth \<Rightarrow> bool" where
  "insecureCookies a = oa_insecure a"

text \<open>As the application sees it, beside the mount point, which is a component of its own.\<close>

definition OIDCAuth_Component ::
  "'a world_scheme OIDCAuth \<Rightarrow> (Context, 'c, 'a world_scheme, 'f) Component" where
  "OIDCAuth_Component a =
     \<lparr>co_BasePath = None, co_insecureCookies = Some (insecureCookies a), co_TemplateFuncs = None,
      co_MenuHook = Some (OIDCAuth_MenuHook a), co_Routes = RegisterRoutes a, co_Observes = False\<rparr>"

section \<open>What a page reads of its context\<close>

definition ctx_AccessToken :: "auth_ctx \<Rightarrow> IDToken option" where
  "ctx_AccessToken c = ac_AccessToken c"

definition ctx_Token :: "auth_ctx \<Rightarrow> Token option" where
  "ctx_Token c = ac_Token c"

definition OIDCUserInfo :: "'w OIDCAuth \<Rightarrow> Context \<Rightarrow> auth_ctx \<Rightarrow> 'w \<Rightarrow> any result \<times> 'w" where
  "OIDCUserInfo a ctx c w =
     (case ac_Token c of
        None \<Rightarrow> (Inl (New ''no token in context''), w)
      | Some token \<Rightarrow>
          (case op_UserInfo (oa_provider a) ctx token w of
             (Inl e, w') \<Rightarrow> (Inl (Errorf ''get user info'' [e]), w')
           | (Inr info, w') \<Rightarrow> (Inr info, w')))"

end
