(* ===== verification/AuthSession.thy ===== *)
theory AuthSession
  imports AuthFlow
begin

text \<open>
  What holds of a session on a request: which outcome of the store clears the session cookie and
  which leaves it, how often the cookie is written, how \<open>OptionalAuth\<close> relates to \<open>RequireAuth\<close>,
  and what the exchange of a refresh token guarantees.
\<close>

section \<open>Lemmas\<close>

named_theorems auth_simps \<open>what the operations of the session cookie leave of a response\<close>

text \<open>The cookie of a session, and the one that unsets it.\<close>

definition token_cookie :: "'w OIDCAuth \<Rightarrow> StoredToken \<Rightarrow> Cookie" where
  "token_cookie a s =
     \<lparr>ck_Name = oa_cookieName a, ck_Value = Handle s, ck_Path = BasePath_Path (oa_basePath a) ''/'',
      ck_Expires = Some (ExpiresAt s), ck_MaxAge = 0, ck_HttpOnly = True, ck_Secure = \<not> oa_insecure a,
      ck_SameSiteLax = True\<rparr>"

definition cleared_cookie :: "'w OIDCAuth \<Rightarrow> time \<Rightarrow> Cookie" where
  "cleared_cookie a now =
     \<lparr>ck_Name = oa_cookieName a, ck_Value = [], ck_Path = BasePath_Path (oa_basePath a) ''/'',
      ck_Expires = Some (now - 24 * Hour), ck_MaxAge = - 1, ck_HttpOnly = True,
      ck_Secure = \<not> oa_insecure a, ck_SameSiteLax = True\<rparr>"

lemma token_cookie_simps [simp]:
  "ck_Name (token_cookie a s) = oa_cookieName a" "ck_MaxAge (token_cookie a s) = 0"
  "ck_Value (token_cookie a s) = Handle s"
  "ck_Name (cleared_cookie a now) = oa_cookieName a" "ck_MaxAge (cleared_cookie a now) = - 1"
  by (simp_all add: token_cookie_def cleared_cookie_def)

lemma clearTokenCookie_simps [auth_simps]:
  "io_cookies (clearTokenCookie a io) = io_cookies io @ [cleared_cookie a (clock (io_world io))]"
  "io_status (clearTokenCookie a io) = io_status io"
  "io_location (clearTokenCookie a io) = io_location io"
  "io_world (clearTokenCookie a io) = io_world io"
  by (simp_all add: clearTokenCookie_def io_simps cleared_cookie_def)

lemma toLogin_simps [auth_simps]:
  "io_cookies (toLogin a r io) = io_cookies io" "io_world (toLogin a r io) = io_world io"
  "io_location (toLogin a r io) = Some (loginURL a r)"
  "io_status (toLogin a r io) = (case io_status io of None \<Rightarrow> Some 302 | Some m \<Rightarrow> Some m)"
  by (simp_all add: toLogin_def io_simps)

text \<open>What an operation of the session cookie may do to a response: append these cookies.\<close>

definition writes :: "'w io \<Rightarrow> Cookie list \<Rightarrow> 'w io \<Rightarrow> bool" where
  "writes io cs io' \<longleftrightarrow> io_cookies io' = io_cookies io @ cs \<and> io_status io' = io_status io \<and>
     io_location io' = io_location io"

lemma setTokenCookie_cases:
  "setTokenCookie a s io = (res, io') \<Longrightarrow>
     (\<exists>e. res = Inl e \<and> writes io [] io' \<and> io_world io' = io_world io) \<or>
     (res = Inr () \<and> writes io [token_cookie a s] io' \<and> io_world io' = io_world io)"
  by (auto simp: setTokenCookie_def writes_def io_simps token_cookie_def split: if_splits)

lemma readTokenCookie_cases:
  assumes "readTokenCookie a ctx r io = (Value res, io')"
  shows "(\<exists>e now. res = Inl e \<and> sessionGone e \<and>
            (writes io [] io' \<or> writes io [cleared_cookie a now] io')) \<or>
         (\<exists>e. res = Inl e \<and> \<not> sessionGone e \<and> writes io [] io') \<or>
         (\<exists>s t. res = Inr s \<and> st_Token s = Some t \<and> writes io [] io')"
  using assms
  by (auto simp: readTokenCookie_def rejectTokenCookie_def writes_def auth_simps io_simps sessionGone_def error_simps
      split: sum.splits prod.splits option.splits if_splits)

text \<open>Outside its two writes, the resolution of the tokens leaves the response alone; and it writes
  once at most.\<close>

lemma migrateSessionCookie_cases:
  assumes "migrateSessionCookie a ctx session io = (res, io')"
  shows "writes io [] io' \<or> (\<exists>s. writes io [token_cookie a s] io')"
proof (cases "resealSession a ctx session io")
  case (Pair x io1)
  have r: "writes io [] io1"
    using Pair by (auto simp: resealSession_def writes_def io_simps split: sum.splits prod.splits)
  show ?thesis
  proof (cases x)
    case None
    then show ?thesis using assms Pair r by (simp add: migrateSessionCookie_def)
  next
    case (Some s)
    obtain x2 io2 where set: "setTokenCookie a s io1 = (x2, io2)"
      by fastforce
    show ?thesis
      using assms Pair Some r set setTokenCookie_cases [OF set]
      by (auto simp: migrateSessionCookie_def writes_def io_simps split: if_splits sum.splits)
  qed
qed

lemma resealSession_writes: "resealSession a ctx session io = (x, io') \<Longrightarrow> writes io [] io'"
  by (auto simp: resealSession_def writes_def io_simps split: sum.splits prod.splits)

lemma checkTokenExpiry_cases:
  assumes "checkTokenExpiry a ctx session io = (Value res, io')"
  shows "(\<exists>e. res = Inl e \<and> writes io [] io') \<or>
    (\<exists>t. res = Inr t \<and> (writes io [] io' \<or> (\<exists>s. writes io [token_cookie a s] io')))"
proof -
  obtain tok where tok: "st_Token session = Some tok"
    using assms by (cases "st_Token session") (simp_all add: checkTokenExpiry_def)
  show ?thesis
  proof (cases "time_Sub (Expiry tok) (clock (io_world io)) > tokenRefreshMargin")
    case True
    obtain m io1 where m: "migrateSessionCookie a ctx session io = (m, io1)"
      by fastforce
    show ?thesis
      using assms tok True m migrateSessionCookie_cases [OF m]
      by (auto simp: checkTokenExpiry_def writes_def split: if_splits outcome.splits)
  next
    case False
    obtain ref w where ref: "ts_Refresh (auth_store a) ctx session (exchangeToken a) (io_world io) = (ref, w)"
      by fastforce
    show ?thesis
    proof (cases "\<exists>s1. ref = Inr (Some s1) \<and> st_Token s1 \<noteq> None")
      case no: False
      then show ?thesis
        using assms tok False ref
        by (auto simp: checkTokenExpiry_def writes_def Let_def split: sum.splits option.splits)
    next
      case True
      then obtain s1 where s1: "ref = Inr (Some s1)" "st_Token s1 \<noteq> None"
        by blast
      let ?io1 = "io\<lparr>io_world := w\<rparr>"
      obtain x io2 where x: "(if Stale session then resealSession a ctx s1 ?io1 else (Some s1, ?io1)) = (x, io2)"
        by fastforce
      then have w2: "writes ?io1 [] io2"
        using resealSession_writes [of a ctx s1 ?io1] by (auto simp: writes_def split: if_splits)
      obtain s2 where s2: "x = Some s2"
        using assms tok False ref s1 x
        by (cases x) (simp_all add: checkTokenExpiry_def Let_def)
      obtain y io3 where y: "setTokenCookie a s2 io2 = (y, io3)"
        by fastforce
      show ?thesis
        using assms tok False ref s1 x s2 y w2 setTokenCookie_cases [OF y]
        by (auto simp: checkTokenExpiry_def writes_def Let_def split: if_splits sum.splits)
    qed
  qed
qed

text \<open>Errors of a session as their callers tell them apart.\<close>

lemma unavailable_error [auth_simps]:
  "http_code (sessionUnavailableError e) = 503" "sessionUnavailableError e \<noteq> Sentinel ErrSkipRender"
  by (simp_all add: sessionUnavailableError_def NewHTTPError_def)

lemma sessionContext_cases:
  "sessionContext p c t idt = Inr c' \<Longrightarrow> ac_Token c' = Some t \<and> ac_AccessToken c' = Some idt \<and>
     BearerToken c' = Some (AccessToken t) \<and> AuthorizationHeader c' = Some (''Bearer '' @ AccessToken t)"
  "sessionContext p c t idt = Inl e \<Longrightarrow> http_code e = 500 \<and> e \<noteq> Sentinel ErrSkipRender"
  by (auto simp: sessionContext_def WithBearerToken_def BearerToken_def AuthorizationHeader_def
      NewHTTPError_def Let_def split: option.splits)

text \<open>The failure a store has answered a request with, if it has: of reading the session, or of
  refreshing one whose access token is about to expire.\<close>

definition store_failure ::
  "'a world_scheme OIDCAuth \<Rightarrow> Context \<Rightarrow> Request \<Rightarrow> 'a world_scheme \<Rightarrow> go_error option" where
  "store_failure a ctx r w =
     (case r_Cookie r (oa_cookieName a) of
        Inl e \<Rightarrow> None
      | Inr v \<Rightarrow>
          (case ts_Get (auth_store a) ctx v w of
             (Inl e, w1) \<Rightarrow> Some e
           | (Inr None, w1) \<Rightarrow> None
           | (Inr (Some s), w1) \<Rightarrow>
               (case st_Token s of
                  None \<Rightarrow> None
                | Some t \<Rightarrow>
                    if time_Sub (Expiry t) (clock w1) > tokenRefreshMargin then None
                    else (case fst (ts_Refresh (auth_store a) ctx s (exchangeToken a) w1) of
                            Inl e \<Rightarrow> Some e | Inr s' \<Rightarrow> None))))"

text \<open>How the three handlers of a session see the same resolution.\<close>

definition resolved ::
  "'a world_scheme OIDCAuth \<Rightarrow> Context \<Rightarrow> Request \<Rightarrow> 'a world_scheme io \<Rightarrow>
   Token option result outcome \<times> bool \<times> 'a world_scheme io" where
  "resolved a ctx r io =
     (case readTokenCookie a ctx r io of
        (Panic, io1) \<Rightarrow> (Panic, False, io1)
      | (Value (Inl e), io1) \<Rightarrow> (Value (Inl e), False, io1)
      | (Value (Inr session), io1) \<Rightarrow>
          (case checkTokenExpiry a ctx session io1 of
             (Panic, io2) \<Rightarrow> (Panic, True, io2)
           | (Value (Inl e), io2) \<Rightarrow> (Value (Inl e), True, io_log LevelError ''resolve the session'' io2)
           | (Value (Inr t), io2) \<Rightarrow> (Value (Inr t), True, io2)))"

lemma RequireAuth_resolved:
  "RequireAuth a ctx c r io =
     (case resolved a ctx r io of
        (Panic, _, io1) \<Rightarrow> (Panic, io1)
      | (Value (Inl e), reading, io1) \<Rightarrow>
          if \<not> sessionGone e then (Value (c, Some (sessionUnavailableError e)), io1)
          else (Value (c, Some (Sentinel ErrSkipRender)),
                toLogin a r (if reading then clearTokenCookie a io1 else io1))
      | (Value (Inr None), _, io1) \<Rightarrow> (Panic, io1)
      | (Value (Inr (Some token)), _, io1) \<Rightarrow>
          (case op_VerifyAccess (oa_provider a) (AccessToken token) (io_world io1) of
             (Inl e, w) \<Rightarrow> (Value (c, Some (Sentinel ErrSkipRender)),
                toLogin a r (io_log LevelError ''verify access token'' (io1\<lparr>io_world := w\<rparr>)))
           | (Inr idt, w) \<Rightarrow>
               (case sessionContext (oa_provider a) c token idt of
                  Inl e \<Rightarrow> (Value (c, Some e), io1\<lparr>io_world := w\<rparr>)
                | Inr c' \<Rightarrow> (Value (c', None), io1\<lparr>io_world := w\<rparr>))))"
  unfolding RequireAuth_def resolved_def Let_def
  by (auto split: prod.split outcome.split sum.split option.split)

lemma OptionalAuth_resolved:
  "OptionalAuth a ctx c r io =
     (case resolved a ctx r io of
        (Panic, _, io1) \<Rightarrow> (Panic, io1)
      | (Value (Inl e), reading, io1) \<Rightarrow>
          (Value (c, None), if sessionGone e \<and> reading then clearTokenCookie a io1 else io1)
      | (Value (Inr None), _, io1) \<Rightarrow> (Panic, io1)
      | (Value (Inr (Some token)), _, io1) \<Rightarrow>
          (case op_VerifyAccess (oa_provider a) (AccessToken token) (io_world io1) of
             (Inl e, w) \<Rightarrow> (Value (c, None), io_log LevelError ''verify access token'' (io1\<lparr>io_world := w\<rparr>))
           | (Inr idt, w) \<Rightarrow>
               (case sessionContext (oa_provider a) c token idt of
                  Inl e \<Rightarrow> (Value (c, Some e), io1\<lparr>io_world := w\<rparr>)
                | Inr c' \<Rightarrow> (Value (c', None), io1\<lparr>io_world := w\<rparr>))))"
  unfolding OptionalAuth_def resolved_def Let_def
  by (auto split: prod.split outcome.split sum.split option.split)

lemma Keepalive_resolved:
  "Keepalive a ctx r io =
     (case resolved a ctx r io of
        (Panic, _, io1) \<Rightarrow> (Panic, io1)
      | (Value (Inl e), reading, io1) \<Rightarrow>
          (Value (), if \<not> sessionGone e then http_Error ''session unavailable'' 503 io1
             else http_Error (if reading then ''refresh failed'' else ''no session'') 401
                    (if reading then clearTokenCookie a io1 else io1))
      | (Value (Inr t), _, io1) \<Rightarrow> (Value (), WriteHeader 204 io1))"
  unfolding Keepalive_def resolved_def Let_def
  by (auto split: prod.split outcome.split sum.split option.split)

text \<open>A resolution writes one cookie at most; it clears one only where it could not be read, because
  the session is gone.\<close>

lemma writes_trans: "writes io [] io1 \<Longrightarrow> writes io1 cs io2 \<Longrightarrow> writes io cs io2"
  by (simp add: writes_def)

lemma writes_log [simp]: "writes io cs (io_log l m io1) = writes io cs io1"
  by (simp add: writes_def io_simps)

lemma resolved_cases:
  assumes "resolved a ctx r io = (Value res, reading, io')"
  shows "(\<exists>e now. res = Inl e \<and> \<not> reading \<and> sessionGone e \<and>
             (writes io [] io' \<or> writes io [cleared_cookie a now] io')) \<or>
         (\<exists>e. res = Inl e \<and> \<not> reading \<and> \<not> sessionGone e \<and> writes io [] io') \<or>
         (\<exists>e. res = Inl e \<and> reading \<and> writes io [] io') \<or>
         (\<exists>t. res = Inr t \<and> (writes io [] io' \<or> (\<exists>s. writes io [token_cookie a s] io')))"
proof (cases "readTokenCookie a ctx r io")
  case (Pair out io1)
  show ?thesis
  proof (cases out)
    case Panic
    then show ?thesis using assms Pair by (simp add: resolved_def)
  next
    case (Value x)
    note read = readTokenCookie_cases [OF Pair [unfolded Value]]
    show ?thesis
    proof (cases x)
      case (Inl e)
      then show ?thesis
        using assms Pair Value read by (auto simp: resolved_def)
    next
      case (Inr session)
      then have w1: "writes io [] io1"
        using read by auto
      obtain out2 io2 where chk: "checkTokenExpiry a ctx session io1 = (out2, io2)"
        by fastforce
      then obtain y where y: "out2 = Value y"
        using assms Pair Value Inr by (cases out2) (simp_all add: resolved_def)
      show ?thesis
        using assms Pair Value Inr chk y checkTokenExpiry_cases [OF chk [unfolded y]] writes_trans [OF w1]
        by (auto simp: resolved_def split: sum.splits)
    qed
  qed
qed

text \<open>Nothing in a resolution writes a status or a redirect, whether it ends or panics.\<close>

definition unanswered :: "'w io \<Rightarrow> 'w io \<Rightarrow> bool" where
  "unanswered io io' \<longleftrightarrow> io_status io' = io_status io \<and> io_location io' = io_location io"

lemma writes_unanswered: "writes io cs io' \<Longrightarrow> unanswered io io'"
  by (simp add: writes_def unanswered_def)

lemma readTokenCookie_unanswered:
  "readTokenCookie a ctx r io = (out, io') \<Longrightarrow> unanswered io io'"
  by (auto simp: readTokenCookie_def rejectTokenCookie_def unanswered_def auth_simps io_simps
      split: sum.splits prod.splits option.splits if_splits)

lemma checkTokenExpiry_panic:
  assumes "checkTokenExpiry a ctx session io = (Panic, io')"
  shows "unanswered io io'"
proof (cases "st_Token session")
  case None
  then show ?thesis using assms by (simp add: checkTokenExpiry_def unanswered_def)
next
  case (Some tok)
  show ?thesis
  proof (cases "time_Sub (Expiry tok) (clock (io_world io)) > tokenRefreshMargin")
    case True
    obtain m io1 where m: "migrateSessionCookie a ctx session io = (m, io1)"
      by fastforce
    have "io' = io1"
      using assms Some True m by (simp add: checkTokenExpiry_def split: if_splits outcome.splits)
    then show ?thesis
      using migrateSessionCookie_cases [OF m] writes_unanswered by blast
  next
    case False
    obtain ref w where ref: "ts_Refresh (auth_store a) ctx session (exchangeToken a) (io_world io) = (ref, w)"
      by fastforce
    obtain s1 where s1: "ref = Inr (Some s1)" "st_Token s1 \<noteq> None"
      using assms Some False ref
      by (auto simp: checkTokenExpiry_def Let_def split: sum.splits option.splits if_splits)
    let ?io1 = "io\<lparr>io_world := w\<rparr>"
    obtain x io2 where x: "(if Stale session then resealSession a ctx s1 ?io1 else (Some s1, ?io1)) = (x, io2)"
      by fastforce
    have "io' = io2"
    proof (cases x)
      case None
      then show ?thesis using assms Some False ref s1 x by (simp add: checkTokenExpiry_def Let_def)
    next
      case s2: (Some s2)
      obtain y io3 where "setTokenCookie a s2 io2 = (y, io3)"
        by fastforce
      then show ?thesis
        using assms Some False ref s1 x s2
        by (cases y) (simp_all add: checkTokenExpiry_def Let_def split: if_splits)
    qed
    moreover have "writes ?io1 [] io2"
      using x resealSession_writes [of a ctx s1 ?io1] by (auto simp: writes_def split: if_splits)
    ultimately show ?thesis
      by (simp add: writes_def unanswered_def)
  qed
qed

lemma checkTokenExpiry_unanswered:
  assumes "checkTokenExpiry a ctx session io = (out, io')"
  shows "unanswered io io'"
proof (cases out)
  case (Value res)
  then show ?thesis
    using checkTokenExpiry_cases [OF assms [unfolded Value]] writes_unanswered by blast
qed (use assms checkTokenExpiry_panic in blast)

lemma unanswered_trans: "unanswered io io1 \<Longrightarrow> unanswered io1 io2 \<Longrightarrow> unanswered io io2"
  by (simp add: unanswered_def)

lemma resolved_unanswered:
  assumes "resolved a ctx r io = (out, reading, io')"
  shows "unanswered io io'"
proof (cases "readTokenCookie a ctx r io")
  case (Pair out1 io1)
  note u1 = readTokenCookie_unanswered [OF Pair]
  show ?thesis
  proof (cases "\<exists>session. out1 = Value (Inr session)")
    case True
    then obtain session where s: "out1 = Value (Inr session)"
      by blast
    obtain out2 io2 where chk: "checkTokenExpiry a ctx session io1 = (out2, io2)"
      by fastforce
    have "unanswered io1 io'"
      using assms Pair s chk checkTokenExpiry_unanswered [OF chk]
      by (auto simp: resolved_def unanswered_def io_simps split: outcome.splits sum.splits)
    then show ?thesis
      by (rule unanswered_trans [OF u1])
  next
    case False
    then have "io' = io1"
      using assms Pair by (auto simp: resolved_def split: outcome.splits sum.splits)
    with u1 show ?thesis by simp
  qed
qed

text \<open>A failure of the store is what the resolution ends with, up to its wrapping.\<close>

lemma resolved_store_failure:
  assumes "store_failure a ctx r (io_world io) = Some e"
  shows "\<exists>e' reading io'. resolved a ctx r io = (Value (Inl e'), reading, io') \<and>
    sessionGone e' = sessionGone e \<and>
    writes io (if sessionGone e \<and> \<not> reading then [cleared_cookie a (clock (io_world io'))] else []) io'"
proof -
  obtain v where v: "r_Cookie r (oa_cookieName a) = Inr v"
    using assms by (auto simp: store_failure_def split: sum.splits)
  obtain g w1 where g: "ts_Get (auth_store a) ctx v (io_world io) = (g, w1)"
    by fastforce
  show ?thesis
  proof (cases g)
    case (Inl e')
    then show ?thesis
      using assms v g
      by (auto simp: store_failure_def resolved_def readTokenCookie_def rejectTokenCookie_def writes_def
          auth_simps io_simps)
  next
    case (Inr so)
    then obtain s t where s: "so = Some s" "st_Token s = Some t"
      and near: "\<not> time_Sub (Expiry t) (clock w1) > tokenRefreshMargin"
      and ref: "fst (ts_Refresh (auth_store a) ctx s (exchangeToken a) w1) = Inl e"
      using assms v g by (auto simp: store_failure_def split: option.splits sum.splits if_splits)
    obtain w2 where "ts_Refresh (auth_store a) ctx s (exchangeToken a) w1 = (Inl e, w2)"
      using ref by (metis prod.collapse)
    then show ?thesis
      using v g Inr s near
      by (auto simp: resolved_def readTokenCookie_def checkTokenExpiry_def writes_def sessionGone_def
          error_simps io_simps)
  qed
qed

lemma resealSession_Some:
  assumes "fst (ts_Reseal (auth_store a) ctx s (io_world io)) \<noteq> Inr None"
  shows "\<exists>x io1. resealSession a ctx s io = (Some x, io1)"
proof (cases "ts_Reseal (auth_store a) ctx s (io_world io)")
  case (Pair out w)
  then show ?thesis
    using assms by (cases out) (auto simp: resealSession_def not_None_eq)
qed

text \<open>A session that resolves and needs no refresh is a context.\<close>

lemma checkTokenExpiry_valid:
  assumes "st_Token s = Some t" and "time_Sub (Expiry t) (clock (io_world io)) > tokenRefreshMargin"
    and "fst (ts_Reseal (auth_store a) ctx s (io_world io)) \<noteq> Inr None"
  shows "\<exists>io'. checkTokenExpiry a ctx s io = (Value (Inr (Some t)), io')"
proof -
  obtain x io1 where x: "resealSession a ctx s io = (Some x, io1)"
    using resealSession_Some [OF assms(3)] by blast
  obtain y io2 where "setTokenCookie a x io1 = (y, io2)"
    by fastforce
  then have "\<exists>io'. migrateSessionCookie a ctx s io = (Value (), io')"
    using x by (cases y) (simp_all add: migrateSessionCookie_def)
  then show ?thesis
    using assms(1,2) by (auto simp: checkTokenExpiry_def)
qed

lemma RequireAuth_valid:
  assumes "r_Cookie r (oa_cookieName a) = Inr v" and "ts_Get (auth_store a) ctx v (io_world io) = (Inr (Some s), w)"
    and "st_Token s = Some t" and "time_Sub (Expiry t) (clock w) > tokenRefreshMargin"
    and "fst (ts_Reseal (auth_store a) ctx s w) \<noteq> Inr None"
    and verify: "\<And>w. fst (op_VerifyAccess (oa_provider a) (AccessToken t) w) = Inr idt"
    and "op_TwirpHeaders (oa_provider a) (''Bearer '' @ AccessToken t) = None"
  shows "\<exists>c' io'. RequireAuth a ctx c r io = (Value (c', None), io') \<and> ac_Token c' = Some t \<and>
    ac_AccessToken c' = Some idt \<and> BearerToken c' = Some (AccessToken t)"
proof -
  have "readTokenCookie a ctx r io = (Value (Inr s), io\<lparr>io_world := w\<rparr>)"
    using assms(1-3) by (simp add: readTokenCookie_def)
  moreover obtain io' where "checkTokenExpiry a ctx s (io\<lparr>io_world := w\<rparr>) = (Value (Inr (Some t)), io')"
    using checkTokenExpiry_valid [of s t "io\<lparr>io_world := w\<rparr>" a ctx] assms(3-5) by auto
  ultimately have "resolved a ctx r io = (Value (Inr (Some t)), True, io')"
    by (simp add: resolved_def)
  moreover obtain w' where "op_VerifyAccess (oa_provider a) (AccessToken t) (io_world io') = (Inr idt, w')"
    using verify [of "io_world io'"] by (metis prod.collapse)
  moreover obtain c' where "sessionContext (oa_provider a) c t idt = Inr c'"
    using assms(7) by (simp add: sessionContext_def WithBearerToken_def)
  ultimately show ?thesis
    using sessionContext_cases(1) [of "oa_provider a" c t idt c'] by (simp add: RequireAuth_resolved)
qed

section \<open>Sample configuration\<close>

text \<open>A provider that accepts every access token, and a store whose answers are given.\<close>

definition sample_idtoken :: IDToken where
  "sample_idtoken = \<lparr>it_Subject = ''u'', it_Nonce = ''n''\<rparr>"

definition sample_provider :: "'w provider" where
  "sample_provider =
     \<lparr>op_VerifyAccess = (\<lambda>t w. (Inr sample_idtoken, w)), op_VerifyID = (\<lambda>t w. (Inr sample_idtoken, w)),
      op_Exchange = (\<lambda>ctx code w. (Inr (sample_token, Some ''id''), w)),
      op_AuthCodeURL = (\<lambda>state nonce. ''https://idp.example/?state='' @ state @ ''&nonce='' @ nonce),
      op_TokenURL = ''https://idp.example/token'', op_TokenURL_ok = True,
      op_Client = (\<lambda>ctx req w. (Inl (New ''unreachable''), w)),
      op_TwirpHeaders = (\<lambda>h. None), op_UserInfo = (\<lambda>ctx t w. (Inr (AnyString ''u''), w))\<rparr>"

definition answering_store ::
  "StoredToken option result \<Rightarrow> StoredToken option result \<Rightarrow> 'w TokenStore" where
  "answering_store got refreshed =
     \<lparr>ts_Create = (\<lambda>ctx ns w. (got, w)), ts_Get = (\<lambda>ctx h w. (got, w)),
      ts_Update = (\<lambda>ctx h t w. (got, w)), ts_Reseal = (\<lambda>ctx s w. (got, w)),
      ts_Delete = (\<lambda>ctx h w. (Inr (), w)), ts_Refresh = (\<lambda>ctx s ex w. (refreshed, w)),
      ts_DeleteExpired = (\<lambda>ctx n w. (Inr 0, w))\<rparr>"

definition sample_auth :: "'w TokenStore \<Rightarrow> 'w OIDCAuth" where
  "sample_auth store =
     \<lparr>oa_provider = sample_provider, oa_ClientID = ''id'', oa_ClientSecret = ''secret'',
      oa_keyring = sample_keyring, oa_onLogin = None, oa_basePath = ''/admin'', oa_cookieName = ''token'',
      oa_insecure = False, oa_noLogoutMenuItem = False, oa_store = Some store,
      oa_maxSessionAge = DefaultMaxSessionAge, oa_maxSessionAgeSet = False,
      oa_sessionDomain = ''session:token'', oa_redirDomain = ''redirect:token''\<rparr>"

definition sample_visit :: Request where
  "sample_visit = \<lparr>r_Method = ''GET'', r_Host = ''app.example'', r_URL = ''/page?x=1&y=2'', r_Path = ''/page'',
     r_Query = [(''x'', ''1''), (''y'', ''2'')], r_Header = [], r_Cookies = [(''token'', ''h'')]\<rparr>"

definition sample_world :: world where "sample_world = \<lparr>clock = 150, rng = replicate 100 7\<rparr>"

abbreviation anonymous :: auth_ctx where
  "anonymous \<equiv> \<lparr>ac_Bearer = None, ac_Twirp = None, ac_Token = None, ac_AccessToken = None\<rparr>"

lemmas sample_defs = sample_auth_def sample_visit_def sample_world_def answering_store_def auth_store_def
  sample_provider_def sample_io_def r_Cookie_def

section \<open>Properties\<close>

text \<open>C2. An outage does not log anybody out, and a session that is over does.  Where the store fails
  a request, on reading the session or on refreshing it, with an error that does not say that the
  session is gone, no handler writes any cookie, and the visitor gets a 503, or the public page
  anonymously; where the error says so, the session cookie is cleared, once, and the visitor is
  sent to log in.\<close>

theorem store_failure_fate:
  assumes failed: "store_failure a ctx r (io_world io) = Some e" and fresh: "io_status io = None"
  shows "if sessionGone e
    then (\<exists>now.
      (\<exists>io'. RequireAuth a ctx c r io = (Value (c, Some (Sentinel ErrSkipRender)), io') \<and>
        io_cookies io' = io_cookies io @ [cleared_cookie a now] \<and> io_location io' = Some (loginURL a r)) \<and>
      (\<exists>io'. OptionalAuth a ctx c r io = (Value (c, None), io') \<and>
        io_cookies io' = io_cookies io @ [cleared_cookie a now] \<and> io_status io' = None) \<and>
      (\<exists>io'. Keepalive a ctx r io = (Value (), io') \<and>
        io_cookies io' = io_cookies io @ [cleared_cookie a now] \<and> io_status io' = Some 401))
    else
      (\<exists>err io'. RequireAuth a ctx c r io = (Value (c, Some err), io') \<and> http_code err = 503 \<and>
        io_cookies io' = io_cookies io \<and> io_location io' = io_location io) \<and>
      (\<exists>io'. OptionalAuth a ctx c r io = (Value (c, None), io') \<and>
        io_cookies io' = io_cookies io \<and> io_status io' = None) \<and>
      (\<exists>io'. Keepalive a ctx r io = (Value (), io') \<and>
        io_cookies io' = io_cookies io \<and> io_status io' = Some 503)"
proof -
  obtain e' reading io' where res: "resolved a ctx r io = (Value (Inl e'), reading, io')"
    and gone: "sessionGone e' = sessionGone e"
    and w: "writes io (if sessionGone e \<and> \<not> reading then [cleared_cookie a (clock (io_world io'))] else []) io'"
    using resolved_store_failure [OF failed] by blast
  show ?thesis
    using w fresh gone
    by (cases reading)
       (auto simp: RequireAuth_resolved OptionalAuth_resolved Keepalive_resolved res writes_def auth_simps io_simps)
qed

lemma store_failure_fate_witness:
  "(\<exists>err io'. RequireAuth (sample_auth (answering_store (Inl (New ''down'')) (Inl (New ''down'')))) Background anonymous
      sample_visit (sample_io sample_world) = (Value (anonymous, Some err), io') \<and> http_code err = 503 \<and> io_cookies io' = []) \<and>
   (\<exists>io' now. Keepalive (sample_auth (answering_store (Inl (Sentinel ErrNoSession)) (Inl (New ''down'')))) Background
      sample_visit (sample_io sample_world) = (Value (), io') \<and> io_status io' = Some 401 \<and>
      io_cookies io' = [cleared_cookie (sample_auth (answering_store (Inl (Sentinel ErrNoSession)) (Inl (New ''down''))) :: world OIDCAuth) now])"
proof
  show "\<exists>err io'. RequireAuth (sample_auth (answering_store (Inl (New ''down'')) (Inl (New ''down'')))) Background anonymous
      sample_visit (sample_io sample_world) = (Value (anonymous, Some err), io') \<and> http_code err = 503 \<and> io_cookies io' = []"
    using store_failure_fate [of "sample_auth (answering_store (Inl (New ''down'')) (Inl (New ''down'')))" Background
        sample_visit "sample_io sample_world" "New ''down''" anonymous]
    by (auto simp: store_failure_def sample_defs sessionGone_def error_simps)
  show "\<exists>io' now. Keepalive (sample_auth (answering_store (Inl (Sentinel ErrNoSession)) (Inl (New ''down'')))) Background
      sample_visit (sample_io sample_world) = (Value (), io') \<and> io_status io' = Some 401 \<and>
      io_cookies io' = [cleared_cookie (sample_auth (answering_store (Inl (Sentinel ErrNoSession)) (Inl (New ''down''))) :: world OIDCAuth) now]"
    using store_failure_fate [of "sample_auth (answering_store (Inl (Sentinel ErrNoSession)) (Inl (New ''down'')))" Background
        sample_visit "sample_io sample_world" "Sentinel ErrNoSession" anonymous]
    by (auto simp: store_failure_def sample_defs sessionGone_def error_simps)
qed

text \<open>C10. A required session ends one of three ways, and the session cookie is written once at most.
  A session that resolves gives a context with its tokens, its bearer header and an access token
  the provider has verified, and nothing is written but a session cookie; a visitor who has to log
  in is redirected to the login page with this page as the target; and any other error, a 503 or a
  500, comes with no cookie cleared and no redirect.\<close>

theorem RequireAuth_outcomes:
  assumes run: "RequireAuth a ctx c r io = (Value (c', err), io')" and fresh: "io_status io = None"
  shows "\<exists>cs. io_cookies io' = io_cookies io @ cs \<and> length cs \<le> 1 \<and>
    (\<forall>k \<in> set cs. ck_Name k = oa_cookieName a) \<and>
    (case err of
       None \<Rightarrow> io_status io' = None \<and> io_location io' = io_location io \<and> (\<forall>k \<in> set cs. ck_MaxAge k = 0) \<and>
         (\<exists>t idt w. ac_Token c' = Some t \<and> ac_AccessToken c' = Some idt \<and>
            BearerToken c' = Some (AccessToken t) \<and> AuthorizationHeader c' = Some (''Bearer '' @ AccessToken t) \<and>
            fst (op_VerifyAccess (oa_provider a) (AccessToken t) w) = Inr idt)
     | Some e \<Rightarrow> c' = c \<and>
         (if e = Sentinel ErrSkipRender
          then io_status io' = Some 302 \<and> io_location io' = Some (loginURL a r)
          else io_status io' = None \<and> io_location io' = io_location io \<and> http_code e \<in> {500, 503} \<and>
            (\<forall>k \<in> set cs. ck_MaxAge k = 0)))"
proof -
  obtain res reading io1 where res: "resolved a ctx r io = (Value res, reading, io1)"
  proof (cases "resolved a ctx r io")
    case (fields out reading io1)
    show ?thesis
    proof (cases out)
      case Panic
      then show ?thesis using fields run by (simp add: RequireAuth_resolved)
    qed (use fields that in blast)
  qed
  show ?thesis
  proof (cases res)
    case (Inl e)
    then show ?thesis
      using run fresh resolved_cases [OF res]
      by (auto simp: RequireAuth_resolved res writes_def auth_simps io_simps split: if_splits)
  next
    case (Inr to)
    then obtain t where t: "to = Some t"
      using run by (cases to) (simp_all add: RequireAuth_resolved res)
    obtain cs where cs: "writes io cs io1" "length cs \<le> 1"
      "\<forall>k \<in> set cs. ck_Name k = oa_cookieName a \<and> ck_MaxAge k = 0"
      using resolved_cases [OF res] Inr by fastforce
    obtain v w where v: "op_VerifyAccess (oa_provider a) (AccessToken t) (io_world io1) = (v, w)"
      by fastforce
    then have v1: "\<exists>w. fst (op_VerifyAccess (oa_provider a) (AccessToken t) w) = v"
      by (metis fst_conv)
    show ?thesis
    proof (cases v)
      case (Inl e)
      then show ?thesis
        using run fresh cs v t \<open>res = Inr to\<close>
        by (auto simp: RequireAuth_resolved res writes_def auth_simps io_simps)
    next
      case (Inr idt)
      then show ?thesis
        using run fresh cs v t \<open>res = Inr to\<close> v1 sessionContext_cases [of "oa_provider a" c t idt]
        by (cases "sessionContext (oa_provider a) c t idt")
           (auto simp: RequireAuth_resolved res writes_def)
    qed
  qed
qed

lemma RequireAuth_outcomes_witness:
  "\<exists>c' io' t. RequireAuth (sample_auth (answering_store (Inr (Some (sample_session\<lparr>st_Token :=
       Some (sample_token\<lparr>Expiry := 20 * Second\<rparr>)\<rparr>))) (Inr None))) Background anonymous sample_visit
       (sample_io sample_world) = (Value (c', None), io') \<and>
     ac_Token c' = Some t \<and> AuthorizationHeader c' = Some (''Bearer '' @ AccessToken t) \<and> io_status io' = None"
proof -
  let ?a = "sample_auth (answering_store (Inr (Some (sample_session\<lparr>st_Token :=
       Some (sample_token\<lparr>Expiry := 20 * Second\<rparr>)\<rparr>))) (Inr None)) :: world OIDCAuth"
  obtain c' io' where run: "RequireAuth ?a Background anonymous sample_visit (sample_io sample_world) = (Value (c', None), io')"
    by (simp add: RequireAuth_def readTokenCookie_def checkTokenExpiry_def sample_defs sample_session_def
        time_Sub_def tokenRefreshMargin_def sessionContext_def Let_def)
  have "io_status (sample_io sample_world) = None"
    by (simp add: sample_io_def)
  from RequireAuth_outcomes [OF run this] run show ?thesis by fastforce
qed

text \<open>C18. A public page sees the session exactly as a protected one does.  \<open>OptionalAuth\<close> does to the
  environment and to the cookies what \<open>RequireAuth\<close> does, gives the same context where that
  resolves a session, and the unchanged one where that sends the visitor to log in or answers with
  a 503; it reports only what is neither, and it writes no status and no redirect.\<close>

theorem OptionalAuth_agrees:
  "fst (OptionalAuth a ctx c r io) =
     (case fst (RequireAuth a ctx c r io) of
        Panic \<Rightarrow> Panic
      | Value (c', None) \<Rightarrow> Value (c', None)
      | Value (c', Some e) \<Rightarrow>
          Value (c, if e = Sentinel ErrSkipRender \<or> http_code e = 503 then None else Some e)) \<and>
   io_cookies (snd (OptionalAuth a ctx c r io)) = io_cookies (snd (RequireAuth a ctx c r io)) \<and>
   io_world (snd (OptionalAuth a ctx c r io)) = io_world (snd (RequireAuth a ctx c r io)) \<and>
   io_status (snd (OptionalAuth a ctx c r io)) = io_status io \<and>
   io_location (snd (OptionalAuth a ctx c r io)) = io_location io"
proof (cases "resolved a ctx r io")
  case (fields out reading io1)
  have st: "io_status io1 = io_status io" "io_location io1 = io_location io"
    using resolved_unanswered [OF fields] by (simp_all add: unanswered_def)
  show ?thesis
  proof (cases out)
    case Panic
    then show ?thesis using st by (simp add: OptionalAuth_resolved RequireAuth_resolved fields)
  next
    case (Value res)
    show ?thesis
    proof (cases res)
      case (Inl e)
      then show ?thesis
        using Value st by (auto simp: OptionalAuth_resolved RequireAuth_resolved fields auth_simps)
    next
      case (Inr to)
      show ?thesis
      proof (cases to)
        case None
        then show ?thesis using Value Inr st by (simp add: OptionalAuth_resolved RequireAuth_resolved fields)
      next
        case (Some t)
        then show ?thesis
          using Value Inr st sessionContext_cases(2) [of "oa_provider a" c t]
          by (auto simp: OptionalAuth_resolved RequireAuth_resolved fields auth_simps io_simps
              split: prod.split sum.split)
      qed
    qed
  qed
qed

text \<open>A store that reports neither a session nor an error takes the request down: the guard looks
  at the token of the session it was handed, and not first at whether there is one.\<close>

theorem nil_session_panics:
  assumes "r_Cookie r (oa_cookieName a) = Inr v" and "ts_Get (auth_store a) ctx v (io_world io) = (Inr None, w)"
  shows "fst (RequireAuth a ctx c r io) = Panic \<and> fst (OptionalAuth a ctx c r io) = Panic \<and>
    fst (Keepalive a ctx r io) = Panic"
  using assms by (simp add: RequireAuth_def OptionalAuth_def Keepalive_def readTokenCookie_def)

lemma nil_session_panics_witness:
  "fst (RequireAuth (sample_auth (answering_store (Inr None) (Inr None))) Background anonymous
     sample_visit (sample_io sample_world)) = Panic"
  using nil_session_panics [of sample_visit "sample_auth (answering_store (Inr None) (Inr None))" "''h''"
      Background "sample_io sample_world" sample_world anonymous]
  by (simp add: sample_defs)

text \<open>C25. A refresh never leaves a session worse equipped than it was: a provider that hands out no new
  refresh token leaves the old one in place, and one that does not say how long the access token
  lasts gives it an expiry outside the refresh margin, so that the next request does not refresh
  again.\<close>

theorem exchangeRefreshToken_token:
  assumes exchanged: "exchangeRefreshToken a ctx old w = (Inr (Some t), w')" and old: "old \<noteq> []"
  shows "RefreshToken t \<noteq> [] \<and> AccessToken t \<noteq> [] \<and>
    (\<exists>fresh. fst (doTokenRoundTrip (op_Client (oa_provider a) (detachedDeadline ctx tokenRefreshTimeout (clock w))) (refresh_request a old) w) =
         Inr (Some fresh) \<and> AccessToken t = AccessToken fresh \<and>
       RefreshToken t = (if RefreshToken fresh = [] then old else RefreshToken fresh) \<and>
       (if IsZero (Expiry fresh) then time_Sub (Expiry t) (clock w') > tokenRefreshMargin
        else Expiry t = Expiry fresh))"
proof -
  obtain fresh w1 where rt: "doTokenRoundTrip (op_Client (oa_provider a) (detachedDeadline ctx tokenRefreshTimeout (clock w))) (refresh_request a old) w =
        (Inr (Some fresh), w1)"
    and t: "t = assumeTokenExpiry (clock w1)
      (if RefreshToken fresh = [] then fresh\<lparr>RefreshToken := old\<rparr> else fresh)" and w1: "w1 = w'"
    using exchanged by (auto simp: exchangeRefreshToken_def split: prod.splits sum.splits if_splits option.splits)
  have "AccessToken fresh \<noteq> []"
    using doTokenRoundTrip_Inr [OF rt] by simp
  moreover have "time_Sub (clock w1 + assumedAccessTokenLifetime) (clock w1) > tokenRefreshMargin"
    by (simp add: time_Sub_def assumedAccessTokenLifetime_def tokenRefreshMargin_def)
  ultimately show ?thesis
    using rt t w1 old by (auto simp: assumeTokenExpiry_def)
qed

definition granting_provider :: "world provider" where
  "granting_provider = sample_provider
     \<lparr>op_Client := (\<lambda>ctx req w. (Inr \<lparr>resp_StatusCode = 200, resp_MediaType = ''application/json'',
        resp_Body = sample_answer, resp_BodyErr = None\<rparr>, w))\<rparr>"

lemma exchangeRefreshToken_token_witness:
  "\<exists>t w'. exchangeRefreshToken ((sample_auth (answering_store (Inr None) (Inr None)))\<lparr>oa_provider := granting_provider\<rparr>)
     Background ''old'' sample_world = (Inr (Some t), w') \<and> RefreshToken t \<noteq> [] \<and> AccessToken t \<noteq> []"
proof -
  let ?a = "(sample_auth (answering_store (Inr None) (Inr None)))\<lparr>oa_provider := granting_provider\<rparr>"
  obtain t w' where e: "exchangeRefreshToken ?a Background ''old'' sample_world = (Inr (Some t), w')"
    using Unmarshal_sample_answer by (simp add: exchangeRefreshToken_def doTokenRoundTrip_def granting_provider_def
        sample_provider_def json_token_def zero_tokenJSON_def sample_answer_short Let_def)
  show ?thesis
    using e exchangeRefreshToken_token [OF e] by blast
qed

text \<open>The exchange runs to its own deadline: it is not cancelled with the request, it has a deadline
  always, and that is the sooner of the caller's and the timeout.\<close>

theorem detachedDeadline_bounds:
  "ctx_Done (detachedDeadline ctx timeout now) =
     Some (case ctx_Deadline ctx of None \<Rightarrow> now + timeout | Some d \<Rightarrow> min d (now + timeout)) \<and>
   ctx_cancelled (detachedDeadline ctx timeout now) = None"
  by (simp add: detachedDeadline_def WithDeadline_def WithoutCancel_def Background_def ctx_Done_def Let_def
      split: option.split)

text \<open>The allowance for the attributes covers them: a session cookie that is written at all fits in
  what a browser stores, for a mount point of up to forty characters.\<close>

theorem setTokenCookie_fits:
  assumes "setTokenCookie a s io = (Inr (), io')" and "length (oa_basePath a) \<le> 40"
  shows "\<exists>k. io_cookies io' = io_cookies io @ [k] \<and> cookie_String_length k \<le> cookieSizeLimit"
proof -
  have "length (Handle s) + length (oa_cookieName a) + 120 \<le> 4096"
    using assms(1) by (simp add: setTokenCookie_def cookieAttributeBudget_def cookieSizeLimit_def split: if_splits)
  then have "cookie_String_length (token_cookie a s) \<le> cookieSizeLimit"
    using assms(2) by (simp add: cookie_String_length_def token_cookie_def cookieSizeLimit_def BasePath_Path_def)
  moreover have "io_cookies io' = io_cookies io @ [token_cookie a s]"
    using setTokenCookie_cases [OF assms(1)] by (simp add: writes_def)
  ultimately show ?thesis by blast
qed

lemma setTokenCookie_fits_witness:
  "\<exists>io' k. setTokenCookie (sample_auth (answering_store (Inr None) (Inr None)))
     \<lparr>Handle = ''h'', Subject = ''u'', st_Token = None, IDToken = [], IssuedAt = 0, ExpiresAt = 9, Stale = False\<rparr>
     (sample_io sample_world) = (Inr (), io') \<and> io_cookies io' = [k] \<and> cookie_String_length k \<le> cookieSizeLimit"
proof -
  let ?a = "sample_auth (answering_store (Inr None) (Inr None)) :: world OIDCAuth"
  let ?s = "\<lparr>Handle = ''h'', Subject = ''u'', st_Token = None, IDToken = [], IssuedAt = 0, ExpiresAt = 9, Stale = False\<rparr>"
  obtain io' where set: "setTokenCookie ?a ?s (sample_io sample_world) = (Inr (), io')"
    by (simp add: setTokenCookie_def cookieAttributeBudget_def cookieSizeLimit_def sample_auth_def)
  show ?thesis
    using set setTokenCookie_fits [OF set] by (simp add: sample_auth_def sample_io_def)
qed

text \<open>C26. A key rollover drains.  A session that came in under a retiring key and needs no refresh goes
  out under the handle the store re-sealed it to, in the one cookie the response carries, and a
  store that cannot re-seal costs nobody the session.\<close>

theorem stale_session_migrates:
  assumes "st_Token session = Some t" and "time_Sub (Expiry t) (clock (io_world io)) > tokenRefreshMargin"
    and "Stale session" and reseal: "ts_Reseal (auth_store a) ctx session (io_world io) = (out, w)"
    and fits: "\<And>s. out = Inr (Some s) \<Longrightarrow> length (Handle s) + length (oa_cookieName a) + cookieAttributeBudget \<le> cookieSizeLimit"
    and "out \<noteq> Inr None"
  shows "\<exists>io'. checkTokenExpiry a ctx session io = (Value (Inr (Some t)), io') \<and>
    io_cookies io' = io_cookies io @
      (case out of Inr (Some s) \<Rightarrow> if Handle s = Handle session then [] else [token_cookie a s] | _ \<Rightarrow> [])"
proof (cases out)
  case (Inl e)
  then show ?thesis
    using assms by (simp add: checkTokenExpiry_def migrateSessionCookie_def resealSession_def io_simps)
next
  case (Inr so)
  then obtain s where s: "so = Some s"
    using assms(6) by (cases so) simp_all
  then have "\<not> length (Handle s) + length (oa_cookieName a) + cookieAttributeBudget > cookieSizeLimit"
    using fits Inr by fastforce
  then show ?thesis
    using assms(1-4) Inr s
    by (simp add: checkTokenExpiry_def migrateSessionCookie_def resealSession_def setTokenCookie_def io_simps
        token_cookie_def)
qed

lemma stale_session_migrates_witness:
  "\<exists>io'. checkTokenExpiry (sample_auth (answering_store (Inr (Some (sample_session\<lparr>Handle := ''new''\<rparr>))) (Inr None)))
     Background (sample_session\<lparr>Stale := True, Handle := ''old'', st_Token := Some (sample_token\<lparr>Expiry := 20 * Second\<rparr>)\<rparr>)
     (sample_io sample_world) = (Value (Inr (Some (sample_token\<lparr>Expiry := 20 * Second\<rparr>))), io') \<and>
     map ck_Value (io_cookies io') = [''new'']"
  using stale_session_migrates [of "sample_session\<lparr>Stale := True, Handle := ''old'', st_Token := Some (sample_token\<lparr>Expiry := 20 * Second\<rparr>)\<rparr>"
      "sample_token\<lparr>Expiry := 20 * Second\<rparr>" "sample_io sample_world"
      "sample_auth (answering_store (Inr (Some (sample_session\<lparr>Handle := ''new''\<rparr>))) (Inr None))" Background
      "Inr (Some (sample_session\<lparr>Handle := ''new''\<rparr>))" sample_world]
  by (fastforce simp: sample_defs time_Sub_def tokenRefreshMargin_def cookieAttributeBudget_def cookieSizeLimit_def)

end
