(* ===== verification/Login.thy ===== *)
theory Login
  imports AuthSession
begin

text \<open>
  What holds of the login flow of \<open>application_auth.go\<close>: the challenge a login starts with, the
  page it returns to, what the callback checks before it creates a session and what it clears, and
  logout.
\<close>

section \<open>Lemmas\<close>

definition callback_cookie :: "'w OIDCAuth \<Rightarrow> string \<Rightarrow> string \<Rightarrow> Cookie" where
  "callback_cookie a name v =
     \<lparr>ck_Name = name, ck_Value = v, ck_Path = authPath a, ck_Expires = None, ck_MaxAge = 3600,
      ck_HttpOnly = True, ck_Secure = \<not> oa_insecure a, ck_SameSiteLax = True\<rparr>"

definition cleared_callback_cookie :: "'w OIDCAuth \<Rightarrow> time \<Rightarrow> string \<Rightarrow> Cookie" where
  "cleared_callback_cookie a now name =
     \<lparr>ck_Name = name, ck_Value = [], ck_Path = authPath a, ck_Expires = Some (now - 24 * Hour),
      ck_MaxAge = - 1, ck_HttpOnly = True, ck_Secure = \<not> oa_insecure a, ck_SameSiteLax = True\<rparr>"

definition cleared_callback_cookies :: "'w OIDCAuth \<Rightarrow> time \<Rightarrow> Cookie list" where
  "cleared_callback_cookies a now =
     map (cleared_callback_cookie a now) [''state'', ''nonce'', authRedirCookieName]"

lemma callback_cookie_simps [auth_simps]:
  "io_cookies (setCallbackCookie a name v io) = io_cookies io @ [callback_cookie a name v]"
  "io_world (setCallbackCookie a name v io) = io_world io"
  "io_status (setCallbackCookie a name v io) = io_status io"
  "io_location (setCallbackCookie a name v io) = io_location io"
  "io_cookies (clearCallbackCookie a name io) =
     io_cookies io @ [cleared_callback_cookie a (clock (io_world io)) name]"
  "io_world (clearCallbackCookie a name io) = io_world io"
  "io_status (clearCallbackCookie a name io) = io_status io"
  "io_location (clearCallbackCookie a name io) = io_location io"
  by (simp_all add: setCallbackCookie_def clearCallbackCookie_def callback_cookie_def
      cleared_callback_cookie_def io_simps)

lemma clearCallbackCookies_simps [auth_simps]:
  "io_cookies (clearCallbackCookies a io) =
     io_cookies io @ cleared_callback_cookies a (clock (io_world io))"
  "io_world (clearCallbackCookies a io) = io_world io"
  "io_status (clearCallbackCookies a io) = io_status io"
  "io_location (clearCallbackCookies a io) = io_location io"
  by (simp_all add: clearCallbackCookies_def cleared_callback_cookies_def auth_simps)

definition login_failed_url :: "'w OIDCAuth \<Rightarrow> string" where
  "login_failed_url a = BasePath_Path (oa_basePath a) ''/auth/login'' @ ''?'' @ loginFailedParam @ ''=1''"

lemma failLogin_cases:
  "failLogin a e io = (out, io') \<Longrightarrow> out = Value (Inl (Sentinel ErrSkipRender)) \<and>
     io_cookies io' = io_cookies io \<and> io_location io' = Some (login_failed_url a) \<and>
     io_status io' = (case io_status io of None \<Rightarrow> Some 302 | Some m \<Rightarrow> Some m) \<and> io_world io' = io_world io"
  by (auto simp: failLogin_def login_failed_url_def io_simps)

lemma readAuthRedirCookie_io [auth_simps]:
  "readAuthRedirCookie a r io = (target, ok, io') \<Longrightarrow>
     io_cookies io' = io_cookies io \<and> io_world io' = io_world io \<and> io_status io' = io_status io \<and>
     io_location io' = io_location io"
  by (auto simp: readAuthRedirCookie_def io_simps split: sum.splits prod.splits)

text \<open>From the creation of the session on: the session cookie and the landing page, or a failed
  attempt and no cookie.\<close>

lemma finishLogin_cases:
  assumes "finishLogin a ctx target idToken raw tok io = (Value res, io')" and "io_status io = None"
  shows "res = Inl (Sentinel ErrSkipRender) \<and> io_status io' = Some 302 \<and>
    (io_cookies io' = io_cookies io \<and> io_location io' = Some (login_failed_url a) \<or>
     (\<exists>session w. ts_Create (auth_store a) ctx
          \<lparr>ns_Subject = it_Subject idToken, ns_Token = Some (assumeTokenExpiry (clock (io_world io)) tok),
           ns_IDToken = raw\<rparr> (io_world io) = (Inr (Some session), w) \<and>
        io_cookies io' = io_cookies io @ [token_cookie a session] \<and> io_world io' = w \<and>
        io_location io' = Some (resolveRedirect (oa_basePath a) target)))"
proof -
  obtain cr w where cr: "ts_Create (auth_store a) ctx
      \<lparr>ns_Subject = it_Subject idToken, ns_Token = Some (assumeTokenExpiry (clock (io_world io)) tok),
       ns_IDToken = raw\<rparr> (io_world io) = (cr, w)"
    by fastforce
  show ?thesis
  proof (cases "\<exists>session. cr = Inr (Some session)")
    case False
    then obtain e where "cr = Inl e"
      using assms(1) cr by (cases cr) (auto simp: finishLogin_def split: option.splits)
    then show ?thesis
      using assms cr by (auto simp: finishLogin_def dest!: failLogin_cases)
  next
    case True
    then obtain session where s: "cr = Inr (Some session)"
      by blast
    obtain y io1 where y: "setTokenCookie a session (io\<lparr>io_world := w\<rparr>) = (y, io1)"
      by fastforce
    show ?thesis
    proof (cases y)
      case (Inl e)
      then show ?thesis
        using assms cr s y setTokenCookie_cases [OF y]
        by (auto simp: finishLogin_def writes_def dest!: failLogin_cases)
    next
      case (Inr u)
      then show ?thesis
        using assms cr s y setTokenCookie_cases [OF y]
        by (auto simp: finishLogin_def writes_def io_simps)
    qed
  qed
qed

text \<open>What has been checked of a login before its session is created: the state that came back is the
  one of the cookie, the code was exchanged for an ID token that verifies, its nonce is the one of
  the cookie, and the application's own callback accepted it.\<close>

definition callback_verified ::
  "'w OIDCAuth \<Rightarrow> Context \<Rightarrow> Request \<Rightarrow> 'w \<Rightarrow> IDToken \<Rightarrow> string \<Rightarrow> Token \<Rightarrow> 'w \<Rightarrow> bool" where
  "callback_verified a ctx r w idToken raw tok w' \<longleftrightarrow>
     r_Cookie r ''state'' = Inr (Values_Get (r_Query r) ''state'') \<and>
     r_Cookie r ''nonce'' = Inr (it_Nonce idToken) \<and>
     (\<exists>w1 w2. op_Exchange (oa_provider a) ctx (Values_Get (r_Query r) ''code'') w = (Inr (tok, Some raw), w1) \<and>
        op_VerifyID (oa_provider a) raw w1 = (Inr idToken, w2) \<and>
        onLogin_result a idToken w2 = (Inr (), w'))"

lemma authCallback_attempt:
  assumes run: "authCallback a ctx r io = (Value res, io')" and fresh: "io_status io = None"
    and asked: "Values_Get (r_Query r) ''error'' = []"
    and state: "r_Cookie r ''state'' = Inr state" and nonce: "r_Cookie r ''nonce'' = Inr nonce"
  shows "\<exists>cs. io_cookies io' = io_cookies io @ cleared_callback_cookies a (clock (io_world io)) @ cs \<and>
    res = Inl (Sentinel ErrSkipRender) \<and> io_status io' = Some 302 \<and>
    (cs = [] \<and> io_location io' = Some (login_failed_url a) \<or>
     (\<exists>idt raw tok w session w'. callback_verified a ctx r (io_world io) idt raw tok w \<and>
        ts_Create (auth_store a) ctx
          \<lparr>ns_Subject = it_Subject idt, ns_Token = Some (assumeTokenExpiry (clock w) tok), ns_IDToken = raw\<rparr> w =
          (Inr (Some session), w') \<and>
        cs = [token_cookie a session] \<and> io_world io' = w' \<and>
        io_location io' = Some (resolveRedirect (oa_basePath a) (fst (readAuthRedirCookie a r io)))))"
proof -
  obtain target ok io1 where rd: "readAuthRedirCookie a r io = (target, ok, io1)"
    by (metis prod_cases3)
  define io2 where "io2 = clearCallbackCookies a io1"
  have io2: "io_cookies io2 = io_cookies io @ cleared_callback_cookies a (clock (io_world io))"
    "io_world io2 = io_world io" "io_status io2 = None"
    using readAuthRedirCookie_io [OF rd] fresh by (simp_all add: io2_def auth_simps)
  have fail: "\<exists>cs. io_cookies io' = io_cookies io @ cleared_callback_cookies a (clock (io_world io)) @ cs \<and>
      res = Inl (Sentinel ErrSkipRender) \<and> io_status io' = Some 302 \<and>
      cs = [] \<and> io_location io' = Some (login_failed_url a)"
    if "failLogin a e (io2\<lparr>io_world := w\<rparr>) = (Value res, io')" for e w
    using failLogin_cases [OF that] io2 by simp
  let ?q = "Values_Get (r_Query r)" let ?p = "oa_provider a"
  show ?thesis
  proof (cases "?q ''state'' = state")
    case False
    then have "failLogin a (New ''state did not match'') (io2\<lparr>io_world := io_world io2\<rparr>) = (Value res, io')"
      using run asked state nonce rd by (simp add: authCallback_def Let_def io2_def)
    from fail [OF this] show ?thesis by blast
  next
    case st: True
    obtain ex w1 where ex: "op_Exchange ?p ctx (?q ''code'') (io_world io) = (ex, w1)"
      by fastforce
    show ?thesis
    proof (cases "\<exists>tok raw. ex = Inr (tok, Some raw)")
      case False
      have "\<exists>e. failLogin a e (io2\<lparr>io_world := w1\<rparr>) = (Value res, io')"
      proof (cases ex)
        case (Inl e)
        then show ?thesis
          using run asked state nonce rd st ex io2(2) by (auto simp: authCallback_def Let_def io2_def)
      next
        case (Inr p)
        then obtain tok where "p = (tok, None)"
          using False by (cases p) (auto simp: not_Some_eq)
        then show ?thesis
          using run asked state nonce rd st ex io2(2) Inr by (auto simp: authCallback_def Let_def io2_def)
      qed
      then obtain e where "failLogin a e (io2\<lparr>io_world := w1\<rparr>) = (Value res, io')"
        by blast
      from fail [OF this] show ?thesis by blast
    next
      case True
      then obtain tok raw where tok: "ex = Inr (tok, Some raw)"
        by blast
      obtain v w2 where v: "op_VerifyID ?p raw w1 = (v, w2)"
        by fastforce
      show ?thesis
      proof (cases v)
        case (Inl e)
        then have "failLogin a (Errorf ''verify the ID token'' [e]) (io2\<lparr>io_world := w2\<rparr>) = (Value res, io')"
          using run asked state nonce rd st ex io2(2) tok v by (simp add: authCallback_def Let_def io2_def)
        from fail [OF this] show ?thesis by blast
      next
        case idt: (Inr idt)
        show ?thesis
        proof (cases "it_Nonce idt = nonce")
          case False
          then have "failLogin a (New ''nonce did not match'') (io2\<lparr>io_world := w2\<rparr>) = (Value res, io')"
            using run asked state nonce rd st ex io2(2) tok v idt by (simp add: authCallback_def Let_def io2_def)
          from fail [OF this] show ?thesis by blast
        next
          case nc: True
          obtain on w3 where onl: "onLogin_result a idt w2 = (on, w3)"
            by fastforce
          show ?thesis
          proof (cases on)
            case (Inl e)
            then have "failLogin a (Errorf ''the login callback refused the login'' [e]) (io2\<lparr>io_world := w3\<rparr>) =
                (Value res, io')"
              using run asked state nonce rd st ex io2(2) tok v idt nc onl
              by (simp add: authCallback_def Let_def io2_def)
            from fail [OF this] show ?thesis by blast
          next
            case (Inr u)
            then have fin: "finishLogin a ctx target idt raw tok (io2\<lparr>io_world := w3\<rparr>) = (Value res, io')"
              using run asked state nonce rd st ex io2(2) tok v idt nc onl
              by (simp add: authCallback_def Let_def io2_def)
            have "callback_verified a ctx r (io_world io) idt raw tok w3"
              using state nonce st ex tok v idt nc onl Inr by (auto simp: callback_verified_def)
            then show ?thesis
              using finishLogin_cases [OF fin] io2 rd by fastforce
          qed
        qed
      qed
    qed
  qed
qed

lemma randString_Inr:
  "randString n w = (Inr x, w') \<longleftrightarrow> n \<le> length (rng w) \<and>
     x = base64_EncodeToString RawURLEncoding (take n (rng w)) \<and> w' = w\<lparr>rng := drop n (rng w)\<rparr>"
  by (auto simp: randString_def rand_Read_def)

text \<open>The start of a login, where the random source has bytes enough.\<close>

definition challenge_state :: "'a world_scheme \<Rightarrow> string" where
  "challenge_state w = base64_EncodeToString RawURLEncoding (take 16 (rng w))"

definition challenge_nonce :: "'a world_scheme \<Rightarrow> string" where
  "challenge_nonce w = base64_EncodeToString RawURLEncoding (take 16 (drop 16 (rng w)))"

definition challenged :: "'a world_scheme OIDCAuth \<Rightarrow> 'a world_scheme io \<Rightarrow> 'a world_scheme io" where
  "challenged a io =
     setCallbackCookie a ''nonce'' (challenge_nonce (io_world io))
       (setCallbackCookie a ''state'' (challenge_state (io_world io))
         (io\<lparr>io_world := (io_world io)\<lparr>rng := drop 32 (rng (io_world io))\<rparr>\<rparr>))"

lemma challenged_simps [auth_simps]:
  "io_cookies (challenged a io) = io_cookies io @
     [callback_cookie a ''state'' (challenge_state (io_world io)),
      callback_cookie a ''nonce'' (challenge_nonce (io_world io))]"
  "io_world (challenged a io) = (io_world io)\<lparr>rng := drop 32 (rng (io_world io))\<rparr>"
  "io_status (challenged a io) = io_status io" "io_location (challenged a io) = io_location io"
  by (simp_all add: challenged_def auth_simps)

lemma authRedirect_started:
  assumes "32 \<le> length (rng (io_world io))"
  shows "authRedirect a r io =
    (case (if Values_Get (r_Query r) ''redirect'' = []
           then (Inr (), clearCallbackCookie a authRedirCookieName (challenged a io))
           else setAuthRedirCookie a (Values_Get (r_Query r) ''redirect'') (challenged a io)) of
       (Inl e, io2) \<Rightarrow> (Value (Inl (Errorf ''set auth redirect cookie'' [e])), io2)
     | (Inr _, io2) \<Rightarrow> (Value (Inl (Sentinel ErrSkipRender)), http_Redirect
         (op_AuthCodeURL (oa_provider a) (challenge_state (io_world io)) (challenge_nonce (io_world io))) 302 io2))"
proof -
  let ?w = "io_world io"
  have "randString 16 ?w = (Inr (challenge_state ?w), ?w\<lparr>rng := drop 16 (rng ?w)\<rparr>)"
    "randString 16 (?w\<lparr>rng := drop 16 (rng ?w)\<rparr>) = (Inr (challenge_nonce ?w), ?w\<lparr>rng := drop 32 (rng ?w)\<rparr>)"
    using assms by (simp_all add: randString_Inr challenge_state_def challenge_nonce_def)
  then show ?thesis
    by (simp add: authRedirect_def Let_def challenged_def)
qed

lemma authRedirect_rng:
  "authRedirect a r io = (Value (Inl (Sentinel ErrSkipRender)), io') \<Longrightarrow> 32 \<le> length (rng (io_world io))"
  by (auto simp: authRedirect_def randString_def rand_Read_def Let_def split: if_splits)

text \<open>A target that seals, seals into a value every later reader opens.\<close>

lemma setAuthRedirCookie_Inr:
  assumes kr: "keyring_inv (oa_keyring a)" and set: "setAuthRedirCookie a target io = (Inr u, io')"
  shows "\<exists>v. io_cookies io' = io_cookies io @ [callback_cookie a authRedirCookieName v] \<and>
    (\<forall>r'' io''. r_Cookie r'' authRedirCookieName = Inr v \<longrightarrow> clock (io_world io) \<le> clock (io_world io'') \<longrightarrow>
       readAuthRedirCookie a r'' io'' = (target, True, io''))"
proof -
  obtain v w where seal: "seal_payload (Some (oa_keyring a)) (oa_redirDomain a) (bytes_of_string target) (io_world io) = (Inr v, w)"
    and ck: "io_cookies io' = io_cookies io @ [callback_cookie a authRedirCookieName v]"
    using set by (auto simp: setAuthRedirCookie_def auth_simps split: prod.splits sum.splits)
  have "open_payload (Some (oa_keyring a)) now (oa_redirDomain a) v =
      Inr (bytes_of_string target, sealingKey (Some (oa_keyring a)) now = sealingKey (Some (oa_keyring a)) (clock (io_world io)))"
    if "clock (io_world io) \<le> now" for now
    unfolding open_payload_def
    by (rule open_sealKind_fact [OF kr _ seal [unfolded seal_payload_def]])
       (use that in \<open>simp_all add: session_kinds\<close>)
  then show ?thesis
    using ck by (intro exI [of _ v]) (simp add: readAuthRedirCookie_def)
qed

section \<open>Properties\<close>

text \<open>C20. Login brings the visitor back to the page it interrupted.  The login URL carries the page's URL
  in a query that parses back to it; the login that is started with that query puts it into a
  sealed cookie; and the callback that carries the cookie, at any later time, reads the very same
  URL from it, whatever characters it has.\<close>

theorem login_returns_to_page:
  assumes kr: "keyring_inv (oa_keyring a)"
    and page: "loginURL a r = BasePath_Path (oa_basePath a) ''/auth/login'' @ ''?'' @ query" "r_URL r \<noteq> []"
    and login: "r_Query r' = fst (ParseQuery query)"
    and started: "authRedirect a r' io = (Value (Inl (Sentinel ErrSkipRender)), io')"
  shows "\<exists>v. callback_cookie a authRedirCookieName v \<in> set (io_cookies io') \<and>
    (\<forall>r'' io''. r_Cookie r'' authRedirCookieName = Inr v \<longrightarrow> clock (io_world io) \<le> clock (io_world io'') \<longrightarrow>
       readAuthRedirCookie a r'' io'' = (r_URL r, True, io''))"
proof -
  have q: "query = Encode1 ''redirect'' (r_URL r)"
    using page(1) by (simp add: loginURL_def)
  have target: "Values_Get (r_Query r') ''redirect'' = r_URL r"
    by (simp add: login q ParseQuery_Encode1 Values_Get_def)
  have "\<exists>u io2. setAuthRedirCookie a (r_URL r) (challenged a io) = (Inr u, io2) \<and> io_cookies io' = io_cookies io2"
    using started [unfolded authRedirect_started [OF authRedirect_rng [OF started]] target] page(2)
    by (cases "setAuthRedirCookie a (r_URL r) (challenged a io)") (auto simp: io_simps split: sum.splits)
  then obtain u io2 where set: "setAuthRedirCookie a (r_URL r) (challenged a io) = (Inr u, io2)"
    and ck: "io_cookies io' = io_cookies io2"
    by blast
  show ?thesis
    using setAuthRedirCookie_Inr [OF kr set] ck by (auto simp: auth_simps)
qed

lemma login_returns_to_page_witness:
  "\<exists>io' v. authRedirect (sample_auth (answering_store (Inr None) (Inr None)))
      (sample_visit\<lparr>r_Query := [(''redirect'', r_URL sample_visit)]\<rparr>) (sample_io sample_world) =
        (Value (Inl (Sentinel ErrSkipRender) :: unit Page option result), io') \<and>
     callback_cookie (sample_auth (answering_store (Inr None) (Inr None)) :: world OIDCAuth) authRedirCookieName v \<in> set (io_cookies io') \<and>
     readAuthRedirCookie (sample_auth (answering_store (Inr None) (Inr None)))
       (sample_visit\<lparr>r_Cookies := [(authRedirCookieName, v)]\<rparr>) (sample_io sample_world) =
       (''/page?x=1&y=2'', True, sample_io sample_world)"
proof -
  let ?a = "sample_auth (answering_store (Inr None) (Inr None)) :: world OIDCAuth"
  let ?r = "sample_visit\<lparr>r_Query := [(''redirect'', r_URL sample_visit)]\<rparr>"
  have rng: "32 \<le> length (rng (io_world (sample_io sample_world)))"
    by (simp add: sample_io_def sample_world_def)
  obtain io' where started: "authRedirect ?a ?r (sample_io sample_world) =
      (Value (Inl (Sentinel ErrSkipRender) :: unit Page option result), io')"
  proof -
    have "clock (io_world (challenged ?a (sample_io sample_world))) = 150"
      "12 \<le> length (rng (io_world (challenged ?a (sample_io sample_world))))"
      by (simp_all add: auth_simps sample_io_def sample_world_def)
    then obtain u io4 where "setAuthRedirCookie ?a ''/page?x=1&y=2'' (challenged ?a (sample_io sample_world)) = (Inr u, io4)"
      by (cases "seal_payload (Some sample_keyring) ''redirect:token'' (bytes_of_string ''/page?x=1&y=2'')
            (io_world (challenged ?a (sample_io sample_world)))"; cases "fst (seal_payload (Some sample_keyring) ''redirect:token''
            (bytes_of_string ''/page?x=1&y=2'') (io_world (challenged ?a (sample_io sample_world))))")
         (auto simp: setAuthRedirCookie_def sample_auth_def seal_payload_def sealKind_def sealKindRaw_def rand_Read_def
            cookieNonceLength_def sealingKey_sample Let_def)
    then have "authRedirect ?a ?r (sample_io sample_world) = (Value (Inl (Sentinel ErrSkipRender)), http_Redirect
        (op_AuthCodeURL (oa_provider ?a) (challenge_state sample_world) (challenge_nonce sample_world)) 302 io4)"
      unfolding authRedirect_started [OF rng] by (simp add: sample_visit_def Values_Get_def sample_io_def)
    then show ?thesis by (rule that)
  qed
  have kr: "keyring_inv (oa_keyring ?a)"
    by (simp add: sample_auth_def keyring_inv_sample)
  have "loginURL ?a sample_visit = BasePath_Path (oa_basePath ?a) ''/auth/login'' @ ''?'' @ Encode1 ''redirect'' (r_URL sample_visit)"
    by (simp add: loginURL_def)
  from login_returns_to_page [OF kr this _ _ started]
  obtain v where v: "callback_cookie ?a authRedirCookieName v \<in> set (io_cookies io')"
    and reads: "\<forall>r'' io''. r_Cookie r'' authRedirCookieName = Inr v \<longrightarrow>
      clock (io_world (sample_io sample_world)) \<le> clock (io_world io'') \<longrightarrow>
       readAuthRedirCookie ?a r'' io'' = (r_URL sample_visit, True, io'')"
    by (auto simp: ParseQuery_Encode1 sample_visit_def)
  have "readAuthRedirCookie ?a (sample_visit\<lparr>r_Cookies := [(authRedirCookieName, v)]\<rparr>) (sample_io sample_world) =
      (r_URL sample_visit, True, sample_io sample_world)"
    by (rule reads [rule_format]) (simp_all add: r_Cookie_def)
  then show ?thesis
    using started v by (auto simp: sample_visit_def)
qed


definition sample_callback :: Request where
  "sample_callback = \<lparr>r_Method = ''GET'', r_Host = ''app.example'', r_URL = ''/auth/callback'',
     r_Path = ''/auth/callback'', r_Query = [(''state'', ''s''), (''code'', ''c'')], r_Header = [],
     r_Cookies = [(''state'', ''s''), (''nonce'', ''n'')]\<rparr>"


text \<open>A callback nobody asked for does nothing: where the state is not the one of this browser's
  cookie, or there is no cookie, the code is not exchanged, nothing happens to the environment, and
  no cookie is set but to clear it.\<close>

theorem authCallback_unsolicited:
  assumes "r_Cookie r ''state'' \<noteq> Inr (Values_Get (r_Query r) ''state'')"
  shows "io_world (snd (authCallback a ctx r io)) = io_world io \<and>
    (\<exists>cs. io_cookies (snd (authCallback a ctx r io)) = io_cookies io @ cs \<and> (\<forall>k \<in> set cs. ck_MaxAge k < 0))"
proof -
  obtain target ok io1 where rd: "readAuthRedirCookie a r io = (target, ok, io1)"
    by (metis prod_cases3)
  show ?thesis
    using assms readAuthRedirCookie_io [OF rd]
    by (auto simp: authCallback_def rd Let_def failLogin_def io_simps auth_simps cleared_callback_cookies_def
        cleared_callback_cookie_def split: sum.split)
qed

lemma authCallback_unsolicited_witness:
  "io_world (snd (authCallback (sample_auth (answering_store (Inr None) (Inr None))) Background
     (sample_callback\<lparr>r_Cookies := [(''state'', ''other'')]\<rparr>) (sample_io sample_world)
       :: unit Page option result outcome \<times> world io)) = sample_world"
proof -
  let ?r = "sample_callback\<lparr>r_Cookies := [(''state'', ''other'')]\<rparr>"
  have "r_Cookie ?r ''state'' \<noteq> Inr (Values_Get (r_Query ?r) ''state'')"
    by (simp add: sample_callback_def r_Cookie_def Values_Get_def)
  moreover have "io_world (sample_io sample_world) = sample_world"
    by (simp add: sample_io_def)
  ultimately show ?thesis
    using authCallback_unsolicited [THEN conjunct1] by metis
qed

text \<open>C36. Each login has its own challenge: the state and the nonce are sixteen bytes of the random
  source each, which no later login is given again, and the browser keeps in its cookies what the
  provider is asked to send back; a login without a target of its own drops the one of an earlier
  attempt.\<close>

theorem authRedirect_challenge:
  assumes started: "authRedirect a r io = (Value (Inl (Sentinel ErrSkipRender)), io')"
    and fresh: "io_status io = None"
  shows "\<exists>cs n. io_status io' = Some 302 \<and>
    io_location io' = Some (op_AuthCodeURL (oa_provider a)
      (challenge_state (io_world io)) (challenge_nonce (io_world io))) \<and>
    io_cookies io' = io_cookies io @ [callback_cookie a ''state'' (challenge_state (io_world io)),
      callback_cookie a ''nonce'' (challenge_nonce (io_world io))] @ cs \<and>
    32 \<le> n \<and> n \<le> length (rng (io_world io)) \<and> rng (io_world io') = drop n (rng (io_world io)) \<and>
    length cs = 1 \<and> (\<forall>k \<in> set cs. ck_Name k = authRedirCookieName) \<and>
    (Values_Get (r_Query r) ''redirect'' = [] \<longleftrightarrow> (\<forall>k \<in> set cs. ck_MaxAge k < 0))"
proof -
  note rng = authRedirect_rng [OF started]
  note run = started [unfolded authRedirect_started [OF rng]]
  show ?thesis
  proof (cases "Values_Get (r_Query r) ''redirect'' = []")
    case True
    then show ?thesis
      using run fresh rng
      by (intro exI [of _ "[cleared_callback_cookie a (clock (io_world io)) authRedirCookieName]"] exI [of _ 32])
         (auto simp: io_simps auth_simps cleared_callback_cookie_def)
  next
    case False
    let ?t = "bytes_of_string (Values_Get (r_Query r) ''redirect'')"
    let ?k = "Some (oa_keyring a)"
    obtain v w where seal: "seal_payload ?k (oa_redirDomain a) ?t (io_world (challenged a io)) = (Inr v, w)"
      and io': "io' = http_Redirect (op_AuthCodeURL (oa_provider a) (challenge_state (io_world io))
         (challenge_nonce (io_world io))) 302 (setCallbackCookie a authRedirCookieName v ((challenged a io)\<lparr>io_world := w\<rparr>))"
      using run False by (auto simp: setAuthRedirCookie_def split: prod.splits sum.splits)
    have "12 \<le> length (drop 32 (rng (io_world io))) \<and> rng w = drop 44 (rng (io_world io))"
      using seal by (auto simp: seal_payload_def sealKind_Inr auth_simps)
    then show ?thesis
      using io' fresh False
      by (intro exI [of _ "[callback_cookie a authRedirCookieName v]"] exI [of _ 44])
         (auto simp: io_simps auth_simps callback_cookie_def)
  qed
qed

lemma authRedirect_challenge_witness:
  "\<exists>io'. authRedirect (sample_auth (answering_store (Inr None) (Inr None))) sample_callback (sample_io sample_world) =
     (Value (Inl (Sentinel ErrSkipRender) :: unit Page option result), io') \<and> io_status io' = Some 302 \<and>
     length (io_cookies io') = 3"
proof -
  let ?a = "sample_auth (answering_store (Inr None) (Inr None)) :: world OIDCAuth"
  have rng: "32 \<le> length (rng (io_world (sample_io sample_world)))"
    by (simp add: sample_io_def sample_world_def)
  obtain io' where run: "authRedirect ?a sample_callback (sample_io sample_world) =
     (Value (Inl (Sentinel ErrSkipRender) :: unit Page option result), io')"
    unfolding authRedirect_started [OF rng] by (simp add: sample_callback_def Values_Get_def)
  have f: "io_status (sample_io sample_world) = None" "io_cookies (sample_io sample_world) = []"
    by (simp_all add: sample_io_def)
  show ?thesis
    using authRedirect_challenge [OF run f(1)] run f(2) by auto
qed

text \<open>Logging out ends in one place whatever the store answers: the session cookie is cleared, the
  visitor lands on the application root, and the store has been asked to forget exactly the session
  of the request's cookie.\<close>

theorem authLogout_ends:
  assumes "io_status io = None"
  shows "\<exists>io' now. authLogout a ctx r io = (Value (Inl (Sentinel ErrSkipRender)), io') \<and>
    io_status io' = Some 302 \<and> io_location io' = Some (BasePath_Path (oa_basePath a) ''/'') \<and>
    io_cookies io' = io_cookies io @ [cleared_cookie a now] \<and>
    io_world io' = (case r_Cookie r (oa_cookieName a) of
      Inl e \<Rightarrow> io_world io | Inr v \<Rightarrow> snd (ts_Delete (auth_store a) ctx v (io_world io)))"
  using assms
  by (auto simp: authLogout_def deleteSession_def io_simps auth_simps split: sum.split prod.split)

lemma authLogout_ends_witness:
  "\<exists>io' now. authLogout (sample_auth (answering_store (Inr None) (Inr None))) Background sample_visit (sample_io sample_world) =
      (Value (Inl (Sentinel ErrSkipRender) :: unit Page option result), io') \<and> io_location io' = Some ''/admin/'' \<and>
    io_cookies io' = [cleared_cookie (sample_auth (answering_store (Inr None) (Inr None)) :: world OIDCAuth) now]"
  using authLogout_ends [of "sample_io sample_world" "sample_auth (answering_store (Inr None) (Inr None))" Background sample_visit]
  by (auto simp: sample_io_def sample_auth_def BasePath_Path_def)

end
