(* ===== verification/Sessions.thy ===== *)
theory Sessions
  imports Login PgRefresh
begin

text \<open>
  The OIDC component on the stores of the repository.  A locale states what the component's
  handlers take for granted of the store they are given: that an operation which reports no error
  reports a session, and that a re-seal leaves the tokens alone.  Under it no handler panics.  Both
  stores are interpretations of it, and the properties are what follows for an application
  without a store and for one whose sessions are in Postgres.
\<close>

section \<open>What the handlers rely on\<close>

locale sound_store =
  fixes store :: "'a world_scheme TokenStore"
  assumes Create_session: "fst (ts_Create store ctx ns w) \<noteq> Inr None"
    and Get_session: "fst (ts_Get store ctx h w) \<noteq> Inr None"
    and Reseal_session: "\<lbrakk>ts_Reseal store ctx s w = (Inr r, w'); st_Token s = Some t\<rbrakk> \<Longrightarrow>
      \<exists>s'. r = Some s' \<and> st_Token s' = Some t"
begin

lemma readTokenCookie_returns:
  assumes "auth_store a = store"
  obtains e io' where "readTokenCookie a ctx r io = (Value (Inl e), io')"
  | s t io' where "readTokenCookie a ctx r io = (Value (Inr s), io')" and "st_Token s = Some t"
proof (cases "r_Cookie r (oa_cookieName a)")
  case (Inl e)
  then show ?thesis using that(1) by (simp add: readTokenCookie_def)
next
  case (Inr v)
  obtain out w where get: "ts_Get store ctx v (io_world io) = (out, w)"
    by fastforce
  then have nil: "out \<noteq> Inr None"
    using Get_session by (metis fst_conv)
  have "\<exists>x io'. readTokenCookie a ctx r io = (Value x, io')"
    using nil Inr assms get
    by (cases out) (auto simp: readTokenCookie_def split: option.split prod.split)
  then obtain x io' where x: "readTokenCookie a ctx r io = (Value x, io')"
    by blast
  show ?thesis
    using readTokenCookie_cases [OF x] x that by blast
qed

lemma resealSession_returns:
  assumes "auth_store a = store" and "st_Token s = Some t"
  obtains s' io' where "resealSession a ctx s io = (Some s', io')" and "st_Token s' = Some t"
proof (cases "ts_Reseal store ctx s (io_world io)")
  case (Pair out w)
  show ?thesis
  proof (cases out)
    case (Inl e)
    then show ?thesis using that assms Pair by (simp add: resealSession_def)
  next
    case (Inr r)
    then show ?thesis
      using that assms Pair Reseal_session [OF Pair [unfolded Inr] assms(2)] by (auto simp: resealSession_def)
  qed
qed

lemma migrateSessionCookie_returns:
  assumes "auth_store a = store" and "st_Token s = Some t"
  shows "\<exists>io'. migrateSessionCookie a ctx s io = (Value (), io')"
proof -
  obtain s' io1 where s': "resealSession a ctx s io = (Some s', io1)"
    by (rule resealSession_returns [OF assms])
  obtain y io2 where "setTokenCookie a s' io1 = (y, io2)"
    by fastforce
  then show ?thesis
    using s' by (cases y) (simp_all add: migrateSessionCookie_def)
qed

lemma checkTokenExpiry_returns:
  assumes store: "auth_store a = store" and tok: "st_Token s = Some t"
  obtains e io' where "checkTokenExpiry a ctx s io = (Value (Inl e), io')"
  | t' io' where "checkTokenExpiry a ctx s io = (Value (Inr (Some t')), io')"
proof (cases "time_Sub (Expiry t) (clock (io_world io)) > tokenRefreshMargin")
  case True
  then show ?thesis
    using that migrateSessionCookie_returns [OF assms, of ctx io] tok
    by (cases "Stale s") (auto simp: checkTokenExpiry_def)
next
  case False
  obtain ref w where ref: "ts_Refresh store ctx s (exchangeToken a) (io_world io) = (ref, w)"
    by fastforce
  show ?thesis
  proof (cases "\<exists>s1 t1. ref = Inr (Some s1) \<and> st_Token s1 = Some t1")
    case no: False
    have "\<exists>e io'. checkTokenExpiry a ctx s io = (Value (Inl e), io')"
    proof (cases ref)
      case (Inl e)
      then show ?thesis using False ref store tok by (simp add: checkTokenExpiry_def)
    next
      case (Inr so)
      then show ?thesis
        using False ref store tok no by (cases so) (auto simp: checkTokenExpiry_def Let_def not_Some_eq)
    qed
    then show ?thesis using that(1) by blast
  next
    case True
    then obtain s1 t1 where s1: "ref = Inr (Some s1)" "st_Token s1 = Some t1"
      by blast
    let ?io1 = "io\<lparr>io_world := w\<rparr>"
    obtain s2 io2 where s2: "(if Stale s then resealSession a ctx s1 ?io1 else (Some s1, ?io1)) = (Some s2, io2)"
      "st_Token s2 = Some t1"
    proof (cases "Stale s")
      case True
      show ?thesis
        by (rule resealSession_returns [OF store s1(2), of ctx ?io1]) (use that True in simp)
    qed (use that s1 in simp)
    obtain y io3 where "setTokenCookie a s2 io2 = (y, io3)"
      by fastforce
    then show ?thesis
      using that False ref store tok s1 s2
      by (cases y; cases "Handle s2 = Handle s") (simp_all add: checkTokenExpiry_def Let_def)
  qed
qed

lemma resolved_returns:
  assumes "auth_store a = store"
  obtains e reading io' where "resolved a ctx r io = (Value (Inl e), reading, io')"
  | t io' where "resolved a ctx r io = (Value (Inr (Some t)), True, io')"
proof (cases rule: readTokenCookie_returns [OF assms, of ctx r io])
  case (1 e io')
  then show ?thesis by (intro that(1) [of e False io']) (simp add: resolved_def)
next
  case (2 s t io1)
  show ?thesis
    by (cases rule: checkTokenExpiry_returns [OF assms 2(2), of ctx io1])
       (use 2 that in \<open>simp_all add: resolved_def\<close>)
qed

lemma guards_return:
  assumes "auth_store a = store"
  shows "fst (RequireAuth a ctx c r io) \<noteq> Panic" and "fst (OptionalAuth a ctx c r io) \<noteq> Panic"
    and "fst (Keepalive a ctx r io) \<noteq> Panic"
  by (cases rule: resolved_returns [OF assms, of ctx r io];
      simp add: RequireAuth_resolved OptionalAuth_resolved Keepalive_resolved split: sum.split prod.split)+

lemma finishLogin_returns:
  assumes "auth_store a = store"
  shows "fst (finishLogin a ctx target idt raw tok io) \<noteq> Panic"
  using assms Create_session [of ctx "\<lparr>ns_Subject = it_Subject idt,
      ns_Token = Some (assumeTokenExpiry (clock (io_world io)) tok), ns_IDToken = raw\<rparr>" "io_world io"]
  by (auto simp: finishLogin_def failLogin_def split: prod.splits sum.splits option.splits)

lemma authCallback_returns:
  assumes "auth_store a = store"
  shows "fst (authCallback a ctx r io) \<noteq> Panic"
  by (auto simp: authCallback_def Let_def failLogin_def finishLogin_returns [OF assms]
      split: prod.split sum.split option.split)

end

section \<open>Lemmas\<close>

text \<open>A required session where the store fails the request: back to the login page with the cookie
  cleared if the session is gone, an error and an untouched cookie if the store could not say.\<close>

lemma RequireAuth_failure:
  assumes "store_failure a ctx r (io_world io) = Some e"
  shows "\<exists>io'. if sessionGone e
    then RequireAuth a ctx c r io = (Value (c, Some (Sentinel ErrSkipRender)), io') \<and>
      (\<exists>now. io_cookies io' = io_cookies io @ [cleared_cookie a now]) \<and> io_location io' = Some (loginURL a r)
    else \<exists>err. RequireAuth a ctx c r io = (Value (c, Some err), io') \<and> http_code err = 503 \<and>
      io_cookies io' = io_cookies io \<and> io_location io' = io_location io"
proof -
  obtain e' reading io' where "resolved a ctx r io = (Value (Inl e'), reading, io')"
    and "sessionGone e' = sessionGone e"
    and "writes io (if sessionGone e \<and> \<not> reading then [cleared_cookie a (clock (io_world io'))] else []) io'"
    using resolved_store_failure [OF assms] by blast
  then show ?thesis
    by (cases reading) (auto simp: RequireAuth_resolved writes_def auth_simps io_simps)
qed

lemma store_failure_Get:
  "r_Cookie r (oa_cookieName a) = Inr v \<Longrightarrow> ts_Get (auth_store a) ctx v w = (Inl e, w') \<Longrightarrow>
     store_failure a ctx r w = Some e"
  by (simp add: store_failure_def)

section \<open>The stores of the repository\<close>

lemma cookie_token_store_simps:
  "ts_Create (cookie_token_store Do j s) ctx ns w = cookie_Create j s ns w"
  "ts_Get (cookie_token_store Do j s) ctx h w = cookie_Get j s h w"
  "ts_Reseal (cookie_token_store Do j s) ctx t w = cookie_Reseal j s (Some t) w"
  "ts_Refresh (cookie_token_store Do j s) = cookie_Refresh Do j s"
  by (simp_all add: cookie_token_store_def)

lemma pg_token_store_simps:
  "ts_Create (pg_token_store fuel s) = pg_Create s" "ts_Get (pg_token_store fuel s) = pg_Get s"
  "ts_Delete (pg_token_store fuel s) = pg_Delete s"
  "ts_Reseal (pg_token_store fuel s) ctx t w = pg_Reseal s (Some t) w"
  by (simp_all add: pg_token_store_def)

lemma cookie_Create_not_nil: "fst (cookie_Create j s ns w) \<noteq> Inr None"
  by (auto simp: cookie_Create_def cookie_seal_def split: sum.split prod.split)

lemma pg_not_nil: "fst (pg_Create s ctx ns w) \<noteq> Inr None" "fst (pg_Get s ctx h w) \<noteq> Inr None"
  by (auto simp: pg_Create_def pg_Get_def Let_def split: sum.split prod.split option.split)

interpretation cookie_sound: sound_store "cookie_token_store Do j s" for Do j s
  by standard
     (auto simp: cookie_token_store_simps cookie_Create_not_nil cookie_not_nil cookie_Reseal_def cookie_seal_Inr)

interpretation pg_sound: sound_store "pg_token_store fuel s" for fuel s
  by standard
     (auto simp: pg_token_store_simps pg_not_nil pg_Reseal_def split: sum.splits prod.splits)

section \<open>What the constructor promises\<close>

text \<open>The options the package has.  A duration is a 64-bit integer.\<close>

inductive library_option :: "'w OIDCAuthOption \<Rightarrow> bool" where
  OnLogin: "library_option (WithOnLogin f)"
| BasePath: "library_option (WithBasePath bp)"
| SessionCookieName: "library_option (WithSessionCookieName name)"
| MaxSessionAge: "d \<le> maxDuration \<Longrightarrow> library_option (Auth.WithMaxSessionAge d)"
| Store: "library_option (WithTokenStore st)"
| NoLogoutMenuItem: "library_option WithoutLogoutMenuItem"
| InsecureCookies: "library_option WithInsecureCookies"

lemmas option_defs = WithOnLogin_def WithBasePath_def WithSessionCookieName_def Auth.WithMaxSessionAge_def
  WithTokenStore_def WithoutLogoutMenuItem_def WithInsecureCookies_def

definition configured :: "CookieKeyring \<Rightarrow> 'w provider \<Rightarrow> 'w OIDCAuthOption list \<Rightarrow> 'w OIDCAuth \<Rightarrow> bool" where
  "configured kr p opts a \<longleftrightarrow> oa_keyring a = kr \<and> oa_provider a = p \<and> oa_maxSessionAge a \<le> maxDuration \<and>
     (oa_store a = None \<or> (\<exists>st. WithTokenStore st \<in> set opts \<and> oa_store a = Some st))"

lemma option_configured:
  "library_option opt \<Longrightarrow> opt \<in> set opts \<Longrightarrow> configured kr p opts a \<Longrightarrow> configured kr p opts (opt a)"
  by (induction rule: library_option.induct) (auto simp: configured_def option_defs)

lemma options_configured:
  assumes "\<forall>opt \<in> set opts. library_option opt" and "set opts \<subseteq> set all" and "configured kr p all a"
  shows "configured kr p all (foldl (\<lambda>a opt. opt a) a opts)"
  using assms
proof (induction opts arbitrary: a)
  case (Cons opt opts)
  then show ?case
    using option_configured [of opt all kr p a] by simp
qed simp

text \<open>C40. What the constructor promises of a component it returns: the keyring and the provider it was
  given, two domains that cannot be confused, a positive session age, and a store, which is one an
  option brought or the store-less one with that age, ready to seal.\<close>

theorem NewOIDCAuth_wf:
  assumes new: "NewOIDCAuth Do j p clientID secret (Some kr) opts = Inr a" and kr: "keyring_inv kr"
    and opts: "\<forall>opt \<in> set opts. library_option opt"
  shows "oa_keyring a = kr \<and> oa_provider a = p \<and> oa_sessionDomain a \<noteq> oa_redirDomain a \<and> 0 < oa_maxSessionAge a \<and>
    ((\<exists>st. WithTokenStore st \<in> set opts \<and> auth_store a = st) \<or>
     (\<exists>s. auth_store a = cookie_token_store Do j s \<and> store_inv s \<and> cts_maxSessionAge s = oa_maxSessionAge a \<and>
        cts_keyring s = kr \<and> cts_domain s = oa_sessionDomain a))"
proof -
  define a0 where "a0 = \<lparr>oa_provider = p, oa_ClientID = clientID, oa_ClientSecret = secret,
             oa_keyring = kr, oa_onLogin = None, oa_basePath = [], oa_cookieName = ''token'',
             oa_insecure = False, oa_noLogoutMenuItem = False, oa_store = None,
             oa_maxSessionAge = DefaultMaxSessionAge, oa_maxSessionAgeSet = False,
             oa_sessionDomain = [], oa_redirDomain = []\<rparr>"
  define a1 where "a1 = foldl (\<lambda>a opt. opt a) a0 opts"
  have "configured kr p opts a0"
    by (simp add: configured_def a0_def)
  then have c: "configured kr p opts a1"
    unfolding a1_def by (intro options_configured [OF opts]) simp_all
  obtain d e where age: "0 < oa_maxSessionAge a1" and d: "cookieDomain cookieDomainSession (oa_cookieName a1) = Inr d"
    and e: "cookieDomain cookieDomainAuthRedirect (oa_cookieName a1) = Inr e"
    and a: "a = (let b = a1\<lparr>oa_sessionDomain := d, oa_redirDomain := e\<rparr> in
      if oa_store b = None then b\<lparr>oa_store := Some (cookie_token_store Do j
        (newCookieTokenStore (oa_keyring b) (oa_sessionDomain b) (oa_maxSessionAge b)))\<rparr> else b)"
    using new unfolding NewOIDCAuth_def a0_def [symmetric] a1_def [symmetric] option.case Let_def
    by (auto split: if_splits sum.splits)
  have "d \<noteq> e"
    using d e by (auto simp: cookieDomain_def cookieDomainSession_def cookieDomainAuthRedirect_def split: if_splits)
  then show ?thesis
    using c age kr unfolding a
    by (cases "oa_store a1") (auto simp: configured_def auth_store_def store_inv_def newCookieTokenStore_def)
qed

lemma WithTokenStore_other:
  "WithTokenStore st \<noteq> WithInsecureCookies" "WithTokenStore st \<noteq> Auth.WithMaxSessionAge d"
proof -
  show "WithTokenStore st \<noteq> WithInsecureCookies"
    by (rule notI, drule fun_cong [of _ _ "sample_auth st"])
       (simp add: option_defs sample_auth_def)
  show "WithTokenStore st \<noteq> Auth.WithMaxSessionAge d"
    by (rule notI, drule fun_cong [of _ _ "sample_auth st"])
       (simp add: option_defs sample_auth_def)
qed

lemma NewOIDCAuth_wf_witness:
  "\<exists>a s. NewOIDCAuth (\<lambda>k fn. fn) sample_codec (sample_provider :: world provider) ''id'' ''secret''
      (Some sample_keyring) [Auth.WithMaxSessionAge Hour, WithInsecureCookies] = Inr a \<and>
    auth_store a = cookie_token_store (\<lambda>k fn. fn) sample_codec s \<and> store_inv s \<and> cts_maxSessionAge s = Hour"
proof -
  obtain a where a: "NewOIDCAuth (\<lambda>k fn. fn) sample_codec (sample_provider :: world provider) ''id'' ''secret''
      (Some sample_keyring) [Auth.WithMaxSessionAge Hour, WithInsecureCookies] = Inr a" and age: "oa_maxSessionAge a = Hour"
    by (simp add: NewOIDCAuth_def option_defs Let_def cookieDomain_def validCookieName_def cookieNameSeparators_def)
  have "\<forall>opt \<in> set [Auth.WithMaxSessionAge Hour, WithInsecureCookies :: world OIDCAuthOption]. library_option opt"
    by (auto intro: library_option.intros)
  from NewOIDCAuth_wf [OF a keyring_inv_sample this] a age show ?thesis
    by (auto simp: WithTokenStore_other)
qed

end
