(* ===== verification/Visit.thy ===== *)
theory Visit
  imports Sessions
begin

text \<open>
  From the login to the page: what the cookie of a session is worth when it comes back with a later
  request.  What a request comes to is stated for any sound store, by what the store says of the
  handle; a handle that either of the two stores holds is worth its tokens until the session ends.
\<close>

section \<open>What a cookie stands for\<close>

text \<open>What a request with the cookie of a session comes to that has the tokens \<open>t\<close>: as long as the
  session is live, a context with the tokens, unless they are due for a refresh or the provider
  refuses them; once it has ended, the login page.\<close>

definition stands_for ::
  "'a world_scheme OIDCAuth \<Rightarrow> Context \<Rightarrow> Token \<Rightarrow> bool \<Rightarrow> auth_ctx \<Rightarrow> Request \<Rightarrow> 'a world_scheme io \<Rightarrow> bool" where
  "stands_for a ctx t live c r io \<longleftrightarrow>
     (if \<not> live
      then \<exists>io'. RequireAuth a ctx c r io = (Value (c, Some (Sentinel ErrSkipRender)), io') \<and>
        io_location io' = Some (loginURL a r)
      else \<forall>at. time_Sub (Expiry t) (clock (io_world io)) > tokenRefreshMargin \<and>
        (\<forall>w. fst (op_VerifyAccess (oa_provider a) (AccessToken t) w) = Inr at) \<and>
        op_TwirpHeaders (oa_provider a) (''Bearer '' @ AccessToken t) = None \<longrightarrow>
        (\<exists>c' io'. RequireAuth a ctx c r io = (Value (c', None), io') \<and>
           ac_Token c' = Some t \<and> ac_AccessToken c' = Some at))"

context sound_store
begin

lemma Reseal_not_nil: "st_Token s = Some t \<Longrightarrow> fst (ts_Reseal store ctx s w) \<noteq> Inr None"
  using Reseal_session [of ctx s w] by (metis option.distinct(1) prod.collapse)

lemma handle_stands_for:
  assumes store: "auth_store a = store" and rc: "r_Cookie r (oa_cookieName a) = Inr v"
    and got: "live \<Longrightarrow> \<exists>sess. ts_Get store ctx v (io_world io) = (Inr (Some sess), io_world io) \<and> st_Token sess = Some t"
    and gone: "\<not> live \<Longrightarrow> \<exists>e. fst (ts_Get store ctx v (io_world io)) = Inl e \<and> errors_Is e ErrNoSession"
  shows "stands_for a ctx t live c r io"
proof (cases live)
  case True
  then obtain sess where get: "ts_Get (auth_store a) ctx v (io_world io) = (Inr (Some sess), io_world io)"
    and tok: "st_Token sess = Some t"
    using got store by auto
  have "\<exists>c' io'. RequireAuth a ctx c r io = (Value (c', None), io') \<and> ac_Token c' = Some t \<and> ac_AccessToken c' = Some at"
    if "time_Sub (Expiry t) (clock (io_world io)) > tokenRefreshMargin"
      and "\<And>w. fst (op_VerifyAccess (oa_provider a) (AccessToken t) w) = Inr at"
      and "op_TwirpHeaders (oa_provider a) (''Bearer '' @ AccessToken t) = None" for at
    using RequireAuth_valid [OF rc get tok that(1) _ that(2,3), of c] Reseal_not_nil [OF tok] store by auto
  then show ?thesis
    using True by (simp add: stands_for_def)
next
  case False
  then obtain e where e: "fst (ts_Get (auth_store a) ctx v (io_world io)) = Inl e" "errors_Is e ErrNoSession"
    using gone store by auto
  then obtain w' where "ts_Get (auth_store a) ctx v (io_world io) = (Inl e, w')"
    by (metis prod.collapse)
  then have "store_failure a ctx r (io_world io) = Some e"
    by (rule store_failure_Get [OF rc])
  from RequireAuth_failure [OF this, of c] e(2) False show ?thesis
    by (auto simp: stands_for_def sessionGone_def)
qed

end

text \<open>A handle the cookie store holds.\<close>

lemma cookie_holds_stands_for:
  fixes a :: "'a world_scheme OIDCAuth"
  assumes store: "auth_store a = cookie_token_store Do j s" "store_inv s"
    and held: "cookie_holds j s (io_world io) v h" and rc: "r_Cookie r (oa_cookieName a) = Inr v"
    and t: "c_Token h = Some t"
  shows "stands_for a ctx t (clock (io_world io) < c_IssuedAt h + cts_maxSessionAge s) c r io"
  using cookie_Get_holds [OF store(2) held] t
  by (intro cookie_sound.handle_stands_for [OF store(1) rc]) (simp_all add: cookie_token_store_simps error_simps)

text \<open>A handle the Postgres store holds, while the database answers.\<close>

lemma pg_holds_stands_for:
  fixes a :: "'a pg_world_scheme OIDCAuth"
  assumes store: "auth_store a = pg_token_store fuel s"
    and ready: "pg_ready s (io_world io)" and held: "pg_holds s (io_world io) v h"
    and rc: "r_Cookie r (oa_cookieName a) = Inr v" and t: "c_Token h = Some t"
  shows "stands_for a Background t (db_now (io_world io) < c_IssuedAt h + pg_age s) c r io"
  using pg_Get_holds [OF ready held] t
  by (intro pg_sound.handle_stands_for [OF store rc]) (simp_all add: pg_token_store_simps error_simps)

section \<open>The cookie of a login\<close>

text \<open>The live cookie of a callback is a session the store created for a verified login.\<close>

lemma live_cookie_session:
  assumes run: "authCallback a ctx r io = (Value res, io')"
    and fresh: "io_status io = None" "io_cookies io = []" and asked: "Values_Get (r_Query r) ''error'' = []"
    and cookies: "r_Cookie r ''state'' = Inr state" "r_Cookie r ''nonce'' = Inr nonce"
    and cookie: "k \<in> set (io_cookies io')" "ck_MaxAge k = 0"
  obtains idt raw tok w session where "callback_verified a ctx r (io_world io) idt raw tok w"
    and "ts_Create (auth_store a) ctx \<lparr>ns_Subject = it_Subject idt, ns_Token = Some (assumeTokenExpiry (clock w) tok),
          ns_IDToken = raw\<rparr> w = (Inr (Some session), io_world io')"
    and "k = token_cookie a session"
proof -
  obtain cs where "io_cookies io' = cleared_callback_cookies a (clock (io_world io)) @ cs"
    and "cs = [] \<or> (\<exists>idt raw tok w session. callback_verified a ctx r (io_world io) idt raw tok w \<and>
        ts_Create (auth_store a) ctx \<lparr>ns_Subject = it_Subject idt, ns_Token = Some (assumeTokenExpiry (clock w) tok),
          ns_IDToken = raw\<rparr> w = (Inr (Some session), io_world io') \<and> cs = [token_cookie a session])"
    using authCallback_attempt [OF run fresh(1) asked cookies]
    unfolding fresh(2) append_Nil by blast
  moreover have "k \<notin> set (cleared_callback_cookies a (clock (io_world io)))"
    using cookie(2) by (auto simp: cleared_callback_cookies_def cleared_callback_cookie_def)
  ultimately show thesis
    using cookie(1) that by auto
qed

text \<open>What a row comes to that nobody has touched since: the statements of other requests leave it where it
  is, time passes, and the database answers.\<close>

definition undisturbed :: "Store \<Rightarrow> string \<Rightarrow> 'a pg_world_scheme \<Rightarrow> 'a pg_world_scheme \<Rightarrow> bool" where
  "undisturbed s h w w' \<longleftrightarrow> clock w \<le> clock w' \<and> table_inv (sessions w') \<and> faults w' = [] \<and>
     (\<forall>i cur. rowID s (clock w) h = Inr (i, cur) \<longrightarrow> lookup_row (sessions w') i = lookup_row (sessions w) i)"

lemma undisturbed_holds:
  assumes "pg_ready s w" and "pg_holds s w h c" and "undisturbed s h w w'"
  shows "pg_ready s w' \<and> pg_holds s w' h c"
proof -
  obtain i where i: "\<forall>now \<ge> clock w. \<exists>cur. rowID s now h = Inr (i, cur)" "pg_row_holds s w i c"
    using assms(2) by (auto simp: pg_holds_def)
  then have "lookup_row (sessions w') i = lookup_row (sessions w) i"
    using assms(3) by (auto simp: undisturbed_def)
  then have "pg_row_holds s w' i c"
    using i(2) assms(3) by (auto simp: pg_row_holds_def undisturbed_def)
  then have "pg_holds s w' h c"
    unfolding pg_holds_def using i(1) assms(3) by (intro exI [of _ i]) (simp add: undisturbed_def)
  then show ?thesis
    using assms(1,3) by (simp add: pg_ready_def undisturbed_def)
qed

lemma pg_Create_content:
  "pg_Create s ctx ns w = (Inr (Some st), w') \<Longrightarrow>
     Subject st = ns_Subject ns \<and> st_Token st = ns_Token ns \<and> IDToken st = ns_IDToken ns"
  by (auto simp: pg_Create_def Let_def split: option.splits sum.splits prod.splits)

lemma pg_Create_times:
  assumes "pg_Create s ctx ns w = (Inr (Some st), w')"
  shows "clock w' = clock w \<and> db_now w' = db_now w"
  using assms by (elim pg_Create_steps conjE) (auto dest!: pg_query_same only_rng_fields(2))

end
