(* ===== verification/Docform.thy ===== *)
theory Docform
  imports Prelude
begin

text \<open>
  The \<open>docform\<close> package: forms made of components that each manage the blocks of a document that
  their matcher selects.  A document is its two block lists; a block, what a component extracts and
  a field error are type parameters.

  \<open>newsdoc\<close> is a package of its own: its \<open>AllBlocks\<close> and \<open>DropBlocks\<close> are parameters, and what the
  code relies on, that they select and drop what the matcher matches in order and leave their
  argument alone, is the hypothesis \<open>selects\<close>.
\<close>

section \<open>Forms\<close>

text \<open>\<open>url.Values\<close>: each key once, with its values; the order is the one a range over the map takes.\<close>

type_synonym form_values = "(string \<times> string list) list"

datatype BlockTarget = TargetMeta | TargetLinks | OtherTarget int

record 'd ComponentBlock =
  cb_Template :: string
  cb_Data :: 'd

record FieldError =
  fe_Field :: string
  fe_Message :: string

record ('b, 'd) FormComponent =
  fc_Name :: string
  fc_TemplateName :: string
  fc_Target :: BlockTarget
  fc_Matcher :: "'b \<Rightarrow> bool"
  fc_Extract :: "'b list \<Rightarrow> 'd"
  fc_Validate :: "form_values \<Rightarrow> FieldError list"
  fc_Apply :: "'b list \<Rightarrow> form_values \<Rightarrow> 'b list"

type_synonym ('b, 'd) Form = "('b, 'd) FormComponent list"

record 'b Document =
  doc_Meta :: "'b list"
  doc_Links :: "'b list"

record 'b newsdoc =
  nd_AllBlocks :: "'b list \<Rightarrow> ('b \<Rightarrow> bool) \<Rightarrow> 'b list"
  nd_DropBlocks :: "'b list \<Rightarrow> ('b \<Rightarrow> bool) \<Rightarrow> 'b list"

definition selects :: "'b newsdoc \<Rightarrow> bool" where
  "selects n \<longleftrightarrow> (\<forall>bs m. nd_AllBlocks n bs m = filter m bs \<and> nd_DropBlocks n bs m = filter (\<lambda>b. \<not> m b) bs)"

definition stripPrefix :: "string \<Rightarrow> form_values \<Rightarrow> form_values" where
  "stripPrefix prefix values =
     List.map_filter (\<lambda>(key, vals). map_option (\<lambda>after. (after, vals)) (CutPrefix key (prefix @ ''.''))) values"

definition ParseValues :: "('b, 'd) Form \<Rightarrow> form_values \<Rightarrow> string \<rightharpoonup> form_values" where
  "ParseValues f values = foldl (\<lambda>m c. m(fc_Name c \<mapsto> stripPrefix (fc_Name c) values)) Map.empty f"

text \<open>Reading a missing key of a map gives the zero value.\<close>

definition parsed_of :: "(string \<rightharpoonup> form_values) \<Rightarrow> string \<Rightarrow> form_values" where
  "parsed_of m name = (case m name of None \<Rightarrow> [] | Some v \<Rightarrow> v)"

definition blocksForTarget :: "'b Document \<Rightarrow> BlockTarget \<Rightarrow> 'b list" where
  "blocksForTarget doc target =
     (case target of TargetMeta \<Rightarrow> doc_Meta doc | TargetLinks \<Rightarrow> doc_Links doc | OtherTarget n \<Rightarrow> [])"

definition ExtractAll :: "'b newsdoc \<Rightarrow> ('b, 'd) Form \<Rightarrow> 'b Document \<Rightarrow> 'd ComponentBlock list" where
  "ExtractAll n f doc =
     foldl (\<lambda>result c.
       result @ [\<lparr>cb_Template = fc_TemplateName c,
         cb_Data = fc_Extract c (nd_AllBlocks n (blocksForTarget doc (fc_Target c)) (fc_Matcher c))\<rparr>]) [] f"

text \<open>The errors by component; a nil map where there are none.\<close>

definition ValidateAll :: "('b, 'd) Form \<Rightarrow> form_values \<Rightarrow> (string \<rightharpoonup> FieldError list) option" where
  "ValidateAll f values =
     (let parsed = ParseValues f values in
      foldl (\<lambda>result c.
        let errs = fc_Validate c (parsed_of parsed (fc_Name c)) in
        if errs = [] then result
        else Some ((case result of None \<Rightarrow> Map.empty | Some m \<Rightarrow> m)(fc_Name c \<mapsto> errs))) None f)"

text \<open>The two loops of \<open>replaceBlocks\<close>: the index of the first match, and how far it moves for the
  blocks dropped before it.\<close>

fun first_match :: "('b \<Rightarrow> bool) \<Rightarrow> 'b list \<Rightarrow> nat \<Rightarrow> int \<Rightarrow> int" where
  "first_match m [] i firstIdx = firstIdx"
| "first_match m (b # bs) i firstIdx =
     first_match m bs (Suc i) (if m b \<and> firstIdx = - 1 then int i else firstIdx)"

fun adjusted_index :: "('b \<Rightarrow> bool) \<Rightarrow> 'b list \<Rightarrow> nat \<Rightarrow> int \<Rightarrow> nat \<Rightarrow> int" where
  "adjusted_index m [] i firstIdx removed = 0"
| "adjusted_index m (b # bs) i firstIdx removed =
     (if int i = firstIdx then int i - int removed
      else adjusted_index m bs (Suc i) firstIdx (if m b then Suc removed else removed))"

definition replaceBlocks :: "'b newsdoc \<Rightarrow> 'b list \<Rightarrow> ('b \<Rightarrow> bool) \<Rightarrow> 'b list \<Rightarrow> 'b list" where
  "replaceBlocks n blocks matcher replacement =
     (let firstIdx = first_match matcher blocks 0 (- 1);
          filtered = nd_DropBlocks n blocks matcher
      in if replacement = [] then filtered
         else if firstIdx = - 1 then filtered @ replacement
         else let adjustedIdx = nat (min (adjusted_index matcher blocks 0 firstIdx 0) (int (length filtered)))
              in take adjustedIdx filtered @ replacement @ drop adjustedIdx filtered)"

definition apply_component :: "'b newsdoc \<Rightarrow> (string \<rightharpoonup> form_values) \<Rightarrow> 'b Document \<Rightarrow> ('b, 'd) FormComponent \<Rightarrow> 'b Document" where
  "apply_component n parsed doc c =
     (let blocks = blocksForTarget doc (fc_Target c);
          matched = nd_AllBlocks n blocks (fc_Matcher c);
          replacement = fc_Apply c matched (parsed_of parsed (fc_Name c));
          blocks = replaceBlocks n blocks (fc_Matcher c) replacement
      in case fc_Target c of
           TargetMeta \<Rightarrow> doc\<lparr>doc_Meta := blocks\<rparr>
         | TargetLinks \<Rightarrow> doc\<lparr>doc_Links := blocks\<rparr>
         | OtherTarget k \<Rightarrow> doc)"

definition ApplyAll :: "'b newsdoc \<Rightarrow> ('b, 'd) Form \<Rightarrow> 'b Document \<Rightarrow> form_values \<Rightarrow> 'b Document" where
  "ApplyAll n f doc values = foldl (apply_component n (ParseValues f values)) doc f"

section \<open>Lemmas\<close>

lemma first_match_fixed: "k \<noteq> - 1 \<Longrightarrow> first_match m bs i k = k"
  by (induction bs arbitrary: i) auto

lemma first_match_eq:
  "first_match m bs i (- 1) = (if list_ex m bs then int i + int (length (takeWhile (\<lambda>b. \<not> m b) bs)) else - 1)"
  by (induction bs arbitrary: i) (auto simp: first_match_fixed)

lemma adjusted_index_eq:
  "list_ex m bs \<Longrightarrow> adjusted_index m bs i (int i + int (length (takeWhile (\<lambda>b. \<not> m b) bs))) r =
     int i + int (length (takeWhile (\<lambda>b. \<not> m b) bs)) - int r"
proof (induction bs arbitrary: i)
  case (Cons b bs)
  then show ?case
    using Cons.IH [of "Suc i"] by (cases "m b") (simp_all add: algebra_simps)
qed simp

lemma filter_takeWhile_dropWhile:
  "filter (\<lambda>b. \<not> m b) bs = takeWhile (\<lambda>b. \<not> m b) bs @ filter (\<lambda>b. \<not> m b) (dropWhile (\<lambda>b. \<not> m b) bs)"
  by (induction bs) auto

lemma stripPrefix_lookup_fact: "map_of (stripPrefix p vs) k = map_of vs (p @ ''.'' @ k)"
proof (induction vs)
  case Nil
  then show ?case by (simp add: stripPrefix_def List.map_filter_simps)
next
  case (Cons v vs)
  obtain key vals where v: "v = (key, vals)"
    by (cases v) blast
  show ?case
  proof (cases "CutPrefix key (p @ ''.'')")
    case None
    then have "key \<noteq> p @ ''.'' @ k"
      using CutPrefix_eq_Some [of key "p @ ''.''" k] by auto
    with None Cons v show ?thesis
      by (simp add: stripPrefix_def List.map_filter_simps)
  next
    case (Some r)
    then have "key = p @ ''.'' @ r"
      by (simp add: CutPrefix_eq_Some)
    with Some Cons v show ?thesis
      by (simp add: stripPrefix_def List.map_filter_simps)
  qed
qed

lemma replaceBlocks_spec:
  assumes "selects n"
  shows "replaceBlocks n bs m rep =
    takeWhile (\<lambda>b. \<not> m b) bs @ rep @ filter (\<lambda>b. \<not> m b) (dropWhile (\<lambda>b. \<not> m b) bs)"
proof -
  let ?p = "takeWhile (\<lambda>b. \<not> m b) bs" let ?s = "filter (\<lambda>b. \<not> m b) (dropWhile (\<lambda>b. \<not> m b) bs)"
  have drop: "nd_DropBlocks n bs m = ?p @ ?s"
    using assms filter_takeWhile_dropWhile by (metis selects_def)
  show ?thesis
  proof (cases "list_ex m bs")
    case False
    then have p: "?p = bs" and d: "dropWhile (\<lambda>b. \<not> m b) bs = []"
      by (auto simp: list_ex_iff)
    show ?thesis
      using False by (simp add: replaceBlocks_def first_match_eq drop Let_def p d)
  next
    case True
    have "adjusted_index m bs 0 (int (length ?p)) 0 = int (length ?p)"
      using adjusted_index_eq [OF True, of 0 0] by simp
    then show ?thesis
      using True by (simp add: replaceBlocks_def first_match_eq drop Let_def)
  qed
qed

text \<open>A component that yields only blocks of its own leaves every other block where it was.\<close>

definition own_blocks :: "('b, 'd) FormComponent \<Rightarrow> bool" where
  "own_blocks c \<longleftrightarrow> (\<forall>bs vals. \<forall>b \<in> set (fc_Apply c bs vals). fc_Matcher c b)"

lemma replaceBlocks_others:
  assumes "selects n" and "\<forall>b \<in> set rep. m b" and "\<And>b. other b \<Longrightarrow> \<not> m b"
  shows "filter other (replaceBlocks n bs m rep) = filter other bs"
proof -
  have "filter other (filter (\<lambda>b. \<not> m b) xs) = filter other xs" for xs
    using assms(3) by (auto intro: filter_cong)
  moreover have "filter other rep = []"
    using assms(2,3) by (auto simp: filter_empty_conv)
  moreover have "filter other bs = filter other (takeWhile (\<lambda>b. \<not> m b) bs) @ filter other (dropWhile (\<lambda>b. \<not> m b) bs)"
    by (simp flip: filter_append)
  ultimately show ?thesis
    by (simp add: replaceBlocks_spec [OF assms(1)])
qed

section \<open>Properties\<close>

text \<open>C30. Replacing a component's blocks puts the new ones where its first block was, or at the end where
  it had none, and keeps every other block in its place: the index arithmetic of the code comes to
  the blocks before the first match, the replacement, and what is not matched of the rest.\<close>

theorem replaceBlocks_position:
  assumes "selects n"
  shows "replaceBlocks n bs m rep =
    takeWhile (\<lambda>b. \<not> m b) bs @ rep @ filter (\<lambda>b. \<not> m b) (dropWhile (\<lambda>b. \<not> m b) bs)"
  by (rule replaceBlocks_spec [OF assms])

definition list_newsdoc :: "'b newsdoc" where
  "list_newsdoc = \<lparr>nd_AllBlocks = (\<lambda>bs m. filter m bs), nd_DropBlocks = (\<lambda>bs m. filter (\<lambda>b. \<not> m b) bs)\<rparr>"

lemma selects_list: "selects list_newsdoc"
  by (simp add: selects_def list_newsdoc_def)

lemma replaceBlocks_position_witness:
  "replaceBlocks list_newsdoc [1, 2, 3, 2, 4 :: nat] (\<lambda>b. b = 2) [7, 8] = [1, 7, 8, 3, 4]"
  using replaceBlocks_position [OF selects_list, of "[1, 2, 3, 2, 4 :: nat]" "\<lambda>b. b = 2" "[7, 8]"] by simp

text \<open>C29. Applying a form does not touch what no component manages: the blocks that none of the matchers
  selects are the same before and after, in the same order, in both lists, as long as every
  component yields only blocks that its own matcher selects.\<close>

theorem ApplyAll_unmanaged:
  assumes n: "selects n" and own: "\<forall>c \<in> set f. own_blocks c"
    and other: "\<And>b c. other b \<Longrightarrow> c \<in> set f \<Longrightarrow> \<not> fc_Matcher c b"
  shows "filter other (doc_Meta (ApplyAll n f doc values)) = filter other (doc_Meta doc) \<and>
    filter other (doc_Links (ApplyAll n f doc values)) = filter other (doc_Links doc)"
proof -
  have "filter other (doc_Meta (foldl (apply_component n p) doc cs)) = filter other (doc_Meta doc) \<and>
      filter other (doc_Links (foldl (apply_component n p) doc cs)) = filter other (doc_Links doc)"
    if "set cs \<subseteq> set f" for cs p
    using that
  proof (induction cs arbitrary: doc)
    case (Cons c cs)
    then have c: "c \<in> set f" by simp
    have "\<forall>b \<in> set (fc_Apply c bs vals). fc_Matcher c b" for bs vals
      using own c by (simp add: own_blocks_def)
    then have "filter other (replaceBlocks n bs (fc_Matcher c) (fc_Apply c ms vals)) = filter other bs" for bs ms vals
      by (intro replaceBlocks_others [OF n]) (use other c in auto)
    then have "filter other (doc_Meta (apply_component n p doc c)) = filter other (doc_Meta doc) \<and>
        filter other (doc_Links (apply_component n p doc c)) = filter other (doc_Links doc)"
      by (simp add: apply_component_def Let_def blocksForTarget_def split: BlockTarget.split)
    then show ?case
      using Cons by simp
  qed simp
  then show ?thesis
    by (simp add: ApplyAll_def)
qed

definition sample_component :: "(nat, nat) FormComponent" where
  "sample_component = \<lparr>fc_Name = ''title'', fc_TemplateName = ''title'', fc_Target = TargetMeta,
     fc_Matcher = (\<lambda>b. b = 2), fc_Extract = length, fc_Validate = (\<lambda>v. []), fc_Apply = (\<lambda>bs v. [2, 2])\<rparr>"

lemma ApplyAll_unmanaged_witness:
  "filter (\<lambda>b. b \<noteq> 2) (doc_Meta (ApplyAll list_newsdoc [sample_component] \<lparr>doc_Meta = [1, 2, 3], doc_Links = [2]\<rparr> [])) = [1, 3]"
  using ApplyAll_unmanaged [OF selects_list, of "[sample_component]" "\<lambda>b. b \<noteq> 2" "\<lparr>doc_Meta = [1, 2, 3], doc_Links = [2]\<rparr>" "[]"]
  by (simp add: sample_component_def own_blocks_def)

text \<open>A component sees the fields under its own name and no others, each under what follows the dot,
  in whatever order the form came in.\<close>

theorem stripPrefix_lookup:
  "map_of (stripPrefix prefix values) key = map_of values (prefix @ ''.'' @ key)"
  by (rule stripPrefix_lookup_fact)

lemma ParseValues_of:
  fixes f :: "('b, 'd) Form"
  shows "c \<in> set f \<Longrightarrow> parsed_of (ParseValues f values) (fc_Name c) = stripPrefix (fc_Name c) values"
proof -
  have fold: "foldl (\<lambda>m c. m(fc_Name c \<mapsto> stripPrefix (fc_Name c) values)) m cs k =
      (if k \<in> fc_Name ` set cs then Some (stripPrefix k values) else m k)"
    for m k and cs :: "('b, 'd) Form"
    by (induction cs arbitrary: m) auto
  show "c \<in> set f \<Longrightarrow> parsed_of (ParseValues f values) (fc_Name c) = stripPrefix (fc_Name c) values"
    by (simp add: ParseValues_def parsed_of_def fold)
qed

text \<open>A form is valid exactly when every component accepts its own fields, and where it is not, each
  component that objects is heard under its name, with its errors.\<close>

theorem ValidateAll_errors:
  assumes "distinct (map fc_Name f)"
  shows "case ValidateAll f values of
      None \<Rightarrow> \<forall>c \<in> set f. fc_Validate c (stripPrefix (fc_Name c) values) = []
    | Some m \<Rightarrow> (\<exists>c \<in> set f. fc_Validate c (stripPrefix (fc_Name c) values) \<noteq> []) \<and>
        (\<forall>c \<in> set f. m (fc_Name c) = (let errs = fc_Validate c (stripPrefix (fc_Name c) values)
           in if errs = [] then None else Some errs))"
proof -
  let ?p = "ParseValues f values"
  let ?e = "\<lambda>c. fc_Validate c (parsed_of ?p (fc_Name c))"
  let ?step = "\<lambda>result c. if ?e c = [] then result
      else Some ((case result of None \<Rightarrow> Map.empty | Some m \<Rightarrow> m)(fc_Name c \<mapsto> ?e c))"
  have fold: "distinct (map fc_Name cs) \<Longrightarrow>
      (case res of None \<Rightarrow> True | Some m \<Rightarrow> \<forall>c \<in> set cs. m (fc_Name c) = None) \<Longrightarrow>
      (case foldl ?step res cs of
         None \<Rightarrow> res = None \<and> (\<forall>c \<in> set cs. ?e c = [])
       | Some m \<Rightarrow> (res \<noteq> None \<or> (\<exists>c \<in> set cs. ?e c \<noteq> [])) \<and>
           (\<forall>c \<in> set cs. m (fc_Name c) = (if ?e c = [] then None else Some (?e c))) \<and>
           (\<forall>k. k \<notin> fc_Name ` set cs \<longrightarrow> m k = (case res of None \<Rightarrow> None | Some m0 \<Rightarrow> m0 k)))" for cs res
  proof (induction cs arbitrary: res)
    case Nil
    then show ?case by (simp split: option.split)
  next
    case (Cons c cs)
    have "\<forall>d \<in> set cs. fc_Name d \<noteq> fc_Name c"
      using Cons.prems(1) by (metis distinct.simps(2) image_eqI list.simps(9) set_map)
    then have "case ?step res c of None \<Rightarrow> True | Some m \<Rightarrow> \<forall>c \<in> set cs. m (fc_Name c) = None"
      using Cons.prems by (auto split: option.splits)
    from Cons.IH [OF _ this] Cons.prems show ?case
      by (auto split: option.splits if_splits)
  qed
  have "foldl ?step None f = ValidateAll f values"
    by (simp add: ValidateAll_def Let_def)
  moreover have "?e c = fc_Validate c (stripPrefix (fc_Name c) values)" if "c \<in> set f" for c
    using ParseValues_of [OF that] by simp
  ultimately show ?thesis
    using fold [OF assms, of None] by (auto simp: Let_def split: option.splits)
qed

lemma ValidateAll_errors_witness:
  "ValidateAll [sample_component] [] = None \<and>
   (case ValidateAll [sample_component] [] of
      None \<Rightarrow> \<forall>c \<in> set [sample_component]. fc_Validate c (stripPrefix (fc_Name c) []) = []
    | Some m \<Rightarrow> False)"
proof -
  have "ValidateAll [sample_component] [] = None"
    by (simp add: ValidateAll_def Let_def sample_component_def)
  then show ?thesis
    using ValidateAll_errors [of "[sample_component]" "[]"] by simp
qed

end
