(* ===== verification/Migrate.thy ===== *)
theory Migrate
  imports Store
begin

text \<open>
  \<open>migrate.go\<close>: the migrations of the session table, applied over a connection of the pool or of the
  caller's own, against a version table of their own.  The pool and the migrator of tern are
  parameters, and so are the embedded files.
\<close>

section \<open>Applying the migrations\<close>

definition SchemaVersionTable :: string where
  "SchemaVersionTable = ''howdah_session_version''"

record ('c, 'w) pool =
  pl_Acquire :: "Context \<Rightarrow> 'w \<Rightarrow> 'c result \<times> 'w"
  pl_Release :: "'c \<Rightarrow> 'w \<Rightarrow> 'w"

record ('c, 'm, 'f, 'w) tern =
  tn_NewMigrator :: "Context \<Rightarrow> 'c \<Rightarrow> string \<Rightarrow> 'w \<Rightarrow> 'm result \<times> 'w"
  tn_LoadMigrations :: "'m \<Rightarrow> 'f \<Rightarrow> 'm result"
  tn_Migrate :: "Context \<Rightarrow> 'm \<Rightarrow> 'w \<Rightarrow> unit result \<times> 'w"

definition MigrateConn :: "('c, 'm, 'f, 'w) tern \<Rightarrow> 'f \<Rightarrow> Context \<Rightarrow> 'c \<Rightarrow> 'w \<Rightarrow> unit result \<times> 'w" where
  "MigrateConn tn Migrations ctx conn w =
     (case tn_NewMigrator tn ctx conn SchemaVersionTable w of
        (Inl e, w1) \<Rightarrow> (Inl (Errorf ''create the migrator'' [e]), w1)
      | (Inr m, w1) \<Rightarrow>
          (case tn_LoadMigrations tn m Migrations of
             Inl e \<Rightarrow> (Inl (Errorf ''load howdah's migrations'' [e]), w1)
           | Inr m' \<Rightarrow>
               (case tn_Migrate tn ctx m' w1 of
                  (Inl e, w2) \<Rightarrow> (Inl (Errorf ''apply howdah's migrations'' [e]), w2)
                | (Inr _, w2) \<Rightarrow> (Inr (), w2))))"

definition Migrate ::
  "('c, 'm, 'f, 'w) tern \<Rightarrow> 'f \<Rightarrow> Context \<Rightarrow> ('c, 'w) pool \<Rightarrow> 'w \<Rightarrow> unit result \<times> 'w" where
  "Migrate tn Migrations ctx pool w =
     (case pl_Acquire pool ctx w of
        (Inl e, w1) \<Rightarrow> (Inl (Errorf ''acquire a connection for the migration'' [e]), w1)
      | (Inr conn, w1) \<Rightarrow>
          (case MigrateConn tn Migrations ctx conn w1 of
             (r, w2) \<Rightarrow> (r, pl_Release pool conn w2)))"

section \<open>Properties\<close>

text \<open>A migration gives back the connection it took, whatever becomes of it: a pool that counts what it
  has lent out, and a migrator that does not touch the pool, leave the count as it was.\<close>

theorem Migrate_releases:
  fixes lent :: "'w \<Rightarrow> int"
  assumes "\<And>w. lent (snd (pl_Acquire pool ctx w)) = lent w + (case fst (pl_Acquire pool ctx w) of Inl e \<Rightarrow> 0 | Inr c \<Rightarrow> 1)"
    and "\<And>c w. lent (pl_Release pool c w) = lent w - 1"
    and "\<And>c tbl w. lent (snd (tn_NewMigrator tn ctx c tbl w)) = lent w"
    and "\<And>m w. lent (snd (tn_Migrate tn ctx m w)) = lent w"
  shows "lent (snd (Migrate tn files ctx pool w)) = lent w"
proof -
  have "lent (snd (MigrateConn tn files ctx c w)) = lent w" for c w
    using assms(3) [of c SchemaVersionTable w] assms(4)
    by (auto simp: MigrateConn_def split: prod.splits sum.splits) (metis snd_conv)+
  then show ?thesis
    using assms(1) [of w] assms(2) by (auto simp: Migrate_def split: prod.splits sum.splits) (metis add_diff_cancel snd_conv)
qed

text \<open>A pool of connections and a schema version, where a migration brings the version to the number of
  its files, and one that is not there yet cannot be loaded.\<close>

definition sample_pool :: "(unit, int \<times> nat) pool" where
  "sample_pool = \<lparr>pl_Acquire = (\<lambda>ctx w. (Inr (), (fst w + 1, snd w))), pl_Release = (\<lambda>c w. (fst w - 1, snd w))\<rparr>"

definition sample_tern :: "(unit, nat, nat, int \<times> nat) tern" where
  "sample_tern =
     \<lparr>tn_NewMigrator = (\<lambda>ctx c tbl w. (Inr 0, w)),
      tn_LoadMigrations = (\<lambda>m files. if files = 0 then Inl (New ''no migrations'') else Inr files),
      tn_Migrate = (\<lambda>ctx m w. (Inr (), (fst w, m)))\<rparr>"

lemma Migrate_releases_witness:
  "fst (snd (Migrate sample_tern 0 Background sample_pool (3, 7))) = 3 \<and>
   fst (snd (Migrate sample_tern 9 Background sample_pool (3, 7))) = 3"
  using Migrate_releases [of fst sample_pool Background sample_tern 0 "(3, 7)"]
    Migrate_releases [of fst sample_pool Background sample_tern 9 "(3, 7)"]
  by (simp add: sample_pool_def sample_tern_def)

text \<open>A migration succeeds only when every step did; when one fails the error wraps its cause, and the
  steps after it are not taken.\<close>

theorem Migrate_outcomes:
  "(case Migrate tn files ctx pool w of
      (Inr _, w') \<Rightarrow> \<exists>c w1 m w2 m' w3. pl_Acquire pool ctx w = (Inr c, w1) \<and>
        tn_NewMigrator tn ctx c SchemaVersionTable w1 = (Inr m, w2) \<and> tn_LoadMigrations tn m files = Inr m' \<and>
        tn_Migrate tn ctx m' w2 = (Inr (), w3) \<and> w' = pl_Release pool c w3
    | (Inl e, w') \<Rightarrow> \<exists>msg cause. e = Errorf msg [cause] \<and>
        (pl_Acquire pool ctx w = (Inl cause, w') \<or>
         (\<exists>c w1. pl_Acquire pool ctx w = (Inr c, w1) \<and>
            ((\<exists>w2. tn_NewMigrator tn ctx c SchemaVersionTable w1 = (Inl cause, w2) \<and> w' = pl_Release pool c w2) \<or>
             (\<exists>m w2. tn_NewMigrator tn ctx c SchemaVersionTable w1 = (Inr m, w2) \<and>
                (tn_LoadMigrations tn m files = Inl cause \<and> w' = pl_Release pool c w2 \<or>
                 (\<exists>m' w3. tn_LoadMigrations tn m files = Inr m' \<and> tn_Migrate tn ctx m' w2 = (Inl cause, w3) \<and>
                    w' = pl_Release pool c w3)))))))"
  by (auto simp: Migrate_def MigrateConn_def split: prod.splits sum.splits)

end
