(* ===== verification/Spec2Isabelle.thy ===== *)
theory Spec2Isabelle
  imports FleetSpec Visit Docform Migrate
begin

text \<open>
  A verification development for howdah, a Go framework for server-rendered back-office
  applications: OIDC login, sessions, pages and their menu, and document forms.

  \<^bold>\<open>The program.\<close>  A request reaches a page through the mux (\<open>page_mux.go\<close>), which refuses what
  another site posts and turns errors into pages (\<open>page.go\<close>).  A protected page calls the OIDC
  component (\<open>application_auth.go\<close>): it reads the session cookie, asks a token store for the session,
  refreshes its access token when that is about to expire, and hands back a context with the tokens
  or sends the visitor to log in.  There are two stores.  The store-less one
  (\<open>token_store_cookie.go\<close>) seals the whole session into the cookie; the Postgres one
  (\<open>tokenstore/pgstore\<close>) keeps an encrypted row and seals a handle into the cookie, and coordinates the
  refresh of many instances over a lease in the row.  Both seal with the envelope of
  \<open>cookie_crypto.go\<close> under the keys of \<open>cookie_keyring.go\<close>.

  \<^bold>\<open>The theories.\<close>
  \<^item> \<open>Prelude\<close>: bytes, strings, instants, errors and their wrapping, the clock and the random source,
    and \<open>outcome\<close>, a value or a panic.
  \<^item> \<open>Encoding\<close>, \<open>Primitives\<close>, \<open>Aead\<close>: hex and base64, SHA-256 and AES-256, and GCM over any block cipher;
    an AEAD is used through the locale \<open>aead_contract\<close>, which GCM is an interpretation of.
  \<^item> \<open>Rfc3339\<close>: the calendar and the RFC 3339 text of an instant, read and written.  \<open>JsonString\<close>, \<open>Json\<close>,
    \<open>Unmarshal\<close>: JSON texts with the UTF-8 of their strings, the scanner with its bound on nesting, and
    what a value fills in of a struct, as \<open>encoding/json\<close> does it.
  \<^item> \<open>Keyring\<close> (\<open>cookie_keyring.go\<close>): keys from the environment, the invariant of a keyring, and the key
    that seals at an instant.
  \<^item> \<open>Envelope\<close> (\<open>cookie_crypto.go\<close>) and \<open>Sealer\<close> (\<open>session_sealer.go\<close>): sealing and opening, kinds,
    domains and rows.
  \<^item> \<open>Store\<close> (\<open>token_store.go\<close>): the store as a record of operations, and the contract its documentation
    states as the locale \<open>session_store\<close>; its lemmas are about any sequence of operations.
  \<^item> \<open>Payload\<close> (\<open>application_auth.go\<close>, \<open>payload.go\<close>): what a cookie and a row carry, and its JSON.
  \<^item> \<open>CookieStore\<close> (\<open>token_store_cookie.go\<close>): the store-less store, an interpretation of the contract.
  \<^item> \<open>PgTable\<close> (\<open>postgres/queries.sql.go\<close>): the table and each SQL statement as one atomic function of it
    and the database's clock.  \<open>PgStore\<close> (\<open>pgstore.go\<close>, \<open>payload.go\<close>): the operations over it, an
    interpretation of the contract by the database's clock, with refused queries and lost replies.
    \<open>Migrate\<close> (\<open>migrate.go\<close>): the migration that makes the table, over any pool and migrator.
  \<^item> \<open>PgSpec\<close>: a map of sessions with its requests as steps, which the operations of \<open>PgStore\<close> refine.
  \<^item> \<open>PgRefresh\<close> (\<open>refresh.go\<close>): a refresh as a step machine, its termination and what it returns.
    \<open>PgFleet\<close>: any number of refreshes of any number of instances, interleaved step by step, with
    crashes, as an inductive relation of reachable states.  \<open>FleetSpec\<close>: the fleet refines the map of
    \<open>PgSpec\<close>, where a refresh is one atomic step.
  \<^item> \<open>Http\<close> (\<open>http_err.go\<close>, \<open>elements.go\<close>, \<open>base_path.go\<close>, \<open>cookies.go\<close>), \<open>Url\<close> (the host of an origin) and
    \<open>TokenEndpoint\<close> (\<open>token.go\<close>).
  \<^item> \<open>Menu\<close> (\<open>menu.go\<close>), \<open>Templates\<close> (the functions of a template in \<open>page.go\<close>) and \<open>Page\<close> (\<open>page.go\<close>,
    \<open>page_mux.go\<close>, \<open>application.go\<close>).
  \<^item> \<open>Auth\<close> and \<open>AuthFlow\<close> (\<open>application_auth.go\<close>): configuration, session cookie and refresh; the handlers.
    \<open>AuthSession\<close> and \<open>Login\<close> hold what is proved of them, for any store.
  \<^item> \<open>Sessions\<close>: what the handlers rely on of a store, as the locale \<open>sound_store\<close>, with both stores as
    its interpretations.  \<open>Visit\<close>: what a cookie is worth that comes back, on either store.
  \<^item> \<open>Docform\<close> (\<open>docform/form.go\<close>, \<open>docform/docform.go\<close>): forms over the blocks of a document.

  \<^bold>\<open>The models.\<close>  A struct is a record, a nil pointer \<open>None\<close>, a pair of a value and an error a sum with
  the error on the left.  Code that reads the clock, the random source or the database takes the
  environment and returns it; \<open>world\<close> has a clock and the random bytes to come, \<open>pg_world\<close> the table,
  the database's clock and the faults to come as well.  A handler takes the response so far, a
  record with headers, cookies, status, location and body around the environment, and returns it; a
  nil pointer it reads through without a check is the outcome \<open>Panic\<close>, and in a store the error
  \<open>nil pointer dereference\<close>.  Instants and durations are integers, except where the source's 64-bit
  arithmetic can wrap: there they are words, or the wrap is written out.  Logs are kept for the
  handlers only.

  \<^bold>\<open>What the lemmas show.\<close>  Of the envelope: what is sealed opens, nothing else does, and each failure has
  its place in the error taxonomy.  Of the keyring: which keys are accepted and which seals.  Of the
  JSON: what is written is read back, so a payload survives its cookie or its row.  Of both stores:
  the lifetime of a session cannot be stretched.  Of the Postgres store: every history of requests,
  whatever the database does, is a history of a map of sessions.  Of the refresh: mutual exclusion,
  no write-back of a stale token, termination, and that a refresh of a fleet is one atomic step of
  that map.  Of the handlers: what each outcome of a session comes to, that an outage costs nobody
  the session, that only a verified login creates one, and that no handler panics on either store.
  Here: the cookie of a login is a session, on either store, an outage of the database leaves the
  cookie alone, logging out ends every copy of a stored session, and what fits in a cookie.

  \<^bold>\<open>Bounds.\<close>  The one loop that may wait, the refresh, runs on fuel.  \<open>pg_Refresh_terminates\<close> gives the
  fuel that is enough from the waiting budget, the shortest poll and the number of leases that
  can be lost in between, so a run with at least as much returns.

  \<^bold>\<open>Parameters.\<close>  The JSON of an \<open>oauth2.Token\<close>, with \<open>token_faithful\<close> for the tokens it reads back as
  they were, and the local time zone; the store operations are stated over any codec of their
  payload, with \<open>faithful\<close>, and the codecs of the source are \<open>session_codec\<close> and \<open>pg_codec\<close>.
  \<open>singleflight\<close>, as a function that may share another caller's result; the OIDC provider (verifiers,
  code exchange, HTTP client, the Twirp headers) as a record of functions; the execution of a
  template, the message bundle of go-i18n and the file systems; the connection pool and the
  migrator; the IPv6 syntax of a host; and \<open>newsdoc\<close>, with \<open>selects\<close> for what the forms rely on.

  \<^bold>\<open>Not modelled.\<close>  The inside of the template engine and of go-i18n; which patterns the mux of
  \<open>net/http\<close> refuses to register; the HTML body of a redirect; the logs below the handlers.  The SQL
  of the migrations appears as the rows and constraints of \<open>PgTable\<close> only.  The database handle
  (\<open>postgres/db.go\<close>) is generated and the build targets (\<open>magefiles\<close>) import those of another repository:
  neither has behaviour of its own.
\<close>

section \<open>No handler panics\<close>

lemma auth_store_sample: "auth_store (sample_auth store) = store"
  by (simp add: auth_store_def sample_auth_def)

text \<open>C27. In a store-less application none of the handlers of a session panics, whatever cookies a
  request carries and whatever the provider answers: the dereferences the handlers make without a
  check are of sessions and tokens the store always hands them.\<close>

theorem storeless_never_panics:
  fixes a :: "'a world_scheme OIDCAuth"
  assumes "auth_store a = cookie_token_store Do j s"
  shows "fst (RequireAuth a ctx c r io) \<noteq> Panic \<and> fst (OptionalAuth a ctx c r io) \<noteq> Panic \<and>
    fst (Keepalive a ctx r io) \<noteq> Panic \<and>
    fst (authCallback a ctx r io :: 'c Page option result outcome \<times> 'a world_scheme io) \<noteq> Panic"
  using cookie_sound.guards_return [OF assms, where io = io] cookie_sound.authCallback_returns [OF assms]
  by simp

lemma storeless_never_panics_witness:
  "fst (RequireAuth (sample_auth (cookie_token_store (\<lambda>k fn. fn) sample_codec sample_cookie_store)) Background
     anonymous sample_visit (sample_io sample_world)) \<noteq> Panic"
  using storeless_never_panics [OF auth_store_sample, of "\<lambda>k fn. fn" sample_codec sample_cookie_store Background
      anonymous sample_visit "sample_io sample_world"]
  by blast

text \<open>C28. Nor does one of an application whose sessions are in Postgres, whatever the table holds and
  however the database fails.\<close>

theorem stored_never_panics:
  fixes a :: "'a pg_world_scheme OIDCAuth"
  assumes "auth_store a = pg_token_store fuel s"
  shows "fst (RequireAuth a ctx c r io) \<noteq> Panic \<and> fst (OptionalAuth a ctx c r io) \<noteq> Panic \<and>
    fst (Keepalive a ctx r io) \<noteq> Panic \<and>
    fst (authCallback a ctx r io :: 'c Page option result outcome \<times> 'a pg_world_scheme io) \<noteq> Panic"
  using pg_sound.guards_return [OF assms, where io = io] pg_sound.authCallback_returns [OF assms]
  by simp

lemma stored_never_panics_witness:
  "fst (Keepalive (sample_auth (pg_token_store 9 sample_pg)) Background sample_visit
     (sample_io (sample_pg_world 150 [] []))) \<noteq> Panic"
  using stored_never_panics [OF auth_store_sample, of 9 sample_pg Background
      anonymous sample_visit "sample_io (sample_pg_world 150 [] [])"]
  by blast

section \<open>From the login to the page\<close>


text \<open>A login in the sample configuration, with tokens that are not due for a refresh.\<close>

definition live_token :: Token where
  "live_token = sample_token\<lparr>Expiry := 20 * Second\<rparr>"

definition live_codec :: "sessionPayload codec" where
  "live_codec = session_codec sample_token_codec (\<lambda>t. 60)"

definition live_store :: CookieTokenStore where
  "live_store = newCookieTokenStore sample_keyring ''cookie:s'' (12 * Hour)"

definition live_auth :: "world OIDCAuth" where
  "live_auth = (sample_auth (cookie_token_store (\<lambda>k fn. fn) live_codec live_store))
     \<lparr>oa_provider := sample_provider\<lparr>op_Exchange := (\<lambda>ctx code w. (Inr (live_token, Some ''id''), w))\<rparr>\<rparr>"

lemma live_auth_simps:
  "auth_store live_auth = cookie_token_store (\<lambda>k fn. fn) live_codec live_store" "oa_cookieName live_auth = ''token''"
  "op_VerifyAccess (oa_provider live_auth) t w = (Inr sample_idtoken, w)"
  "op_VerifyID (oa_provider live_auth) t w = (Inr sample_idtoken, w)"
  "op_Exchange (oa_provider live_auth) ctx x w = (Inr (live_token, Some ''id''), w)"
  "op_TwirpHeaders (oa_provider live_auth) h = None" "oa_onLogin live_auth = None"
  by (simp_all add: live_auth_def sample_auth_def auth_store_def sample_provider_def)

text \<open>The JSON of the session of that login.\<close>

definition live_json :: json where
  "live_json = JObject
     [(''v'', JNumber ''1''), (''issued_at'', JString ''1970-01-01T01:00:00.00000015+01:00''),
      (''token'', JObject [(''access_token'', JString ''a''), (''refresh_token'', JString ''r''),
        (''token_type'', JString ''Bearer''), (''expiry'', JNumber ''20000000000'')]),
      (''sub'', JString ''u'')]"

lemma live_marshal:
  "json_Marshal live_codec \<lparr>sp_Version = 1, sp_IssuedAt = 150, sp_Token = Some live_token, sp_Subject = ''u''\<rparr> =
     Inr (bytes_of_string (json_text live_json))"
proof -
  have "json_time 60 150 = Inr (JString ''1970-01-01T01:00:00.00000015+01:00'')"
    "quote ''a'' = ''a''" "quote ''r'' = ''r''" "quote ''u'' = ''u''" "quote ''Bearer'' = ''Bearer''"
    by code_simp+
  moreover have "char_of (48 :: nat) = CHR ''0''" "char_of (49 :: nat) = CHR ''1''" "char_of (50 :: nat) = CHR ''2''"
    by code_simp+
  then have "Itoa 1 = ''1''" "Itoa 20000000000 = ''20000000000''"
    by (simp_all add: Itoa.simps)
  ultimately have "sessionPayload_json sample_token_codec (\<lambda>t. 60)
      \<lparr>sp_Version = 1, sp_IssuedAt = 150, sp_Token = Some live_token, sp_Subject = ''u''\<rparr> = Inr live_json"
    by (simp add: sessionPayload_json_def marshal_token_def sample_token_codec_def json_string_def json_int_def
        live_token_def sample_token_def omitempty_def live_json_def)
  then show ?thesis
    by (simp add: live_codec_def session_codec_def struct_codec_def)
qed

lemma length_live_json: "length (json_text live_json) = 158"
  by (simp add: live_json_def quoted_def)

lemma live_login:
  obtains session w' where "cookie_Create live_codec live_store \<lparr>ns_Subject = ''u'', ns_Token = Some live_token,
      ns_IDToken = ''id''\<rparr> sample_world = (Inr (Some session), w')"
    and "length (Handle session) = 262"
proof -
  obtain h w' where h: "sealKind (Some sample_keyring) sessionKindPayload ''cookie:s''
      (bytes_of_string (json_text live_json)) sample_world = (Inr h, w')"
    by (auto simp: sealKind_Inr sealingKey_sample sample_world_def)
  have "length h = 262"
    using length_sealKind [OF keyring_inv_sample h] by (simp add: length_live_json)
  moreover have "clock sample_world = 150"
    by (simp add: sample_world_def)
  ultimately show thesis
    using h live_marshal
    by (intro that) (auto simp: cookie_Create_def cookie_seal_def seal_payload_def live_store_def
        newCookieTokenStore_def sessionPayloadV1_def)
qed

lemma live_faithful: "token_faithful sample_token_codec live_token" "ValidString ''u''"
proof -
  have "ValidString ''a''" "ValidString ''r''" "ValidString ''Bearer''"
    by code_simp+
  then show "token_faithful sample_token_codec live_token"
    by (intro sample_token_faithful) (simp_all add: live_token_def sample_token_def)
  show "ValidString ''u''"
    by code_simp
qed


section \<open>Cookies that do not resolve, and stores that do not answer\<close>

text \<open>A store-less application never answers with an outage for a cookie: one that does not resolve,
  whatever it holds, sends the visitor to log in and is cleared.\<close>

theorem storeless_unreadable:
  fixes a :: "'a world_scheme OIDCAuth"
  assumes "auth_store a = cookie_token_store Do j s" and "r_Cookie r (oa_cookieName a) = Inr v"
    and "fst (cookie_Get j s v (io_world io)) = Inl e"
  shows "\<exists>io' now. RequireAuth a ctx c r io = (Value (c, Some (Sentinel ErrSkipRender)), io') \<and>
    io_cookies io' = io_cookies io @ [cleared_cookie a now] \<and> io_location io' = Some (loginURL a r)"
proof -
  obtain w' where "ts_Get (auth_store a) ctx v (io_world io) = (Inl e, w')"
    using assms(1,3) by (metis cookie_token_store_simps(2) prod.collapse)
  note failed = store_failure_Get [OF assms(2) this]
  have "sessionGone e"
    using cookie_Get_Inl [OF assms(3)] by (simp add: sessionGone_def)
  with RequireAuth_failure [OF failed, of c] show ?thesis by auto
qed

lemma storeless_unreadable_witness:
  "\<exists>io' now. RequireAuth live_auth Background anonymous (sample_visit\<lparr>r_Cookies := [(''token'', ''!'')]\<rparr>)
      (sample_io sample_world) = (Value (anonymous, Some (Sentinel ErrSkipRender)), io') \<and>
    io_cookies io' = [cleared_cookie live_auth now]"
proof -
  obtain e where e: "fst (cookie_Get live_codec live_store ''!'' (io_world (sample_io sample_world))) = Inl e"
    by (simp add: cookie_Get_def open_payload_def openKind_def base64_DecodeString_def base64_index_def
        RawURLEncoding_def base64_url_def)
  show ?thesis
    using storeless_unreadable [OF live_auth_simps(1) _ e, of "sample_visit\<lparr>r_Cookies := [(''token'', ''!'')]\<rparr>"
        Background anonymous]
    by (auto simp: live_auth_simps r_Cookie_def sample_io_def)
qed

text \<open>C24. A database outage costs nobody the session.  Where a request carries a handle the keyring
  opens and the read of its row fails, the visitor gets a 503, and the cookie stays as it is for
  when the database is back.\<close>

theorem stored_outage:
  fixes a :: "'a pg_world_scheme OIDCAuth"
  assumes "auth_store a = pg_token_store fuel s" and "r_Cookie r (oa_cookieName a) = Inr v"
    and "rowID s (clock (io_world io)) v = Inr ic" and "db_failed ctx (io_world io)"
  shows "\<exists>err io'. RequireAuth a ctx c r io = (Value (c, Some err), io') \<and> http_code err = 503 \<and>
    io_cookies io' = io_cookies io \<and> io_location io' = io_location io"
proof -
  obtain e w' where get: "pg_Get s ctx v (io_world io) = (Inl e, w')"
    and gone: "\<not> sessionGone e"
    using pg_Get_outage [OF assms(3,4)] by (metis prod.collapse sessionGone_def)
  have "store_failure a ctx r (io_world io) = Some e"
    using get by (intro store_failure_Get [OF assms(2)]) (simp add: assms(1) pg_token_store_simps)
  from RequireAuth_failure [OF this, of c] gone show ?thesis by auto
qed

lemma stored_outage_witness:
  "\<exists>v err io'. RequireAuth (sample_auth (pg_token_store 9 sample_pg)) Background anonymous
      (sample_visit\<lparr>r_Cookies := [(''token'', v)]\<rparr>)
      (sample_io ((sample_pg_world 150 [] [])\<lparr>faults := [Refused]\<rparr>)) = (Value (anonymous, Some err), io') \<and>
    http_code err = 503 \<and> io_cookies io' = []"
proof -
  let ?io = "sample_io ((sample_pg_world 150 [] [])\<lparr>faults := [Refused]\<rparr>)"
  obtain v where v: "rowID sample_pg 150 v = Inr (sha256_Sum256 [7, 8], True)"
    by (rule sample_pg_handle)
  have "rowID sample_pg (clock (io_world ?io)) v = Inr (sha256_Sum256 [7, 8], True)"
    "db_failed Background (io_world ?io)" "io_cookies ?io = []"
    using v by (simp_all add: sample_io_def sample_pg_world_def db_failed_def)
  with stored_outage [OF auth_store_sample, of "sample_visit\<lparr>r_Cookies := [(''token'', v)]\<rparr>" 9 sample_pg v ?io _ Background]
  show ?thesis
    by (fastforce simp: r_Cookie_def sample_auth_def)
qed

text \<open>C11. Logging out of a stored session ends it everywhere.  Once the database has deleted its row, a
  request with any handle that names the row, on this instance or another, under whichever key, is
  sent to log in.\<close>

theorem stored_logout:
  fixes a :: "'a pg_world_scheme OIDCAuth"
  assumes store: "auth_store a = pg_token_store fuel s" and inv: "table_inv (sessions (io_world io))"
    and cookie: "r_Cookie r (oa_cookieName a) = Inr v" "rowID s (clock (io_world io)) v = Inr (i, cur)"
    and ok: "\<not> db_failed ctx (io_world io)"
    and out: "authLogout a ctx r io = (res, io')"
    and later: "lookup_row (sessions (io_world io2)) i = lookup_row (sessions (io_world io')) i"
    and copy: "r_Cookie r2 (oa_cookieName a) = Inr u" "rowID s (clock (io_world io2)) u = Inr (i, cur2)"
    and ok2: "\<not> db_failed ctx2 (io_world io2)"
  shows "\<exists>io3 now. RequireAuth a ctx2 c r2 io2 = (Value (c, Some (Sentinel ErrSkipRender)), io3) \<and>
    io_cookies io3 = io_cookies io2 @ [cleared_cookie a now] \<and> io_location io3 = Some (loginURL a r2)"
proof -
  have del: "pg_Delete s ctx v (io_world io) = (Inr (), io_world io')"
  proof -
    obtain w' where w': "pg_Delete s ctx v (io_world io) = (Inr (), w')"
      using pg_Delete_answered [OF cookie(2) ok] by (metis prod.collapse)
    then show ?thesis
      using out store cookie
      by (auto simp: authLogout_def deleteSession_def pg_token_store_simps io_simps auth_simps)
  qed
  obtain e w3 where get: "pg_Get s ctx2 u (io_world io2) = (Inl e, w3)" and gone: "sessionGone e"
    using pg_Delete_revoked [OF inv cookie(2) del later copy(2) ok2] by (metis prod.collapse sessionGone_def)
  have "store_failure a ctx2 r2 (io_world io2) = Some e"
    using get by (intro store_failure_Get [OF copy(1)]) (simp add: store pg_token_store_simps)
  from RequireAuth_failure [OF this, of c] gone show ?thesis by auto
qed

lemma stored_logout_witness:
  "\<exists>u io3. RequireAuth (sample_auth (pg_token_store 9 sample_pg)) Background anonymous
      (sample_visit\<lparr>r_Cookies := [(''token'', u)]\<rparr>) (sample_io (sample_pg_world 250 [] [])) =
      (Value (anonymous, Some (Sentinel ErrSkipRender)), io3)"
proof -
  let ?a = "sample_auth (pg_token_store 9 sample_pg)"
  let ?r = "(sample_row 1 1000)\<lparr>row_id := sha256_Sum256 [7, 8]\<rparr>"
  let ?io = "sample_io (sample_pg_world 150 [] [?r])" and ?io2 = "sample_io (sample_pg_world 250 [] [])"
  obtain v where v: "rowID sample_pg 150 v = Inr (sha256_Sum256 [7, 8], True)"
    "rowID sample_pg 250 v = Inr (sha256_Sum256 [7, 8], False)"
    by (rule sample_pg_handle)
  let ?q = "sample_visit\<lparr>r_Cookies := [(''token'', v)]\<rparr>"
  have q: "r_Cookie ?q (oa_cookieName ?a) = Inr v"
    by (simp add: r_Cookie_def sample_auth_def)
  obtain res io' where out: "authLogout ?a Background ?q ?io = (res :: unit Page option result outcome, io')"
    by fastforce
  have "pg_Delete sample_pg Background v (sample_pg_world 150 [] [?r]) = (Inr (), sample_pg_world 150 [] [])"
    using v by (simp add: pg_Delete_def sample_pg_world_def pg_query_answered DeleteSession_def sql_delete_def)
  moreover have "io_world ?io = sample_pg_world 150 [] [?r]"
    by (simp add: sample_io_def)
  ultimately have "io_world io' = sample_pg_world 150 [] []"
    using out unfolding authLogout_def deleteSession_def q
    by (auto simp: auth_store_sample pg_token_store_simps io_simps auth_simps)
  then have "sessions (io_world io') = []"
    by (simp add: sample_pg_world_def)
  moreover have "table_inv (sessions (io_world ?io))" "sessions (io_world ?io2) = []"
    "rowID sample_pg (clock (io_world ?io)) v = Inr (sha256_Sum256 [7, 8], True)"
    "rowID sample_pg (clock (io_world ?io2)) v = Inr (sha256_Sum256 [7, 8], False)"
    "\<not> db_failed Background (io_world ?io)" "\<not> db_failed Background (io_world ?io2)"
    using v by (simp_all add: sample_io_def sample_pg_world_def table_inv_def db_failed_def)
  ultimately show ?thesis
    using stored_logout [OF auth_store_sample _ q _ _ out _ q, of _ True ?io2 False Background anonymous] by auto
qed

section \<open>What fits in a cookie\<close>

text \<open>C37. What a store-less session may weigh.  Under the default cookie name, the session cookie is
  written exactly when the JSON of the session has at most 2940 bytes.\<close>

theorem storeless_cookie_limit:
  assumes "store_inv s" and "cookie_Create j s ns w = (Inr (Some st), w')"
    and "json_Marshal j \<lparr>sp_Version = sessionPayloadV1, sp_IssuedAt = clock w, sp_Token = ns_Token ns,
      sp_Subject = ns_Subject ns\<rparr> = Inr data" and "oa_cookieName a = ''token''"
  shows "fst (setTokenCookie a st io) = Inr () \<longleftrightarrow> length data \<le> 2940"
proof -
  have "seal_payload (Some (cts_keyring s)) (cts_domain s) data w = (Inr (Handle st), w')"
    using assms(2,3) by (auto simp: cookie_Create_def cookie_seal_Inr payload_of_def content_def split: if_splits)
  then have "length (Handle st) = (4 * (length data + 38) + 2) div 3"
    using assms(1) by (auto simp: store_inv_def seal_payload_def dest: length_sealKind)
  then show ?thesis
    using assms(4) by (auto simp: setTokenCookie_def cookieAttributeBudget_def cookieSizeLimit_def)
qed

lemma storeless_cookie_limit_witness:
  "\<exists>st w'. cookie_Create live_codec live_store \<lparr>ns_Subject = ''u'', ns_Token = Some live_token, ns_IDToken = ''id''\<rparr>
      sample_world = (Inr (Some st), w') \<and> fst (setTokenCookie live_auth st (sample_io sample_world)) = Inr ()"
proof -
  obtain st w' where new: "cookie_Create live_codec live_store \<lparr>ns_Subject = ''u'', ns_Token = Some live_token,
      ns_IDToken = ''id''\<rparr> sample_world = (Inr (Some st), w')"
    by (rule live_login)
  have "store_inv live_store"
    by (simp add: store_inv_def live_store_def newCookieTokenStore_def keyring_inv_sample)
  from storeless_cookie_limit [OF this new, of "bytes_of_string (json_text live_json)" live_auth
      "sample_io sample_world"] new live_marshal
  show ?thesis
    by (simp add: live_auth_simps length_live_json sessionPayloadV1_def sample_world_def)
qed

text \<open>A stored session always fits: its handle has 94 characters whatever the session holds.\<close>

theorem stored_cookie_fits:
  assumes "keyring_inv (sealer_keyring (pg_sealer s))" and "pg_Create s ctx ns w = (Inr (Some st), w')"
    and "length (oa_cookieName a) \<le> 3882"
  shows "length (Handle st) = 94 \<and> fst (setTokenCookie a st io) = Inr ()"
proof -
  obtain handle w1 w2 where "rand_Read handleLength w = (Inr handle, w1)"
    and "SealHandle (pg_sealer s) handle w1 = (Inr (Handle st), w2)"
    using assms(2) by (auto simp: pg_Create_def Let_def split: option.splits sum.splits prod.splits)
  then have "length (Handle st) = 94"
    using assms(1) by (auto simp: SealHandle_Inr rand_Read_Inr handleLength_def dest!: length_sealKind)
  then show ?thesis
    using assms(3) by (simp add: setTokenCookie_def cookieAttributeBudget_def cookieSizeLimit_def)
qed

lemma stored_cookie_fits_witness:
  "\<exists>st w'. pg_Create sample_pg Background sample_pg_session (sample_pg_world 150 (replicate 80 9) []) =
      (Inr (Some st), w') \<and> length (Handle st) = 94"
proof -
  obtain st w' where new: "pg_Create sample_pg Background sample_pg_session (sample_pg_world 150 (replicate 80 9) []) =
      (Inr (Some st), w')"
    by (rule sample_pg_Create)
  show ?thesis
    using stored_cookie_fits [OF sample_pg_inv new, of live_auth "sample_io sample_world"] new
    by (simp add: live_auth_simps)
qed

section \<open>From the login to the page, with a stored session\<close>


text \<open>The login of the sample, with the JSON of a row.\<close>

definition live_pg :: Store where
  "live_pg = sample_pg\<lparr>pg_json := pg_codec sample_token_codec\<rparr>"

definition live_pg_auth :: "pg_world OIDCAuth" where
  "live_pg_auth = (sample_auth (pg_token_store 9 live_pg))
     \<lparr>oa_provider := sample_provider\<lparr>op_Exchange := (\<lambda>ctx code w. (Inr (live_token, Some ''id''), w))\<rparr>\<rparr>"

lemma live_pg_auth_simps:
  "auth_store live_pg_auth = pg_token_store 9 live_pg" "oa_cookieName live_pg_auth = ''token''"
  "op_VerifyAccess (oa_provider live_pg_auth) t w = (Inr sample_idtoken, w)"
  "op_VerifyID (oa_provider live_pg_auth) t w = (Inr sample_idtoken, w)"
  "op_Exchange (oa_provider live_pg_auth) ctx x w = (Inr (live_token, Some ''id''), w)"
  "op_TwirpHeaders (oa_provider live_pg_auth) h = None" "oa_onLogin live_pg_auth = None"
  by (simp_all add: live_pg_auth_def sample_auth_def auth_store_def sample_provider_def)

lemma live_pg_login:
  obtains session w' where "pg_Create live_pg Background \<lparr>ns_Subject = ''u'', ns_Token = Some live_token,
      ns_IDToken = ''id''\<rparr> (sample_pg_world 150 (replicate 80 9) []) = (Inr (Some session), w')"
    and "length (Handle session) = 94"
proof -
  let ?ns = "\<lparr>ns_Subject = ''u'', ns_Token = Some live_token, ns_IDToken = ''id''\<rparr>"
  obtain data where "json_Marshal (pg_json live_pg) \<lparr>pp_Version = pgPayloadV1, pp_Subject = ''u'',
      pp_Token = Some live_token, pp_IDToken = ''id''\<rparr> = Inr data"
    by (simp add: live_pg_def pg_codec_def struct_codec_def pgPayload_json_def marshal_token_def sample_token_codec_def)
  then obtain session w' where new: "pg_Create live_pg Background ?ns (sample_pg_world 150 (replicate 80 9) []) =
      (Inr (Some session), w')"
    by (auto intro: sample_sealer_Create [of live_pg ?ns live_token data] simp: live_pg_def sample_pg_def)
  moreover have "keyring_inv (sealer_keyring (pg_sealer live_pg))"
    using sample_pg_inv by (simp add: live_pg_def)
  then have "length (Handle session) = 94"
    using stored_cookie_fits [OF _ new, of live_pg_auth undefined] by (simp add: live_pg_auth_simps)
  ultimately show thesis
    by (rule that)
qed


section \<open>The application around the component\<close>

text \<open>An application that has the OIDC component serves its login: every route of the component is
  registered, and where no other component has a cookie posture, the language cookie is written
  with the same attributes as the session cookie.\<close>

theorem application_with_login:
  fixes a :: "'a world_scheme OIDCAuth" and components :: "(Context, 'c, 'a world_scheme, 'f) Component list"
  assumes new: "NewApplication locales load english ParseFS components = Inr (app, renderer, regs)"
    and mem: "OIDCAuth_Component a \<in> set components"
    and only: "\<And>c. c \<in> set components \<Longrightarrow> co_insecureCookies c \<noteq> None \<Longrightarrow> c = OIDCAuth_Component a"
  shows "(\<forall>(pattern, h) \<in> set (RegisterRoutes a). PageRoute pattern h \<in> set regs) \<and>
    (\<forall>ctx r io. \<exists>k. io_cookies (snd (setLanguage app ctx r io :: 'c Page option result outcome \<times> 'a world_scheme io)) =
       io_cookies io @ [k] \<and> ck_Secure k = ck_Secure (token_cookie a s) \<and> ck_HttpOnly k \<and>
       ck_SameSiteLax k)"
proof -
  have app: "app = application_settings components"
    and regs: "regs = foldl (register_component (length components))
      [PageRoute ''GET /set-language'' (setLanguage app), AssetRoute ''GET /assets/''] (enumerate 0 components)"
    using new by (auto simp: NewApplication_def Let_def split: sum.splits)
  obtain j where j: "j < length components" "components ! j = OIDCAuth_Component a"
    using mem by (auto simp: in_set_conv_nth)
  have r: "PageRoute pattern h \<in> set regs" if "(pattern, h) \<in> set (RegisterRoutes a)" for pattern h
    unfolding regs foldl_register_component map_enumerate
    using that j by (auto simp: OIDCAuth_Component_def intro!: bexI [of _ j])
  have "app_insecureCookies app = oa_insecure a"
  proof (cases "find (\<lambda>c. co_insecureCookies c \<noteq> None) (rev components)")
    case None
    then show ?thesis
      using mem by (auto simp: find_None_iff OIDCAuth_Component_def insecureCookies_def)
  next
    case (Some c)
    then have "c \<in> set (rev components)" "co_insecureCookies c \<noteq> None"
      unfolding find_Some_iff by (metis nth_mem)+
    then have "c \<in> set components" "co_insecureCookies c \<noteq> None"
      by simp_all
    then have "c = OIDCAuth_Component a"
      by (rule only)
    then show ?thesis
      using Some by (simp add: app application_settings_last OIDCAuth_Component_def insecureCookies_def)
  qed
  then show ?thesis
    using r by (auto simp: setLanguage_def Let_def io_simps token_cookie_def)
qed

lemma application_with_login_witness:
  "\<exists>app renderer regs. NewApplication (Inr []) (\<lambda>name n. Inr n) sample_i18n (\<lambda>funcs. Inr (\<lambda>funcs name p. ([], None)))
      [BasePath_Component ''/admin'', OIDCAuth_Component live_auth :: (Context, unit, world, unit) Component] =
      Inr (app, renderer, regs) \<and>
    (\<exists>h. PageRoute ''GET /auth/callback'' h \<in> set regs)"
proof -
  let ?cs = "[BasePath_Component ''/admin'', OIDCAuth_Component live_auth :: (Context, unit, world, unit) Component]"
  obtain app renderer regs where new: "NewApplication (Inr []) (\<lambda>name n. Inr n) sample_i18n
      (\<lambda>funcs. Inr (\<lambda>funcs name p. ([], None))) ?cs = Inr (app, renderer, regs)"
    by (simp add: NewApplication_def NewPageRenderer_def Let_def)
  have "OIDCAuth_Component live_auth \<in> set ?cs"
    and "c \<in> set ?cs \<Longrightarrow> co_insecureCookies c \<noteq> None \<Longrightarrow> c = OIDCAuth_Component live_auth" for c
    by (auto simp: BasePath_Component_def)
  from application_with_login [OF new this] new show ?thesis
    by (auto simp: RegisterRoutes_def)
qed

end
